theory Spec2Isabelle
  imports Complex_Main
begin

section \<open>Pivot ITM trading system: a shallow embedding\<close>

text \<open>
  The Python program keeps its state in module-level globals of
  \<^verbatim>\<open>part1_config_and_utils.py\<close> and talks to a broker client, the system clock, a
  dashboard object and a CSV journal. The embedding makes the globals a record that is
  passed through every function, and makes every answer of the outside world (a quote,
  a candle list, a clock reading) an explicit argument of the function that asks for it.

  A Python float is modelled by the \<^typ>\<open>real\<close> that it denotes. Where the program
  stores the result of float arithmetic (the pivot, the amount invested, the profit
  target and the stop loss of a position), the binary64 operations are written out: a
  rounding to cents turns an error in the last bit into a whole cent. Elsewhere (the
  divergence of the two entry reads, the distance to the pivot, the floor in the strike)
  the arithmetic inside a comparison is taken to be exact.
  Python ints are \<^typ>\<open>int\<close>. Dates are day numbers (days since 1970-01-01), times of
  day are seconds since midnight, and \<^verbatim>\<open>time.time()\<close> and \<^verbatim>\<open>datetime.now()\<close> are
  seconds since the epoch. Logging is not modelled, and the journal file is taken to be
  writable.
\<close>

subsection \<open>Floats\<close>

text \<open>
  The nearest integer, a tie going to the even neighbour.
\<close>

definition round_half_even :: "real \<Rightarrow> int" where
  "round_half_even x =
     (let f = \<lfloor>x\<rfloor>; d = x - of_int f
      in if d < 1 / 2 then f else if d > 1 / 2 then f + 1 else if even f then f else f + 1)"

text \<open>
  The binary exponent of a positive number: \<open>2 powi ilog2 x \<le> x < 2 powi (ilog2 x + 1)\<close>.
\<close>

function ilog2 :: "real \<Rightarrow> int" where
  "ilog2 x = (if 2 \<le> x then ilog2 (x / 2) + 1
              else if 0 < x \<and> x < 1 then ilog2 (x * 2) - 1
              else 0)"
  by pat_completeness auto

termination
proof (relation "measure (\<lambda>x. nat (2 * \<lceil>1 / x\<rceil> + \<lfloor>x\<rfloor>))")
  show "wf (measure (\<lambda>x. nat (2 * \<lceil>1 / x\<rceil> + \<lfloor>x\<rfloor>)))" by simp
next
  fix x :: real
  assume x: "2 \<le> x"
  have a: "\<lceil>1 / x\<rceil> = 1" using x by (simp add: ceiling_eq_iff)
  have b: "\<lceil>1 / (x / 2)\<rceil> = 1" using x by (simp add: ceiling_eq_iff)
  have c: "\<lfloor>x / 2\<rfloor> < \<lfloor>x\<rfloor>" using x by linarith
  have d: "0 \<le> \<lfloor>x / 2\<rfloor>" using x by simp
  have "nat (2 * \<lceil>1 / (x / 2)\<rceil> + \<lfloor>x / 2\<rfloor>) < nat (2 * \<lceil>1 / x\<rceil> + \<lfloor>x\<rfloor>)"
    unfolding a b using c d by linarith
  then show "(x / 2, x) \<in> measure (\<lambda>x. nat (2 * \<lceil>1 / x\<rceil> + \<lfloor>x\<rfloor>))"
    by simp
next
  fix x :: real
  assume "\<not> 2 \<le> x" and x: "0 < x \<and> x < 1"
  define y where "y = 1 / x"
  have y: "1 < y" using x by (simp add: y_def)
  have e: "1 / (x * 2) = y / 2" by (simp add: y_def)
  have k: "y \<le> of_int \<lceil>y\<rceil>" by simp
  have "2 \<le> \<lceil>y\<rceil>" using y by (simp add: le_ceiling_iff)
  then have "2 \<le> (of_int \<lceil>y\<rceil> :: real)" by linarith
  then have "y / 2 \<le> of_int \<lceil>y\<rceil> - 1" using k by linarith
  then have "y / 2 \<le> of_int (\<lceil>y\<rceil> - 1)" by simp
  then have "\<lceil>y / 2\<rceil> \<le> \<lceil>y\<rceil> - 1" by (simp only: ceiling_le_iff)
  then have f: "\<lceil>y / 2\<rceil> < \<lceil>y\<rceil>" by simp
  have g: "\<lfloor>x\<rfloor> = 0" using x by (simp add: floor_eq_iff)
  have h: "\<lfloor>x * 2\<rfloor> \<le> 1" using x by (simp add: floor_le_iff)
  have i: "0 \<le> \<lfloor>x * 2\<rfloor>" using x by simp
  have j: "0 < \<lceil>y / 2\<rceil>" using y by simp
  have "nat (2 * \<lceil>1 / (x * 2)\<rceil> + \<lfloor>x * 2\<rfloor>) < nat (2 * \<lceil>y\<rceil> + \<lfloor>x\<rfloor>)"
    unfolding e g using f h i j by linarith
  then show "(x * 2, x) \<in> measure (\<lambda>x. nat (2 * \<lceil>1 / x\<rceil> + \<lfloor>x\<rfloor>))"
    by (simp add: y_def)
qed

declare ilog2.simps [simp del]

text \<open>
  A Python float is an IEEE 754 binary64 number: 53 significant bits, the exponent of a
  normal number at least \<open>-1022\<close>, subnormal numbers below with the spacing
  \<open>2 powi (-1074)\<close>. \<open>ulp x\<close> is the spacing of the floats around \<open>x\<close> and
  \<open>to_double x\<close> the float nearest to \<open>x\<close>, a tie going to the even significand. It is
  the value of a literal, and the result of \<^verbatim>\<open>+\<close>, \<^verbatim>\<open>-\<close>, \<^verbatim>\<open>*\<close> and \<^verbatim>\<open>/\<close> is the
  float nearest to the exact result. Results of magnitude \<open>2 ^ 1024\<close> and above, which
  Python makes infinite, are rounded as if the exponent had no upper bound. The program
  divides floats by the constant 3 only, so \<open>fdiv\<close> has no branch for a zero divisor.
\<close>

definition ulp :: "real \<Rightarrow> real" where
  "ulp x = 2 powi (max (ilog2 \<bar>x\<bar>) (- 1022) - 52)"

definition to_double :: "real \<Rightarrow> real" where
  "to_double x = of_int (round_half_even (x / ulp x)) * ulp x"

definition fadd :: "real \<Rightarrow> real \<Rightarrow> real" where
  "fadd x y = to_double (x + y)"

definition fsub :: "real \<Rightarrow> real \<Rightarrow> real" where
  "fsub x y = to_double (x - y)"

definition fmul :: "real \<Rightarrow> real \<Rightarrow> real" where
  "fmul x y = to_double (x * y)"

definition fdiv :: "real \<Rightarrow> real \<Rightarrow> real" where
  "fdiv x y = to_double (x / y)"

text \<open>
  Python's \<^verbatim>\<open>round(x, ndigits)\<close> on a float takes the exact value of \<open>x\<close> to the
  nearest multiple of \<open>10 ^ -ndigits\<close>, a tie going to the even neighbour, and returns
  the float nearest to that decimal.
\<close>

definition py_round :: "real \<Rightarrow> nat \<Rightarrow> real" where
  "py_round x ndigits = to_double (of_int (round_half_even (x * 10 ^ ndigits)) / 10 ^ ndigits)"

subsection \<open>Configuration constants (part1, lines 22-61)\<close>

definition NIFTY_LOT_SIZE :: int where "NIFTY_LOT_SIZE = 65"
definition TRADE_LOTS :: int where "TRADE_LOTS = 1"
definition MAX_DAILY_TRADES :: int where "MAX_DAILY_TRADES = 2"
definition PIVOT_BUFFER_POINTS :: real where "PIVOT_BUFFER_POINTS = 25"
definition STOP_LOSS_PERCENT :: real where "STOP_LOSS_PERCENT = to_double 0.10"
definition PROFIT_TARGET_PERCENT :: real where "PROFIT_TARGET_PERCENT = to_double 0.10"

text \<open>Clock times \<^verbatim>\<open>"HH:MM"\<close>, as seconds since midnight.\<close>

definition hhmm :: "nat \<Rightarrow> nat \<Rightarrow> real" where
  "hhmm h m = real (h * 3600 + m * 60)"

definition EOD_EXIT :: real where "EOD_EXIT = hhmm 15 20"
definition ENTRY_CUTOFF :: real where "ENTRY_CUTOFF = hhmm 15 20"
definition BIAS_CANDLE_END :: real where "BIAS_CANDLE_END = hhmm 9 20"

definition MAX_RETRIES :: nat where "MAX_RETRIES = 3"
definition RETRY_DELAY_SEC :: real where "RETRY_DELAY_SEC = 2"
definition CIRCUIT_BREAKER_FAILURES :: int where "CIRCUIT_BREAKER_FAILURES = 5"
definition CIRCUIT_BREAKER_TIMEOUT_SEC :: real where "CIRCUIT_BREAKER_TIMEOUT_SEC = 300"

definition HEARTBEAT_INTERVAL_SEC :: real where "HEARTBEAT_INTERVAL_SEC = 600"

definition MIN_OPTION_PRICE :: real where "MIN_OPTION_PRICE = 1.0"
definition MAX_OPTION_PRICE :: real where "MAX_OPTION_PRICE = 1000.0"
definition MIN_SPOT_PRICE :: real where "MIN_SPOT_PRICE = 15000"
definition MAX_SPOT_PRICE :: real where "MAX_SPOT_PRICE = 30000"

subsection \<open>Circuit breaker (part1, class CircuitBreaker, lines 95-137)\<close>

record CircuitBreaker =
  failure_count :: int
  threshold :: int
  timeout :: real
  opened_at :: "real option"

definition CircuitBreaker_init :: "int \<Rightarrow> real \<Rightarrow> CircuitBreaker" where
  "CircuitBreaker_init th tmo =
     \<lparr>failure_count = 0, threshold = th, timeout = tmo, opened_at = None\<rparr>"

text \<open>
  \<^verbatim>\<open>record_failure\<close> reads \<^verbatim>\<open>time.time()\<close> when the threshold is reached; the
  reading is the argument \<open>now\<close>.
\<close>

definition record_failure :: "real \<Rightarrow> CircuitBreaker \<Rightarrow> CircuitBreaker" where
  "record_failure now cb =
     (let cb1 = cb\<lparr>failure_count := failure_count cb + 1\<rparr>
      in if failure_count cb1 \<ge> threshold cb1 then cb1\<lparr>opened_at := Some now\<rparr> else cb1)"

definition record_success :: "CircuitBreaker \<Rightarrow> CircuitBreaker" where
  "record_success cb = cb\<lparr>failure_count := 0, opened_at := None\<rparr>"

text \<open>
  \<^verbatim>\<open>if not self.opened_at\<close> is Python truthiness: \<^verbatim>\<open>None\<close> and \<^verbatim>\<open>0.0\<close> are both
  false. The result is the returned boolean and the breaker after the call.
\<close>

definition is_open :: "real \<Rightarrow> CircuitBreaker \<Rightarrow> bool \<times> CircuitBreaker" where
  "is_open now cb =
     (case opened_at cb of
        None \<Rightarrow> (False, cb)
      | Some t \<Rightarrow>
          if t = 0 then (False, cb)
          else let elapsed = now - t
               in if elapsed > timeout cb
                  then (False, cb\<lparr>failure_count := 0, opened_at := None\<rparr>)
                  else (True, cb))"

text \<open>Sequences of method calls on one breaker, each with the clock reading it sees.\<close>

datatype breaker_call = Failure real | Success | Query real

fun breaker_step :: "breaker_call \<Rightarrow> CircuitBreaker \<Rightarrow> CircuitBreaker" where
  "breaker_step (Failure now) cb = record_failure now cb"
| "breaker_step Success cb = record_success cb"
| "breaker_step (Query now) cb = snd (is_open now cb)"

fun call_time_positive :: "breaker_call \<Rightarrow> bool" where
  "call_time_positive (Failure now) = (0 < now)"
| "call_time_positive Success = True"
| "call_time_positive (Query now) = (0 < now)"

definition failures :: "real list \<Rightarrow> CircuitBreaker \<Rightarrow> CircuitBreaker" where
  "failures ts cb = fold record_failure ts cb"

definition breaker_calls :: "breaker_call list \<Rightarrow> CircuitBreaker \<Rightarrow> CircuitBreaker" where
  "breaker_calls cs cb = fold breaker_step cs cb"

definition breaker_consistent :: "CircuitBreaker \<Rightarrow> bool" where
  "breaker_consistent cb =
     ((opened_at cb \<noteq> None) = (failure_count cb \<ge> threshold cb))"

definition breaker_inv :: "CircuitBreaker \<Rightarrow> bool" where
  "breaker_inv cb =
     (1 \<le> threshold cb \<and> 0 \<le> failure_count cb \<and> breaker_consistent cb
      \<and> opened_at cb \<noteq> Some 0)"

subsection \<open>Module state, dashboard state and the record of outside effects\<close>

text \<open>
  A position is the dictionary built by \<^verbatim>\<open>enter_position\<close> (part3, lines 146-157);
  its \<^verbatim>\<open>entry_time\<close> is only logged and is left out.
\<close>

record Position =
  symbol :: string
  segment :: string
  direction :: string
  entry_price :: real
  quantity :: int
  invested :: real
  profit_target :: real
  stop_loss :: real
  pivot :: real

text \<open>The first five-minute candle as \<^verbatim>\<open>get_first_5min_candle\<close> returns it.\<close>

record candle_data =
  cd_open :: real
  cd_high :: real
  cd_low :: real
  cd_close :: real

text \<open>
  \<^verbatim>\<open>SharedState.current_trade\<close> (shared_state.py, lines 91-102): the fields the
  arithmetic of the dashboard reads and writes. \<^verbatim>\<open>{}\<close> is \<open>None\<close>.
\<close>

record dash_trade =
  dt_entry_price :: real
  dt_quantity :: int
  dt_current_price :: real

text \<open>
  What the program does to the outside, in order: calls of \<^verbatim>\<open>groww.get_ltp\<close>,
  \<^verbatim>\<open>time.sleep\<close>, the paper orders and the journal rows. Calls of
  \<^verbatim>\<open>record_success\<close> and \<^verbatim>\<open>record_failure\<close> are recorded too, so that they can
  be counted.
\<close>

datatype breaker_id = SpotBreaker | OptionBreaker

datatype event =
    GetLtp string
  | Sleep real
  | BreakerSuccess breaker_id
  | BreakerFailure breaker_id
  | PaperBuy string int real
  | PaperSell string int real string
  | JournalRow string real real string

text \<open>
  The globals of \<^verbatim>\<open>part1_config_and_utils.py\<close> (lines 76-88 and 141-142) that the
  trading logic uses, the dashboard singleton's trade fields, and the record of effects.
  The instrument table and its lookup cache belong to instrument resolution, which is
  an input here (see \<open>tick_obs\<close>).
\<close>

record world =
  executed_trades_count :: int
  current_position :: "Position option"
  last_trading_date :: "int option"
  daily_pivot_point :: "real option"
  daily_bias :: "string option"
  bias_lock_date :: "int option"
  bias_candle_data :: "candle_data option"
  last_heartbeat_timestamp :: "real option"
  spot_price_breaker :: CircuitBreaker
  option_price_breaker :: CircuitBreaker
  in_trade :: bool
  current_trade :: "dash_trade option"
  trace :: "event list"

definition initial_world :: world where
  "initial_world =
     \<lparr>executed_trades_count = 0, current_position = None, last_trading_date = None,
      daily_pivot_point = None, daily_bias = None, bias_lock_date = None,
      bias_candle_data = None, last_heartbeat_timestamp = None,
      spot_price_breaker =
        CircuitBreaker_init CIRCUIT_BREAKER_FAILURES CIRCUIT_BREAKER_TIMEOUT_SEC,
      option_price_breaker =
        CircuitBreaker_init CIRCUIT_BREAKER_FAILURES CIRCUIT_BREAKER_TIMEOUT_SEC,
      in_trade = False, current_trade = None, trace = []\<rparr>"

text \<open>
  Exceptions. A function that can raise returns \<open>Inl (e, w)\<close>, with the world as it
  was when the exception left the function, or \<open>Inr w\<close>.
\<close>

datatype py_error = ZeroDivisionError | KeyError | TypeError | SystemExit

type_synonym outcome = "(py_error \<times> world) + world"

definition emit :: "event \<Rightarrow> world \<Rightarrow> world" where
  "emit e w = w\<lparr>trace := trace w @ [e]\<rparr>"

fun get_breaker :: "breaker_id \<Rightarrow> world \<Rightarrow> CircuitBreaker" where
  "get_breaker SpotBreaker w = spot_price_breaker w"
| "get_breaker OptionBreaker w = option_price_breaker w"

fun set_breaker :: "breaker_id \<Rightarrow> CircuitBreaker \<Rightarrow> world \<Rightarrow> world" where
  "set_breaker SpotBreaker cb w = w\<lparr>spot_price_breaker := cb\<rparr>"
| "set_breaker OptionBreaker cb w = w\<lparr>option_price_breaker := cb\<rparr>"

definition breaker_success :: "breaker_id \<Rightarrow> world \<Rightarrow> world" where
  "breaker_success b w = emit (BreakerSuccess b) (set_breaker b (record_success (get_breaker b w)) w)"

definition breaker_failure :: "breaker_id \<Rightarrow> real \<Rightarrow> world \<Rightarrow> world" where
  "breaker_failure b now w =
     emit (BreakerFailure b) (set_breaker b (record_failure now (get_breaker b w)) w)"

subsection \<open>Price fetching (part2, fetch_spot_price and fetch_option_price, lines 161-243)\<close>

text \<open>
  One call of \<^verbatim>\<open>groww.get_ltp\<close> raises, or answers without the symbol
  (\<^verbatim>\<open>response.get\<close> is \<^verbatim>\<open>None\<close>, and the code raises \<^verbatim>\<open>ValueError\<close>), or
  answers with a number.
\<close>

datatype ltp_response = ApiRaises | NoQuote | Quote real

text \<open>
  What one call of a fetch function sees: the clock when \<^verbatim>\<open>is_open\<close> looks at it, the
  answer to each attempt (numbered from 1 as in the source), and the clock when
  \<^verbatim>\<open>record_failure\<close> looks at it.
\<close>

record fetch_obs =
  t_is_open :: real
  answers :: "nat \<Rightarrow> ltp_response"
  t_failure :: real

text \<open>
  The two functions of the source are the same text with another breaker, symbol and
  range; \<open>fetch_attempts\<close> is the body of their \<^verbatim>\<open>for attempt in range(1, MAX_RETRIES + 1)\<close>
  loop from attempt \<open>attempt\<close> on. A loop that ends without returning gives \<^verbatim>\<open>None\<close>.
\<close>

function fetch_attempts ::
  "breaker_id \<Rightarrow> string \<Rightarrow> real \<Rightarrow> real \<Rightarrow> fetch_obs \<Rightarrow> nat \<Rightarrow> world \<Rightarrow> real option \<times> world"
where
  "fetch_attempts b tsym lo hi ob attempt w =
     (if attempt > MAX_RETRIES then (None, w)
      else
        let w1 = emit (GetLtp tsym) w
        in case answers ob attempt of
             Quote price \<Rightarrow>
               if \<not> (lo \<le> price \<and> price \<le> hi) then
                 (if attempt < MAX_RETRIES
                  then fetch_attempts b tsym lo hi ob (attempt + 1) (emit (Sleep RETRY_DELAY_SEC) w1)
                  else (None, breaker_failure b (t_failure ob) w1))
               else (Some price, breaker_success b w1)
           | _ \<Rightarrow>
               if attempt < MAX_RETRIES
               then fetch_attempts b tsym lo hi ob (attempt + 1) (emit (Sleep RETRY_DELAY_SEC) w1)
               else (None, breaker_failure b (t_failure ob) w1))"
  by pat_completeness auto
termination
  by (relation "measure (\<lambda>(b, tsym, lo, hi, ob, attempt, w). MAX_RETRIES + 1 - attempt)") auto

definition fetch_price ::
  "breaker_id \<Rightarrow> string \<Rightarrow> real \<Rightarrow> real \<Rightarrow> fetch_obs \<Rightarrow> world \<Rightarrow> real option \<times> world"
where
  "fetch_price b tsym lo hi ob w =
     (let (opened, cb) = is_open (t_is_open ob) (get_breaker b w);
          w0 = set_breaker b cb w
      in if opened then (None, w0) else fetch_attempts b tsym lo hi ob 1 w0)"

definition fetch_spot_price :: "fetch_obs \<Rightarrow> world \<Rightarrow> real option \<times> world" where
  "fetch_spot_price ob w =
     fetch_price SpotBreaker ''NSE_NIFTY'' MIN_SPOT_PRICE MAX_SPOT_PRICE ob w"

definition fetch_option_price ::
  "fetch_obs \<Rightarrow> string \<Rightarrow> string \<Rightarrow> world \<Rightarrow> real option \<times> world"
where
  "fetch_option_price ob tsym seg w =
     fetch_price OptionBreaker (''NSE_'' @ tsym) MIN_OPTION_PRICE MAX_OPTION_PRICE ob w"

subsection \<open>Pivot (part2, fetch_and_calculate_pivot, lines 90-154)\<close>

text \<open>
  A row of \<^verbatim>\<open>response["candles"]\<close>: timestamp in epoch seconds, open, high, low,
  close, volume. The code converts high, low and close with \<^verbatim>\<open>float(...)\<close>
  (lines 132-134), so these fields hold floats.
\<close>

record candle =
  candle_timestamp :: int
  candle_open :: real
  candle_high :: real
  candle_low :: real
  candle_close :: real
  candle_volume :: real

text \<open>
  \<^verbatim>\<open>groww.get_historical_candle_data\<close> raises (or answers with rows the code cannot
  read, which raises in the same \<^verbatim>\<open>try\<close>), or answers with a list of rows; a
  response without the key \<^verbatim>\<open>"candles"\<close> is the empty list.
\<close>

datatype candles_response = CandlesRaise | Candles "candle list"

text \<open>
  \<^verbatim>\<open>df["date"]\<close>: the calendar date of the timestamp in Asia/Kolkata (UTC+05:30, no
  daylight saving), as a day number.
\<close>

definition candle_date :: "candle \<Rightarrow> int" where
  "candle_date c = (candle_timestamp c + 19800) div 86400"

text \<open>
  \<^verbatim>\<open>sort_values("date")\<close> is modelled by a stable sort; pandas does not promise the
  order of rows with equal dates.
\<close>

definition fetch_and_calculate_pivot :: "int \<Rightarrow> candles_response \<Rightarrow> real option" where
  "fetch_and_calculate_pivot today response =
     (case response of
        CandlesRaise \<Rightarrow> None
      | Candles candles \<Rightarrow>
          if candles = [] then None
          else
            let completed_days = filter (\<lambda>c. candle_date c < today) candles
            in if completed_days = [] then None
               else
                 let prev_day = last (sort_key candle_date completed_days);
                     high = candle_high prev_day;
                     low = candle_low prev_day;
                     close = candle_close prev_day
                 in Some (py_round (fdiv (fadd (fadd high low) close) 3) 2))"

subsection \<open>Bias (part2, get_first_5min_candle and determine_daily_bias, lines 250-358)\<close>

definition get_first_5min_candle :: "candles_response \<Rightarrow> candle_data option" where
  "get_first_5min_candle response =
     (case response of
        CandlesRaise \<Rightarrow> None
      | Candles candles \<Rightarrow>
          (case candles of
             [] \<Rightarrow> None
           | c # _ \<Rightarrow>
               Some \<lparr>cd_open = candle_open c, cd_high = candle_high c,
                     cd_low = candle_low c, cd_close = candle_close c\<rparr>))"

text \<open>
  \<open>now\<close> is \<^verbatim>\<open>datetime.now().time()\<close>, \<open>today\<close> is \<^verbatim>\<open>date.today()\<close>, and
  \<open>response\<close> is what the broker would answer to the request for the first candle.
\<close>

definition determine_daily_bias :: "real \<Rightarrow> int \<Rightarrow> candles_response \<Rightarrow> world \<Rightarrow> world" where
  "determine_daily_bias now today response w =
     (if daily_bias w \<noteq> None then w
      else
        case daily_pivot_point w of
          None \<Rightarrow> w
        | Some pivot_point \<Rightarrow>
            if now < BIAS_CANDLE_END then w
            else
              case get_first_5min_candle response of
                None \<Rightarrow> w
              | Some first_candle \<Rightarrow>
                  let close_price = cd_close first_candle
                  in if close_price > pivot_point then
                       w\<lparr>daily_bias := Some ''BULLISH'', bias_lock_date := Some today,
                         bias_candle_data := Some first_candle\<rparr>
                     else if close_price < pivot_point then
                       w\<lparr>daily_bias := Some ''BEARISH'', bias_lock_date := Some today,
                         bias_candle_data := Some first_candle\<rparr>
                     else w\<lparr>daily_bias := Some ''NEUTRAL''\<rparr>)"

subsection \<open>Entry trigger and strike (part2, lines 361-405)\<close>

definition is_in_pivot_zone :: "real \<Rightarrow> real \<Rightarrow> bool" where
  "is_in_pivot_zone spot pivot_point =
     (let lower = pivot_point - PIVOT_BUFFER_POINTS;
          upper = pivot_point + PIVOT_BUFFER_POINTS
      in lower \<le> spot \<and> spot \<le> upper)"

text \<open>
  \<^verbatim>\<open>spot // 100\<close> on a float is the floor of the quotient, and \<^verbatim>\<open>int\<close> of that
  whole number is the number itself.
\<close>

definition calculate_itm_strike :: "real \<Rightarrow> string \<Rightarrow> int option" where
  "calculate_itm_strike spot dir =
     (if dir = ''CALL'' then Some (\<lfloor>spot / 100\<rfloor> * 100)
      else if dir = ''PUT'' then Some (\<lfloor>(spot + 99) / 100\<rfloor> * 100)
      else None)"

subsection \<open>Dashboard trade bookkeeping (shared_state.py, lines 87-162)\<close>

text \<open>
  Only the trade fields are modelled; the event feed, the status string, the trade
  history and the performance counters are written and never read by the trading logic.
\<close>

definition enter_trade :: "real \<Rightarrow> int \<Rightarrow> world \<Rightarrow> world" where
  "enter_trade price qty w =
     w\<lparr>in_trade := True,
       current_trade :=
         Some \<lparr>dt_entry_price = price, dt_quantity = qty, dt_current_price = price\<rparr>\<rparr>"

text \<open>
  \<^verbatim>\<open>update_trade_price\<close> stores the price and then divides by the entry price
  (line 113), which raises when the entry price is zero.
\<close>

definition update_trade_price :: "real \<Rightarrow> world \<Rightarrow> outcome" where
  "update_trade_price price w =
     (if in_trade w then
        (case current_trade w of
           None \<Rightarrow> Inr w
         | Some t \<Rightarrow>
             let w1 = w\<lparr>current_trade := Some (t\<lparr>dt_current_price := price\<rparr>)\<rparr>
             in if dt_entry_price t = 0 then Inl (ZeroDivisionError, w1) else Inr w1)
      else Inr w)"

definition exit_trade :: "real \<Rightarrow> string \<Rightarrow> world \<Rightarrow> outcome" where
  "exit_trade exit_price exit_reason w =
     (if \<not> in_trade w then Inr w
      else
        case current_trade w of
          None \<Rightarrow> Inl (KeyError, w)
        | Some t \<Rightarrow>
            if dt_entry_price t = 0 then Inl (ZeroDivisionError, w)
            else Inr (w\<lparr>in_trade := False, current_trade := None\<rparr>))"

subsection \<open>Position management (part3, lines 42-310)\<close>

definition calculate_position_size :: "real \<Rightarrow> int" where
  "calculate_position_size option_price =
     (if option_price \<le> 0 then 0 else NIFTY_LOT_SIZE * TRADE_LOTS)"

definition can_enter_trade :: "world \<Rightarrow> bool" where
  "can_enter_trade w =
     (if executed_trades_count w \<ge> MAX_DAILY_TRADES then False
      else if current_position w \<noteq> None then False
      else True)"

definition paper_buy :: "string \<Rightarrow> int \<Rightarrow> real \<Rightarrow> world \<Rightarrow> world" where
  "paper_buy tsym qty price w = emit (PaperBuy tsym qty price) w"

definition paper_sell :: "string \<Rightarrow> int \<Rightarrow> real \<Rightarrow> string \<Rightarrow> world \<Rightarrow> world" where
  "paper_sell tsym qty price reason w = emit (PaperSell tsym qty price reason) w"

text \<open>
  \<^verbatim>\<open>log_trade_to_journal\<close> (part1, lines 239-264) divides by the entry price before
  it appends the row.
\<close>

definition log_trade_to_journal :: "Position \<Rightarrow> real \<Rightarrow> string \<Rightarrow> world \<Rightarrow> outcome" where
  "log_trade_to_journal trade exit_price exit_reason w =
     (if entry_price trade = 0 then Inl (ZeroDivisionError, w)
      else Inr (emit (JournalRow (symbol trade) (entry_price trade) exit_price exit_reason) w))"

text \<open>The condition of the \<^verbatim>\<open>if\<close> at lines 92-98, with Python's left-to-right \<^verbatim>\<open>or\<close>.\<close>

definition entry_prices_invalid :: "real option \<Rightarrow> real option \<Rightarrow> bool" where
  "entry_prices_invalid option_price confirm_price =
     (case confirm_price of
        None \<Rightarrow> True
      | Some c \<Rightarrow>
          (case option_price of
             None \<Rightarrow> True
           | Some p \<Rightarrow> p \<le> 0 \<or> c \<le> 0 \<or> \<bar>c - p\<bar> / p > 0.05))"

text \<open>
  \<open>ob1\<close> and \<open>ob2\<close> are what the two calls of \<^verbatim>\<open>fetch_option_price\<close> see. The
  result is the returned position (or \<^verbatim>\<open>None\<close>) and the world after the call.
\<close>

definition enter_position ::
  "fetch_obs \<Rightarrow> fetch_obs \<Rightarrow> string \<Rightarrow> string \<Rightarrow> string \<Rightarrow> real \<Rightarrow> world
     \<Rightarrow> Position option \<times> world"
where
  "enter_position ob1 ob2 dir tsym seg pivot_point w =
     (if \<not> can_enter_trade w then (None, w)
      else
        let (option_price, w1) = fetch_option_price ob1 tsym seg w;
            w2 = emit (Sleep 0.5) w1;
            (confirm_price, w3) = fetch_option_price ob2 tsym seg w2
        in if entry_prices_invalid option_price confirm_price then (None, w3)
           else
             case confirm_price of
               None \<Rightarrow> (None, w3)
             | Some price \<Rightarrow>
                 let qty = calculate_position_size price
                 in if qty \<noteq> NIFTY_LOT_SIZE * TRADE_LOTS then (None, w3)
                    else if qty \<le> 0 then (None, w3)
                    else
                      let invested_amount = fmul price (of_int qty);
                          w4 = paper_buy tsym qty price w3;
                          w5 = w4\<lparr>executed_trades_count := executed_trades_count w4 + 1\<rparr>;
                          target = py_round (fmul price (fadd 1 PROFIT_TARGET_PERCENT)) 2;
                          stop = py_round (fmul price (fsub 1 STOP_LOSS_PERCENT)) 2;
                          position =
                            \<lparr>symbol = tsym, segment = seg, direction = dir,
                             entry_price = price, quantity = qty,
                             invested = invested_amount, profit_target = target,
                             stop_loss = stop, pivot = pivot_point\<rparr>;
                          w6 = w5\<lparr>current_position := Some position\<rparr>;
                          w7 = enter_trade price qty w6
                      in (Some position, w7))"

text \<open>
  \<^verbatim>\<open>exit_position\<close>: the sell is simulated first; the percentage at line 190 divides
  by the entry price; the journal and the dashboard come next; the position is cleared
  last (line 225).
\<close>

definition exit_position :: "real \<Rightarrow> string \<Rightarrow> world \<Rightarrow> outcome" where
  "exit_position exit_price reason w =
     (case current_position w of
        None \<Rightarrow> Inr w
      | Some p \<Rightarrow>
          let w1 = paper_sell (symbol p) (quantity p) exit_price reason w
          in if entry_price p = 0 then Inl (ZeroDivisionError, w1)
             else
               case log_trade_to_journal p exit_price reason w1 of
                 Inl e \<Rightarrow> Inl e
               | Inr w2 \<Rightarrow>
                   (case exit_trade exit_price reason w2 of
                      Inl e \<Rightarrow> Inl e
                    | Inr w3 \<Rightarrow> Inr (w3\<lparr>current_position := None\<rparr>)))"

definition check_stop_loss :: "fetch_obs \<Rightarrow> world \<Rightarrow> outcome" where
  "check_stop_loss ob w =
     (case current_position w of
        None \<Rightarrow> Inr w
      | Some p \<Rightarrow>
          let (price_read, w1) = fetch_option_price ob (symbol p) (segment p) w
          in case price_read of
               None \<Rightarrow> Inr w1
             | Some price \<Rightarrow>
                 (case update_trade_price price w1 of
                    Inl e \<Rightarrow> Inl e
                  | Inr w2 \<Rightarrow>
                      if price \<le> stop_loss p then exit_position price ''STOP_LOSS'' w2
                      else Inr w2))"

definition check_profit_target :: "fetch_obs \<Rightarrow> world \<Rightarrow> outcome" where
  "check_profit_target ob w =
     (case current_position w of
        None \<Rightarrow> Inr w
      | Some p \<Rightarrow>
          let (price_read, w1) = fetch_option_price ob (symbol p) (segment p) w
          in case price_read of
               None \<Rightarrow> Inr w1
             | Some price \<Rightarrow>
                 (case update_trade_price price w1 of
                    Inl e \<Rightarrow> Inl e
                  | Inr w2 \<Rightarrow>
                      if price \<ge> profit_target p then exit_position price ''PROFIT_TARGET'' w2
                      else Inr w2))"

text \<open>
  \<^verbatim>\<open>exit_price = price if price else entry_price\<close>: a missing quote and a quote of
  \<^verbatim>\<open>0.0\<close> are both false in Python.
\<close>

definition force_eod_exit :: "fetch_obs \<Rightarrow> world \<Rightarrow> outcome" where
  "force_eod_exit ob w =
     (case current_position w of
        None \<Rightarrow> Inr w
      | Some p \<Rightarrow>
          let (price_read, w1) = fetch_option_price ob (symbol p) (segment p) w;
              exit_price =
                (case price_read of
                   None \<Rightarrow> entry_price p
                 | Some price \<Rightarrow> if price = 0 then entry_price p else price)
          in exit_position exit_price ''EOD_EXIT'' w1)"

subsection \<open>Daily reset (part2, reset_daily_state, lines 28-87)\<close>

text \<open>
  What one iteration of the main loop sees of the outside world. Each fetch call site
  has its own observation. Instrument resolution (\<^verbatim>\<open>get_nearest_valid_expiry\<close> and
  \<^verbatim>\<open>find_option_instrument\<close>) and the calendar check \<^verbatim>\<open>is_trading_day\<close> are taken
  by their results: every theorem holds whatever they answer. The clock is read once
  per iteration: \<open>ob_today\<close> is \<^verbatim>\<open>date.today()\<close>, \<open>ob_time\<close> is
  \<^verbatim>\<open>datetime.now().time()\<close> and \<open>ob_datetime\<close> is \<^verbatim>\<open>datetime.now()\<close>.
\<close>

record instrument_ref =
  inst_symbol :: string
  inst_segment :: string

record tick_obs =
  ob_trading_day :: bool
  ob_today :: int
  ob_time :: real
  ob_datetime :: real
  ob_instruments_loaded :: bool
  ob_daily_candles :: candles_response
  ob_first_candles :: candles_response
  ob_eod_quote :: fetch_obs
  ob_stop_quote :: fetch_obs
  ob_target_quote :: fetch_obs
  ob_spot_quote :: fetch_obs
  ob_entry_quote :: fetch_obs
  ob_confirm_quote :: fetch_obs
  ob_nearest_expiry :: "int option"
  ob_find_instrument :: "int \<Rightarrow> int option \<Rightarrow> string \<Rightarrow> instrument_ref option"

text \<open>
  \<^verbatim>\<open>load_instrument_data\<close> ends the process with \<^verbatim>\<open>sys.exit(1)\<close> when the broker
  call fails; \<^verbatim>\<open>SystemExit\<close> is not caught by the loop's \<^verbatim>\<open>except Exception\<close>.
\<close>

definition reset_daily_state :: "tick_obs \<Rightarrow> world \<Rightarrow> outcome" where
  "reset_daily_state ob w =
     (if last_trading_date w = Some (ob_today ob) then Inr w
      else
        let w1 = w\<lparr>executed_trades_count := 0, current_position := None,
                   last_heartbeat_timestamp := None,
                   daily_bias := None, bias_lock_date := None, bias_candle_data := None\<rparr>;
            w2 = breaker_success SpotBreaker w1;
            w3 = breaker_success OptionBreaker w2
        in if \<not> ob_instruments_loaded ob then Inl (SystemExit, w3)
           else
             Inr (w3\<lparr>daily_pivot_point :=
                        fetch_and_calculate_pivot (ob_today ob) (ob_daily_candles ob),
                      last_trading_date := Some (ob_today ob)\<rparr>))"

subsection \<open>Main loop (part3, run_trading_loop, lines 317-468)\<close>

text \<open>
  The handler \<^verbatim>\<open>except Exception\<close> of the loop logs and sleeps: the iteration ends
  with the world as the exception left it.
\<close>

definition caught :: "outcome \<Rightarrow> world" where
  "caught r = (case r of Inl (e, w) \<Rightarrow> w | Inr w \<Rightarrow> w)"

text \<open>Lines 356-370, entered when a position is open.\<close>

definition manage_position :: "tick_obs \<Rightarrow> world \<Rightarrow> world" where
  "manage_position ob w =
     (if ob_time ob \<ge> EOD_EXIT then caught (force_eod_exit (ob_eod_quote ob) w)
      else
        case check_stop_loss (ob_stop_quote ob) w of
          Inl (e, w1) \<Rightarrow> w1
        | Inr w1 \<Rightarrow>
            if current_position w1 = None then w1
            else caught (check_profit_target (ob_target_quote ob) w1))"

text \<open>Lines 372-452, entered when no position is open.\<close>

definition entry_logic :: "tick_obs \<Rightarrow> real \<Rightarrow> world \<Rightarrow> world" where
  "entry_logic ob pivot_point w =
     (if ob_time ob \<ge> ENTRY_CUTOFF then w
      else if ob_time ob < BIAS_CANDLE_END then w
      else
        let w1 = determine_daily_bias (ob_time ob) (ob_today ob) (ob_first_candles ob) w
        in if daily_bias w1 = None \<or> daily_bias w1 = Some ''NEUTRAL'' then w1
           else
             let (spot_read, w2) = fetch_spot_price (ob_spot_quote ob) w1
             in case spot_read of
                  None \<Rightarrow> w2
                | Some spot \<Rightarrow>
                    if \<not> is_in_pivot_zone spot pivot_point then w2
                    else
                      let dir = (if daily_bias w2 = Some ''BULLISH'' then ''CALL'' else ''PUT'');
                          itm_strike = calculate_itm_strike spot dir;
                          option_type = (if dir = ''CALL'' then ''CE'' else ''PE'')
                      in case ob_nearest_expiry ob of
                           None \<Rightarrow> w2
                         | Some expiry \<Rightarrow>
                             (case ob_find_instrument ob expiry itm_strike option_type of
                                None \<Rightarrow> w2
                              | Some instrument \<Rightarrow>
                                  snd (enter_position (ob_entry_quote ob) (ob_confirm_quote ob)
                                         dir (inst_symbol instrument) (inst_segment instrument)
                                         pivot_point w2)))"

text \<open>
  Lines 327-329. \<^verbatim>\<open>datetime.now() - config.last_heartbeat_timestamp\<close> raises
  \<^verbatim>\<open>TypeError\<close> when the timestamp is \<^verbatim>\<open>None\<close>, which is what
  \<^verbatim>\<open>reset_daily_state\<close> sets it to.
\<close>

definition heartbeat :: "tick_obs \<Rightarrow> world \<Rightarrow> outcome" where
  "heartbeat ob w =
     (case last_heartbeat_timestamp w of
        None \<Rightarrow> Inl (TypeError, w)
      | Some t \<Rightarrow>
          if ob_datetime ob - t \<ge> HEARTBEAT_INTERVAL_SEC
          then Inr (w\<lparr>last_heartbeat_timestamp := Some (ob_datetime ob)\<rparr>)
          else Inr w)"

text \<open>Lines 331-452: the iteration after the heartbeat. \<open>Inl\<close> is the end of the process.\<close>

definition after_heartbeat :: "tick_obs \<Rightarrow> world \<Rightarrow> outcome" where
  "after_heartbeat ob w =
     (if \<not> ob_trading_day ob then Inr w
      else
        case reset_daily_state ob w of
          Inl e \<Rightarrow> Inl e
        | Inr w1 \<Rightarrow>
            (case daily_pivot_point w1 of
               None \<Rightarrow> Inr w1
             | Some pivot_point \<Rightarrow>
                 if current_position w1 \<noteq> None then Inr (manage_position ob w1)
                 else Inr (entry_logic ob pivot_point w1)))"

text \<open>
  One iteration of \<^verbatim>\<open>while True\<close>. An exception of the heartbeat lines is caught by
  the loop's handler like any other, and the iteration ends.
\<close>

definition tick :: "tick_obs \<Rightarrow> world \<Rightarrow> outcome" where
  "tick ob w =
     (case heartbeat ob w of
        Inl (e, w1) \<Rightarrow> Inr w1
      | Inr w1 \<Rightarrow> after_heartbeat ob w1)"

text \<open>The first iterations of the loop, one observation each.\<close>

fun iterations :: "tick_obs list \<Rightarrow> world \<Rightarrow> outcome" where
  "iterations [] w = Inr w"
| "iterations (ob # obs) w =
     (case tick ob w of Inl e \<Rightarrow> Inl e | Inr w1 \<Rightarrow> iterations obs w1)"

text \<open>
  \<^verbatim>\<open>run_trading_loop\<close> stamps the heartbeat with the clock at its start (line 323) and
  enters the loop.
\<close>

definition run_trading_loop :: "real \<Rightarrow> tick_obs list \<Rightarrow> world \<Rightarrow> outcome" where
  "run_trading_loop start obs w = iterations obs (w\<lparr>last_heartbeat_timestamp := Some start\<rparr>)"

text \<open>
  \<^verbatim>\<open>main\<close> (lines 475-523) resets the daily state once and then runs the loop; the
  module globals have their initial values when it starts.
\<close>

definition main :: "tick_obs \<Rightarrow> real \<Rightarrow> tick_obs list \<Rightarrow> outcome" where
  "main ob0 start obs =
     (case reset_daily_state ob0 initial_world of
        Inl e \<Rightarrow> Inl e
      | Inr w \<Rightarrow> run_trading_loop start obs w)"

subsection \<open>Notions used to state the properties\<close>

declare fetch_attempts.simps [simp del]

text \<open>
  The value an attempt yields: the quote when it is inside the range, nothing when the
  call raised, the symbol was missing or the quote is outside the range.
\<close>

definition valid_quote :: "real \<Rightarrow> real \<Rightarrow> ltp_response \<Rightarrow> real option" where
  "valid_quote lo hi r =
     (case r of Quote price \<Rightarrow> if lo \<le> price \<and> price \<le> hi then Some price else None
      | _ \<Rightarrow> None)"

fun is_order :: "event \<Rightarrow> bool" where
  "is_order (PaperBuy tsym qty price) = True"
| "is_order (PaperSell tsym qty price reason) = True"
| "is_order _ = False"

fun is_buy :: "event \<Rightarrow> bool" where
  "is_buy (PaperBuy tsym qty price) = True"
| "is_buy _ = False"

definition orders :: "world \<Rightarrow> event list" where
  "orders w = filter is_order (trace w)"

text \<open>
  The session part of the world: every global but the two circuit breakers, and of the
  effects only the orders.
\<close>

definition session_of :: "world \<Rightarrow> world" where
  "session_of w =
     w\<lparr>spot_price_breaker := CircuitBreaker_init 0 0,
       option_price_breaker := CircuitBreaker_init 0 0,
       trace := filter is_order (trace w)\<rparr>"

text \<open>The effects of \<open>k\<close> failed attempts that are each followed by a retry.\<close>

definition retried :: "string \<Rightarrow> nat \<Rightarrow> event list" where
  "retried tsym k = concat (replicate k [GetLtp tsym, Sleep RETRY_DELAY_SEC])"

fun is_sell :: "event \<Rightarrow> bool" where
  "is_sell (PaperSell tsym qty price reason) = True"
| "is_sell _ = False"

text \<open>Orders bought minus orders sold, and the number of positions the slot holds.\<close>

definition net_bought :: "world \<Rightarrow> int" where
  "net_bought w =
     int (length (filter is_buy (orders w))) - int (length (filter is_sell (orders w)))"

definition open_count :: "world \<Rightarrow> int" where
  "open_count w = (if current_position w = None then 0 else 1)"

text \<open>The invariants of the session as the specification lists them.\<close>

definition session_invariants :: "world \<Rightarrow> bool" where
  "session_invariants w =
     (executed_trades_count w \<le> MAX_DAILY_TRADES
      \<and> (current_position w \<noteq> None \<longrightarrow> 1 \<le> executed_trades_count w)
      \<and> (\<forall>p. current_position w = Some p \<longrightarrow>
             (daily_bias w = Some ''BULLISH'' \<longrightarrow> direction p = ''CALL'')
           \<and> (daily_bias w = Some ''BEARISH'' \<longrightarrow> direction p = ''PUT'')))"

text \<open>
  What the loop keeps true, in full: the session invariants, and what makes an exit
  complete (non-zero entry prices, the dashboard in step with the position).
\<close>

definition world_inv :: "world \<Rightarrow> bool" where
  "world_inv w =
     (0 \<le> executed_trades_count w \<and> executed_trades_count w \<le> MAX_DAILY_TRADES
      \<and> (case current_position w of
            None \<Rightarrow> True
          | Some p \<Rightarrow>
              1 \<le> executed_trades_count w \<and> MIN_OPTION_PRICE \<le> entry_price p \<and> in_trade w
              \<and> daily_pivot_point w \<noteq> None
              \<and> (daily_bias w = Some ''BULLISH'' \<longrightarrow> direction p = ''CALL'')
              \<and> (daily_bias w = Some ''BEARISH'' \<longrightarrow> direction p = ''PUT''))
      \<and> (in_trade w \<longrightarrow>
            (case current_trade w of
               None \<Rightarrow> False
             | Some t \<Rightarrow> MIN_OPTION_PRICE \<le> dt_entry_price t)))"

definition balance :: "world \<Rightarrow> int" where
  "balance w = net_bought w - open_count w"

text \<open>What every step of the loop inside one trading day keeps.\<close>

definition day_step :: "world \<Rightarrow> world \<Rightarrow> bool" where
  "day_step w w' =
     (world_inv w' \<and> last_trading_date w' = last_trading_date w
      \<and> daily_pivot_point w' = daily_pivot_point w \<and> balance w' = balance w)"

subsection \<open>A trading day used in the examples\<close>

text \<open>
  Day 20000 (2024-10-04). The previous day's candle has H = 18600, L = 18400, C = 18500;
  the opening candle closes at 18510; spot is 18505; the option quotes 100 at entry. The
  loop starts at 09:59:30 and \<open>example_obs\<close> is what an iteration at 10:00 sees,
  \<open>example_obs_monitor\<close> one at 10:05 and \<open>example_obs_eod\<close> one at 15:20, when no quote
  is available.
\<close>

definition quotes :: "ltp_response \<Rightarrow> fetch_obs" where
  "quotes r = \<lparr>t_is_open = 1728016200, answers = (\<lambda>i. r), t_failure = 1728016210\<rparr>"

definition candle_of :: "int \<Rightarrow> real \<Rightarrow> real \<Rightarrow> real \<Rightarrow> candle" where
  "candle_of ts h l c =
     \<lparr>candle_timestamp = ts, candle_open = c, candle_high = h, candle_low = l,
      candle_close = c, candle_volume = 0\<rparr>"

definition example_start :: real where
  "example_start = 1728016170"

definition example_obs :: tick_obs where
  "example_obs =
     \<lparr>ob_trading_day = True, ob_today = 20000, ob_time = hhmm 10 0,
      ob_datetime = 1728016200, ob_instruments_loaded = True,
      ob_daily_candles = Candles [candle_of 1727913600 18600 18400 18500],
      ob_first_candles = Candles [candle_of 1728013500 18520 18480 18510],
      ob_eod_quote = quotes ApiRaises,
      ob_stop_quote = quotes (Quote 105),
      ob_target_quote = quotes (Quote 105),
      ob_spot_quote = quotes (Quote 18505),
      ob_entry_quote = quotes (Quote 100),
      ob_confirm_quote = quotes (Quote 100),
      ob_nearest_expiry = Some 20006,
      ob_find_instrument =
        (\<lambda>expiry strike option_type.
           Some \<lparr>inst_symbol = ''NIFTY18500CE'', inst_segment = ''FNO''\<rparr>)\<rparr>"

definition example_obs_monitor :: tick_obs where
  "example_obs_monitor = example_obs\<lparr>ob_time := hhmm 10 5, ob_datetime := 1728016500\<rparr>"

definition example_obs_eod :: tick_obs where
  "example_obs_eod = example_obs\<lparr>ob_time := hhmm 15 20, ob_datetime := 1728035400\<rparr>"

text \<open>The position that the example day enters.\<close>

definition example_position :: Position where
  "example_position =
     \<lparr>symbol = ''NIFTY18500CE'', segment = ''FNO'', direction = ''CALL'', entry_price = 100,
      quantity = 65, invested = 6500, profit_target = 110, stop_loss = 90, pivot = 18500\<rparr>"

text \<open>The world after \<^verbatim>\<open>main\<close>'s reset and one iteration of the loop on the example day.\<close>

definition example_open_world :: world where
  "example_open_world = caught (main example_obs example_start [example_obs])"

text \<open>
  The world one iteration later, at 10:05, when both monitoring reads quote 105 (above
  the stop at 90, below the target at 110).
\<close>

definition example_monitored_world :: world where
  "example_monitored_world = caught (tick example_obs_monitor example_open_world)"

text \<open>
  The same day when the process was started the afternoon before, at 16:00 of day 19999,
  and was not scheduled again until 10:00 of day 20000 (the host was suspended over
  night): \<^verbatim>\<open>main\<close>'s reset saw day 19999, and the first iteration of the loop is the
  one at 10:00 of day 20000, which finds the new date, performs the daily reset and
  enters the position. \<open>example_overnight_world\<close> is the world after that iteration.
\<close>

definition example_obs_eve :: tick_obs where
  "example_obs_eve =
     example_obs\<lparr>ob_today := 19999, ob_time := hhmm 16 0, ob_datetime := 1727951400\<rparr>"

definition example_start_eve :: real where
  "example_start_eve = 1727951405"

definition example_overnight_world :: world where
  "example_overnight_world =
     caught (main example_obs_eve example_start_eve [example_obs])"

text \<open>
  What an iteration at 15:20 of the next day, 20001, sees when none has run since the
  position was entered at 10:00 of day 20000.
\<close>

definition example_obs_next_eod :: tick_obs where
  "example_obs_next_eod = example_obs_eod\<lparr>ob_today := 20001, ob_datetime := 1728121800\<rparr>"

section \<open>Floats\<close>

lemma round_half_even_of_int: "round_half_even (of_int n) = n"
  by (simp add: round_half_even_def)

lemma round_half_even_numeral: "round_half_even (numeral n) = numeral n"
  by (simp add: round_half_even_def)

lemma round_half_even_error: "\<bar>of_int (round_half_even x) - x\<bar> \<le> 1 / 2"
  unfolding round_half_even_def Let_def by (auto simp: abs_if) linarith+

lemma round_half_even_tie:
  assumes "\<bar>of_int (round_half_even x) - x\<bar> = 1 / 2"
  shows "even (round_half_even x)"
proof -
  let ?f = "\<lfloor>x\<rfloor>"
  have f: "of_int ?f \<le> x" "x < of_int ?f + 1" by linarith+
  show ?thesis
  proof (cases "x - of_int ?f < 1 / 2")
    case True
    then have "round_half_even x = ?f" by (simp add: round_half_even_def)
    then have "\<bar>of_int ?f - x\<bar> = 1 / 2" using assms by simp
    then show ?thesis using True f by linarith
  next
    case False
    show ?thesis
    proof (cases "x - of_int ?f > 1 / 2")
      case True
      then have "round_half_even x = ?f + 1" using False by (simp add: round_half_even_def)
      then have "\<bar>of_int ?f + 1 - x\<bar> = 1 / 2" using assms by simp
      then show ?thesis using True f by linarith
    next
      case tie: False
      then show ?thesis using False by (simp add: round_half_even_def Let_def)
    qed
  qed
qed

lemma power_int_less_imp_less:
  fixes m n :: int
  assumes "2 powi m < (2::real) powi n"
  shows "m < n"
proof (rule ccontr)
  assume "\<not> m < n"
  then have "n \<le> m" by simp
  from power_int_increasing [OF this, of "2::real"] assms show False by simp
qed

lemma ilog2_bounds: "0 < x \<Longrightarrow> 2 powi ilog2 x \<le> x \<and> x < 2 powi (ilog2 x + 1)"
proof (induction x rule: ilog2.induct)
  case (1 x)
  show ?case
  proof (cases "2 \<le> x")
    case True
    then have "2 powi ilog2 (x / 2) \<le> x / 2 \<and> x / 2 < 2 powi (ilog2 (x / 2) + 1)"
      using 1(1) by simp
    moreover have "ilog2 x = ilog2 (x / 2) + 1" using True by (subst ilog2.simps) simp
    ultimately show ?thesis by (simp add: power_int_add)
  next
    case False
    show ?thesis
    proof (cases "x < 1")
      case True
      then have "2 powi ilog2 (x * 2) \<le> x * 2 \<and> x * 2 < 2 powi (ilog2 (x * 2) + 1)"
        using 1(2) [OF False] 1(3) by simp
      moreover have "ilog2 x = ilog2 (x * 2) - 1"
        using True False 1(3) by (subst ilog2.simps) simp
      ultimately show ?thesis by (simp add: power_int_add power_int_diff)
    next
      case ge: False
      have "ilog2 x = 0" using False ge by (subst ilog2.simps) simp
      then show ?thesis using False ge by simp
    qed
  qed
qed

lemma ilog2_eqI:
  assumes "2 powi e \<le> x" "x < 2 powi (e + 1)"
  shows "ilog2 x = e"
proof -
  have "0 < (2::real) powi e" by simp
  then have pos: "0 < x" using assms(1) by linarith
  note b = ilog2_bounds [OF pos]
  have "2 powi e < (2::real) powi (ilog2 x + 1)" using assms(1) b by linarith
  then have 1: "e < ilog2 x + 1" by (rule power_int_less_imp_less)
  have "2 powi ilog2 x < (2::real) powi (e + 1)" using assms(2) b by linarith
  then have 2: "ilog2 x < e + 1" by (rule power_int_less_imp_less)
  show ?thesis using 1 2 by simp
qed

text \<open>The float nearest to \<open>x\<close>, once the binary exponent of \<open>x\<close> is known.\<close>

lemma to_double_eq:
  assumes "2 powi e \<le> \<bar>x\<bar>" "\<bar>x\<bar> < 2 powi (e + 1)" "- 1022 \<le> e"
  shows "to_double x = of_int (round_half_even (x / 2 powi (e - 52))) * 2 powi (e - 52)"
  using ilog2_eqI [OF assms(1,2)] assms(3) by (simp add: to_double_def ulp_def max_def)

lemma ulp_positive: "0 < ulp x"
  by (simp add: ulp_def)

text \<open>The float nearest to \<open>x\<close> is at most half a spacing away from \<open>x\<close>.\<close>

lemma to_double_error: "\<bar>to_double x - x\<bar> \<le> ulp x / 2"
proof -
  let ?u = "ulp x"
  have u: "0 < ?u" by (rule ulp_positive)
  have "to_double x - x = (of_int (round_half_even (x / ?u)) - x / ?u) * ?u"
    using u by (simp add: to_double_def algebra_simps)
  then have "\<bar>to_double x - x\<bar> = \<bar>of_int (round_half_even (x / ?u)) - x / ?u\<bar> * ?u"
    using u by (simp add: abs_mult)
  also have "\<dots> \<le> 1 / 2 * ?u"
    using round_half_even_error [of "x / ?u"] u by (intro mult_right_mono) simp_all
  finally show ?thesis by simp
qed

text \<open>Integers of magnitude below \<open>2 ^ 53\<close> are floats.\<close>

lemma to_double_of_int:
  assumes "\<bar>n\<bar> < 2 ^ 53"
  shows "to_double (of_int n) = of_int n"
proof (cases "n = 0")
  case True
  then show ?thesis by (simp add: to_double_def round_half_even_def)
next
  case False
  let ?x = "of_int n :: real"
  let ?e = "ilog2 \<bar>?x\<bar>"
  have pos: "0 < \<bar>?x\<bar>" using False by simp
  have one: "1 \<le> \<bar>?x\<bar>" using False by (simp flip: of_int_abs add: abs_if)
  note b = ilog2_bounds [OF pos]
  have "2 powi 0 < (2::real) powi (?e + 1)" using one b by simp
  then have e0: "0 \<le> ?e" using power_int_less_imp_less by fastforce
  have "\<bar>?x\<bar> < 2 ^ 53" using assms by (simp flip: of_int_abs)
  then have "2 powi ?e < (2::real) powi 53" using b by (simp add: power_int_def)
  then have e53: "?e < 53" by (rule power_int_less_imp_less)
  define k where "k = nat (52 - ?e)"
  have u: "ulp ?x = 1 / 2 ^ k"
    using e0 e53 by (simp add: ulp_def max_def k_def power_int_def field_simps)
  have "?x / ulp ?x = of_int (n * 2 ^ k)" by (simp add: u)
  then have "round_half_even (?x / ulp ?x) = n * 2 ^ k"
    by (simp only: round_half_even_of_int)
  then show ?thesis by (simp add: to_double_def u)
qed

lemma to_double_numeral:
  "numeral k < (2::int) ^ 53 \<Longrightarrow> to_double (numeral k) = numeral k"
  using to_double_of_int [of "numeral k"] by simp

text \<open>
  \<^verbatim>\<open>round(x, 2)\<close> is the float nearest to a whole number of cents, that number being
  nearest to \<open>x\<close> and even when \<open>x\<close> lies midway between two.
\<close>

lemma py_round_cents:
  "\<exists>n. py_round x 2 = to_double (of_int n / 100)
     \<and> \<bar>of_int n / 100 - x\<bar> \<le> 1 / 200
     \<and> (\<bar>of_int n / 100 - x\<bar> = 1 / 200 \<longrightarrow> even n)"
proof -
  let ?n = "round_half_even (x * 100)"
  have d: "\<bar>of_int ?n / 100 - x\<bar> = \<bar>of_int ?n - x * 100\<bar> / 100" by (simp add: abs_if)
  have "py_round x 2 = to_double (of_int ?n / 100)" by (simp add: py_round_def)
  moreover have "\<bar>of_int ?n / 100 - x\<bar> \<le> 1 / 200"
    unfolding d using round_half_even_error [of "x * 100"] by simp
  moreover have "even ?n" if "\<bar>of_int ?n / 100 - x\<bar> = 1 / 200"
    using that unfolding d by (intro round_half_even_tie) simp
  ultimately show ?thesis by blast
qed

text \<open>The literal \<^verbatim>\<open>0.10\<close> is not one tenth.\<close>

lemma to_double_tenth: "to_double (1 / 10) = 3602879701896397 / 36028797018963968"
  by (subst to_double_eq [of "- 4"]) (simp_all add: round_half_even_def power_int_minus)


text \<open>
  The factors of the profit target and of the stop loss, \<^verbatim>\<open>1 + 0.10\<close> and
  \<^verbatim>\<open>1 - 0.10\<close>, are the floats of 1.1 and 0.9.
\<close>

lemma percent_values:
  "PROFIT_TARGET_PERCENT = 3602879701896397 / 36028797018963968"
  "STOP_LOSS_PERCENT = 3602879701896397 / 36028797018963968"
  by (simp_all add: PROFIT_TARGET_PERCENT_def STOP_LOSS_PERCENT_def to_double_tenth)

lemma target_factor: "fadd 1 PROFIT_TARGET_PERCENT = 2476979795053773 / 2251799813685248"
  unfolding fadd_def percent_values
  by (subst to_double_eq [of 0]) (simp_all add: round_half_even_def power_int_minus)

lemma stop_factor: "fsub 1 STOP_LOSS_PERCENT = 8106479329266893 / 9007199254740992"
  unfolding fsub_def percent_values
  by (subst to_double_eq [of "- 1"]) (simp_all add: round_half_even_def power_int_minus)

text \<open>
  An entry at 100 has the target 110 and the stop 90: the product \<^verbatim>\<open>100 * 1.1\<close> is the
  float above 110, and rounds to 110.
\<close>

lemma entry_at_100:
  "py_round (fmul 100 (fadd 1 PROFIT_TARGET_PERCENT)) 2 = 110"
  "py_round (fmul 100 (fsub 1 STOP_LOSS_PERCENT)) 2 = 90"
  "fmul 100 65 = 6500"
proof -
  have t: "fmul 100 (2476979795053773 / 2251799813685248) = 7740561859543041 / 70368744177664"
    unfolding fmul_def
    by (subst to_double_eq [of 6]) (simp_all add: round_half_even_def power_int_minus)
  have s: "fmul 100 (8106479329266893 / 9007199254740992) = 90"
    unfolding fmul_def
    by (subst to_double_eq [of 6]) (simp_all add: round_half_even_def power_int_minus)
  show "py_round (fmul 100 (fadd 1 PROFIT_TARGET_PERCENT)) 2 = 110"
    unfolding target_factor t by (simp add: py_round_def round_half_even_def to_double_numeral)
  show "py_round (fmul 100 (fsub 1 STOP_LOSS_PERCENT)) 2 = 90"
    unfolding stop_factor s by (simp add: py_round_def round_half_even_numeral to_double_numeral)
  show "fmul 100 65 = 6500"
    by (simp add: fmul_def to_double_numeral)
qed

text \<open>
  An entry at 90.75 has the target 99.83 and the stop 81.67, where exact arithmetic
  would give the ties 99.825 and 81.675 and round them to 99.82 and 81.68: the product
  \<^verbatim>\<open>90.75 * 1.1\<close> is a float above 99.825 and \<^verbatim>\<open>90.75 * 0.9\<close> a float below 81.675.
\<close>

lemma entry_at_90_75:
  "py_round (fmul 90.75 (fadd 1 PROFIT_TARGET_PERCENT)) 2 = to_double 99.83"
  "py_round (fmul 90.75 (fsub 1 STOP_LOSS_PERCENT)) 2 = to_double 81.67"
  "to_double 99.83 = 7024911731256197 / 70368744177664"
  "to_double 81.67 = 5747015336989819 / 70368744177664"
proof -
  have t: "fmul (363 / 4) (2476979795053773 / 2251799813685248)
      = 7024559887535309 / 70368744177664"
    unfolding fmul_def
    by (subst to_double_eq [of 6]) (simp_all add: round_half_even_def power_int_minus)
  have s: "fmul (363 / 4) (8106479329266893 / 9007199254740992)
      = 5747367180710707 / 70368744177664"
    unfolding fmul_def
    by (subst to_double_eq [of 6]) (simp_all add: round_half_even_def power_int_minus)
  have q: "(90.75 :: real) = 363 / 4"
    by simp
  show "py_round (fmul 90.75 (fadd 1 PROFIT_TARGET_PERCENT)) 2 = to_double 99.83"
    unfolding target_factor q t by (simp add: py_round_def round_half_even_def)
  show "py_round (fmul 90.75 (fsub 1 STOP_LOSS_PERCENT)) 2 = to_double 81.67"
    unfolding stop_factor q s by (simp add: py_round_def round_half_even_def)
  show "to_double 99.83 = 7024911731256197 / 70368744177664"
    by (subst to_double_eq [of 6]) (simp_all add: round_half_even_def power_int_minus)
  show "to_double 81.67 = 5747015336989819 / 70368744177664"
    by (subst to_double_eq [of 6]) (simp_all add: round_half_even_def power_int_minus)
qed
section \<open>Circuit breaker properties\<close>

lemma failures_snoc: "failures (ts @ [t]) cb = record_failure t (failures ts cb)"
  by (simp add: failures_def)

lemma failures_fields:
  "failure_count (failures ts cb) = failure_count cb + int (length ts)
   \<and> threshold (failures ts cb) = threshold cb
   \<and> timeout (failures ts cb) = timeout cb"
proof (induction ts rule: rev_induct)
  case Nil
  then show ?case by (simp add: failures_def)
next
  case (snoc t ts)
  then show ?case by (simp add: failures_snoc record_failure_def Let_def)
qed

lemma failures_opened_at:
  assumes "ts \<noteq> []" and "threshold cb \<le> failure_count cb + int (length ts)"
  shows "opened_at (failures ts cb) = Some (last ts)"
proof -
  obtain us t where ts: "ts = us @ [t]"
    using assms(1) by (metis rev_exhaust)
  have "failure_count (failures us cb) + 1 \<ge> threshold (failures us cb)"
    using assms(2) by (simp add: failures_fields ts)
  then show ?thesis
    by (simp add: ts failures_snoc record_failure_def Let_def)
qed

lemma breaker_inv_init: "1 \<le> th \<Longrightarrow> breaker_inv (CircuitBreaker_init th tmo)"
  by (simp add: breaker_inv_def breaker_consistent_def CircuitBreaker_init_def)

lemma breaker_inv_record_failure:
  "breaker_inv cb \<Longrightarrow> 0 < now \<Longrightarrow> breaker_inv (record_failure now cb)"
  by (auto simp: breaker_inv_def breaker_consistent_def record_failure_def Let_def)

lemma breaker_inv_record_success: "breaker_inv cb \<Longrightarrow> breaker_inv (record_success cb)"
  by (auto simp: breaker_inv_def breaker_consistent_def record_success_def)

lemma breaker_inv_is_open: "breaker_inv cb \<Longrightarrow> breaker_inv (snd (is_open now cb))"
  by (auto simp: breaker_inv_def breaker_consistent_def is_open_def Let_def
           split: option.splits)

lemma breaker_inv_step:
  "breaker_inv cb \<Longrightarrow> call_time_positive c \<Longrightarrow> breaker_inv (breaker_step c cb)"
  by (cases c)
     (simp_all add: breaker_inv_record_failure breaker_inv_record_success breaker_inv_is_open)

lemma breaker_inv_calls:
  "breaker_inv cb \<Longrightarrow> \<forall>c \<in> set cs. call_time_positive c \<Longrightarrow> breaker_inv (breaker_calls cs cb)"
  unfolding breaker_calls_def
  by (induction cs arbitrary: cb) (simp_all add: breaker_inv_step)

lemma is_open_iff_opened_at:
  "breaker_inv cb \<Longrightarrow> fst (is_open now cb) = (opened_at (snd (is_open now cb)) \<noteq> None)"
  by (auto simp: breaker_inv_def is_open_def Let_def split: option.splits)

lemma is_open_opened:
  "opened_at cb = Some t \<Longrightarrow> t \<noteq> 0 \<Longrightarrow>
   is_open now cb =
     (if now - t > timeout cb then (False, cb\<lparr>failure_count := 0, opened_at := None\<rparr>)
      else (True, cb))"
  by (simp add: is_open_def Let_def)

lemma queries_keep_open:
  "opened_at cb = Some t \<Longrightarrow> t \<noteq> 0 \<Longrightarrow> \<forall>now \<in> set nows. now - t \<le> timeout cb \<Longrightarrow>
   breaker_calls (map Query nows) cb = cb"
  unfolding breaker_calls_def
  by (induction nows) (simp_all add: is_open_opened)

text \<open>
  Claim C7. A breaker built with a threshold of at least one, and clock readings that are
  positive (epoch seconds): after \<open>threshold\<close> consecutive \<^verbatim>\<open>record_failure()\<close> calls
  the breaker is stamped with the time of the last of them and \<^verbatim>\<open>is_open()\<close> returns
  true as long as no more than \<open>timeout\<close> seconds have passed since then, any number of
  such queries leaving the breaker as it is; the first query later than that resets
  \<open>failure_count\<close> to 0, clears \<open>opened_at\<close> and returns false. One
  \<^verbatim>\<open>record_success()\<close> resets \<open>failure_count\<close> to 0 and clears \<open>opened_at\<close> in any
  state. After any sequence of calls, \<open>opened_at\<close> is set exactly when the failure count
  has reached the threshold, and exactly when \<^verbatim>\<open>is_open()\<close> answers true.
\<close>

theorem circuit_breaker_behaviour:
  assumes "1 \<le> th"
    and "int (length ts) = th"
    and "\<forall>t \<in> set ts. 0 < t"
    and "\<forall>now \<in> set nows. now - last ts \<le> tmo"
    and "\<forall>c \<in> set cs. call_time_positive c"
  shows "opened_at (failures ts (CircuitBreaker_init th tmo)) = Some (last ts)
    \<and> failure_count (failures ts (CircuitBreaker_init th tmo)) = th
    \<and> is_open now (failures ts (CircuitBreaker_init th tmo)) =
        (if now - last ts > tmo
         then (False, (failures ts (CircuitBreaker_init th tmo))
                         \<lparr>failure_count := 0, opened_at := None\<rparr>)
         else (True, failures ts (CircuitBreaker_init th tmo)))
    \<and> breaker_calls (map Query nows) (failures ts (CircuitBreaker_init th tmo))
        = failures ts (CircuitBreaker_init th tmo)
    \<and> failure_count (record_success cb) = 0 \<and> opened_at (record_success cb) = None
    \<and> breaker_consistent (breaker_calls cs (CircuitBreaker_init th tmo))
    \<and> fst (is_open now' (breaker_calls cs (CircuitBreaker_init th tmo)))
        = (opened_at (snd (is_open now' (breaker_calls cs (CircuitBreaker_init th tmo)))) \<noteq> None)"
proof -
  let ?c0 = "CircuitBreaker_init th tmo"
  let ?cb = "failures ts ?c0"
  have ne: "ts \<noteq> []"
    using assms(1,2) by auto
  have fields: "failure_count ?cb = th" "timeout ?cb = tmo"
    using assms(2) by (simp_all add: failures_fields CircuitBreaker_init_def)
  have opened: "opened_at ?cb = Some (last ts)"
    using ne assms(2) by (intro failures_opened_at) (simp_all add: CircuitBreaker_init_def)
  have nz: "last ts \<noteq> 0"
    using ne assms(3) last_in_set by fastforce
  have q: "is_open now ?cb =
        (if now - last ts > tmo then (False, ?cb\<lparr>failure_count := 0, opened_at := None\<rparr>)
         else (True, ?cb))"
    using is_open_opened [OF opened nz, of now] by (simp add: fields)
  have keep: "breaker_calls (map Query nows) ?cb = ?cb"
    using assms(4) by (intro queries_keep_open [OF opened nz]) (simp add: fields)
  have succ: "failure_count (record_success cb) = 0 \<and> opened_at (record_success cb) = None"
    by (simp add: record_success_def)
  have inv: "breaker_inv (breaker_calls cs ?c0)"
    using assms(1,5) by (intro breaker_inv_calls breaker_inv_init)
  have cons: "breaker_consistent (breaker_calls cs ?c0)"
    using inv by (simp add: breaker_inv_def)
  show ?thesis
    using opened fields(1) q keep succ cons is_open_iff_opened_at [OF inv, of now']
    by simp
qed

theorem circuit_breaker_behaviour_witness:
  "opened_at (failures [10, 20, 30] (CircuitBreaker_init 3 300)) = Some 30
   \<and> fst (is_open 330 (failures [10, 20, 30] (CircuitBreaker_init 3 300)))
   \<and> \<not> fst (is_open 331 (failures [10, 20, 30] (CircuitBreaker_init 3 300)))
   \<and> failure_count (snd (is_open 331 (failures [10, 20, 30] (CircuitBreaker_init 3 300)))) = 0
   \<and> breaker_calls (map Query [40, 330]) (failures [10, 20, 30] (CircuitBreaker_init 3 300))
       = failures [10, 20, 30] (CircuitBreaker_init 3 300)
   \<and> breaker_consistent
       (breaker_calls [Failure 10, Failure 20, Failure 30, Query 40, Success, Failure 50]
          (CircuitBreaker_init 3 300))"
proof -
  have h1: "(1::int) \<le> 3" by simp
  have h2: "int (length [10, 20, 30 :: real]) = 3" by simp
  have h3: "\<forall>t \<in> set [10, 20, 30 :: real]. 0 < t" by simp
  have h4: "\<forall>now \<in> set [40, 330 :: real]. now - last [10, 20, 30] \<le> 300" by simp
  have h5: "\<forall>c \<in> set [Failure 10, Failure 20, Failure 30, Query 40, Success, Failure 50].
              call_time_positive c" by simp
  note a = circuit_breaker_behaviour [OF h1 h2 h3 h4 h5, of 330]
  note b = circuit_breaker_behaviour [OF h1 h2 h3 h4 h5, of 331]
  show ?thesis
    using a b by simp
qed

section \<open>Strike selection\<close>

lemma calculate_itm_strike_call:
  assumes "calculate_itm_strike spot ''CALL'' = Some k"
  shows "100 dvd k \<and> of_int k \<le> spot \<and> spot < of_int k + 100"
proof -
  have k: "k = \<lfloor>spot / 100\<rfloor> * 100"
    using assms by (simp add: calculate_itm_strike_def)
  have lo: "of_int \<lfloor>spot / 100\<rfloor> \<le> spot / 100"
    by (rule of_int_floor_le)
  have hi: "spot / 100 < of_int \<lfloor>spot / 100\<rfloor> + 1"
    by linarith
  have cast: "real_of_int k = of_int \<lfloor>spot / 100\<rfloor> * 100"
    by (simp add: k)
  have "100 dvd k"
    by (simp add: k)
  moreover have "of_int k \<le> spot"
    unfolding cast using lo by linarith
  moreover have "spot < of_int k + 100"
    unfolding cast using hi by linarith
  ultimately show ?thesis
    by simp
qed

text \<open>
  Claim C4. For direction PUT the code computes \<open>\<lfloor>(spot + 99) / 100\<rfloor> * 100\<close>, the
  integer idiom for rounding up, on a spot price that is a float. At spot 18500.5 it
  returns 18500, which is below the spot price, so it is not the least multiple of 100
  greater than or equal to spot (that is 18600).
\<close>

theorem calculate_itm_strike_put_below_spot:
  "calculate_itm_strike 18500.5 ''PUT'' = Some 18500
   \<and> \<not> (18500.5 \<le> real_of_int 18500)
   \<and> calculate_itm_strike 18500.5 ''CALL'' = Some 18500"
  by (simp add: calculate_itm_strike_def)

section \<open>Pivot\<close>

lemma sorted_le_last:
  fixes xs :: "int list"
  shows "sorted xs \<Longrightarrow> x \<in> set xs \<Longrightarrow> x \<le> last xs"
  by (cases xs rule: rev_cases) (auto simp: sorted_append)

lemma latest_completed_day:
  assumes "filter (\<lambda>c. candle_date c < today) candles \<noteq> []"
  shows "last (sort_key candle_date (filter (\<lambda>c. candle_date c < today) candles)) \<in> set candles
    \<and> candle_date (last (sort_key candle_date (filter (\<lambda>c. candle_date c < today) candles))) < today
    \<and> (\<forall>c \<in> set candles. candle_date c < today \<longrightarrow>
          candle_date c
            \<le> candle_date (last (sort_key candle_date (filter (\<lambda>c. candle_date c < today) candles))))"
proof -
  let ?done = "filter (\<lambda>c. candle_date c < today) candles"
  let ?sorted = "sort_key candle_date ?done"
  have ne: "?sorted \<noteq> []"
    using assms by (metis length_0_conv length_sort)
  then have mem: "last ?sorted \<in> set ?done"
    using last_in_set by fastforce
  have "\<forall>c \<in> set ?done. candle_date c \<le> candle_date (last ?sorted)"
  proof
    fix c assume "c \<in> set ?done"
    then have "candle_date c \<in> set (map candle_date ?sorted)"
      by simp
    moreover have "sorted (map candle_date ?sorted)"
      by simp
    ultimately have "candle_date c \<le> last (map candle_date ?sorted)"
      by (rule sorted_le_last [rotated])
    then show "candle_date c \<le> candle_date (last ?sorted)"
      using ne by (simp add: last_map)
  qed
  then show ?thesis
    using mem by auto
qed

text \<open>
  Claim C8. When some fetched daily candle is dated strictly before today, the pivot is
  \<^verbatim>\<open>round((H + L + C) / 3, 2)\<close> of a fetched candle that is dated before today and
  whose date is the latest of all such candles. The sum and the quotient are float
  operations, and the rounding gives the float nearest to a whole number \<open>n\<close> of cents,
  where \<open>n\<close> cents is within half a cent of the quotient and \<open>n\<close> is even when the
  quotient lies midway between two cents. For H = 100, L = 90, C = 95 that value is 95.
  When no fetched candle is dated before today, the result is \<open>None\<close>.
\<close>

theorem pivot_of_latest_completed_day:
  "(if \<exists>c \<in> set candles. candle_date c < today
    then \<exists>c \<in> set candles. \<exists>n.
           candle_date c < today
           \<and> (\<forall>c' \<in> set candles. candle_date c' < today \<longrightarrow> candle_date c' \<le> candle_date c)
           \<and> fetch_and_calculate_pivot today (Candles candles)
               = Some (py_round (fdiv (fadd (fadd (candle_high c) (candle_low c)) (candle_close c)) 3) 2)
           \<and> py_round (fdiv (fadd (fadd (candle_high c) (candle_low c)) (candle_close c)) 3) 2
               = to_double (of_int n / 100)
           \<and> \<bar>of_int n / 100 - fdiv (fadd (fadd (candle_high c) (candle_low c)) (candle_close c)) 3\<bar>
               \<le> 1 / 200
           \<and> (\<bar>of_int n / 100 - fdiv (fadd (fadd (candle_high c) (candle_low c)) (candle_close c)) 3\<bar>
                 = 1 / 200 \<longrightarrow> even n)
    else fetch_and_calculate_pivot today (Candles candles) = None)
   \<and> py_round (fdiv (fadd (fadd 100 90) 95) 3) 2 = 95"
proof -
  let ?done = "filter (\<lambda>c. candle_date c < today) candles"
  have ex: "py_round (fdiv (fadd (fadd 100 90) 95) 3) 2 = 95"
    by (simp add: py_round_def fdiv_def fadd_def to_double_numeral round_half_even_numeral)
  show ?thesis
  proof (cases "\<exists>c \<in> set candles. candle_date c < today")
    case True
    then have ne: "?done \<noteq> []"
      by (simp add: filter_empty_conv)
    then have c_ne: "candles \<noteq> []"
      by auto
    let ?c = "last (sort_key candle_date ?done)"
    let ?m = "fdiv (fadd (fadd (candle_high ?c) (candle_low ?c)) (candle_close ?c)) 3"
    have val: "fetch_and_calculate_pivot today (Candles candles) = Some (py_round ?m 2)"
      using ne c_ne by (simp add: fetch_and_calculate_pivot_def Let_def)
    obtain n where n: "py_round ?m 2 = to_double (of_int n / 100)"
      "\<bar>of_int n / 100 - ?m\<bar> \<le> 1 / 200"
      "\<bar>of_int n / 100 - ?m\<bar> = 1 / 200 \<longrightarrow> even n"
      using py_round_cents [of ?m] by blast
    note l = latest_completed_day [OF ne]
    have "\<exists>c \<in> set candles. \<exists>n.
           candle_date c < today
           \<and> (\<forall>c' \<in> set candles. candle_date c' < today \<longrightarrow> candle_date c' \<le> candle_date c)
           \<and> fetch_and_calculate_pivot today (Candles candles)
               = Some (py_round (fdiv (fadd (fadd (candle_high c) (candle_low c)) (candle_close c)) 3) 2)
           \<and> py_round (fdiv (fadd (fadd (candle_high c) (candle_low c)) (candle_close c)) 3) 2
               = to_double (of_int n / 100)
           \<and> \<bar>of_int n / 100 - fdiv (fadd (fadd (candle_high c) (candle_low c)) (candle_close c)) 3\<bar>
               \<le> 1 / 200
           \<and> (\<bar>of_int n / 100 - fdiv (fadd (fadd (candle_high c) (candle_low c)) (candle_close c)) 3\<bar>
                 = 1 / 200 \<longrightarrow> even n)"
      using l val n by (intro bexI [of _ ?c] exI [of _ n]) blast+
    then show ?thesis
      using True ex by simp
  next
    case False
    then have "?done = []"
      by (simp add: filter_empty_conv)
    then have "fetch_and_calculate_pivot today (Candles candles) = None"
      by (simp add: fetch_and_calculate_pivot_def Let_def)
    then show ?thesis
      using False ex by simp
  qed
qed

text \<open>
  Three days of candles, the middle one H = 100, L = 90, C = 95; the candle of today
  alone; and a previous day with H = 18510, L = 18490 and the close that the literal
  \<^verbatim>\<open>18500.015\<close> denotes, where the quotient is the float just above 18500.005 and
  the pivot is the float of 18500.01; and a previous day with H = L = C = 18500.125,
  where the quotient is 18500.125 itself, midway between two cents, and the pivot is
  the float of 18500.12.
\<close>

theorem pivot_of_latest_completed_day_witness:
  "fetch_and_calculate_pivot 20000
     (Candles
       [\<lparr>candle_timestamp = 1727827200, candle_open = 80, candle_high = 120,
          candle_low = 70, candle_close = 110, candle_volume = 0\<rparr>,
        \<lparr>candle_timestamp = 1727913600, candle_open = 92, candle_high = 100,
          candle_low = 90, candle_close = 95, candle_volume = 0\<rparr>,
        \<lparr>candle_timestamp = 1728000000, candle_open = 96, candle_high = 130,
          candle_low = 95, candle_close = 125, candle_volume = 0\<rparr>]) = Some 95
   \<and> fetch_and_calculate_pivot 20000
     (Candles
       [\<lparr>candle_timestamp = 1728000000, candle_open = 96, candle_high = 130,
          candle_low = 95, candle_close = 125, candle_volume = 0\<rparr>]) = None
   \<and> fetch_and_calculate_pivot 20000
     (Candles
       [\<lparr>candle_timestamp = 1727913600, candle_open = 18495, candle_high = 18510,
          candle_low = 18490, candle_close = to_double 18500.015, candle_volume = 0\<rparr>])
       = Some (to_double 18500.01)
   \<and> fdiv (fadd (fadd 18510 18490) (to_double 18500.015)) 3
       = 5085242652853535 / 274877906944
   \<and> to_double 18500.01 = 5085244027243069 / 274877906944
   \<and> fetch_and_calculate_pivot 20000
     (Candles
       [\<lparr>candle_timestamp = 1727913600, candle_open = 18500, candle_high = 18500.125,
          candle_low = 18500.125, candle_close = 18500.125, candle_volume = 0\<rparr>])
       = Some (to_double 18500.12)
   \<and> to_double 18500.12 = 5085274263812833 / 274877906944"
proof -
  define k :: real where "k = to_double 18500.015"
  define h :: real where "h = 18500.125"
  let ?c0 = "\<lparr>candle_timestamp = 1727827200, candle_open = 80, candle_high = 120,
          candle_low = 70, candle_close = 110, candle_volume = 0\<rparr>"
  let ?c1 = "\<lparr>candle_timestamp = 1727913600, candle_open = 92, candle_high = 100,
          candle_low = 90, candle_close = 95, candle_volume = 0\<rparr>"
  let ?c2 = "\<lparr>candle_timestamp = 1728000000, candle_open = 96, candle_high = 130,
          candle_low = 95, candle_close = 125, candle_volume = 0\<rparr>"
  let ?c3 = "\<lparr>candle_timestamp = 1727913600, candle_open = 18495, candle_high = 18510,
          candle_low = 18490, candle_close = k, candle_volume = 0\<rparr>"
  let ?c4 = "\<lparr>candle_timestamp = 1727913600, candle_open = 18500, candle_high = h,
          candle_low = h, candle_close = h, candle_volume = 0\<rparr>"
  have d: "candle_date ?c0 = 19998" "candle_date ?c1 = 19999" "candle_date ?c2 = 20000"
    "candle_date ?c3 = 19999" "candle_date ?c4 = 19999"
    by (simp_all add: candle_date_def)
  have h: "h = 148001 / 8"
    by (simp add: h_def)
  have t1: "fadd (148001 / 8) (148001 / 8) = 148001 / 4"
    unfolding fadd_def
    by (subst to_double_eq [of 15]) (simp_all add: round_half_even_def power_int_minus)
  have t2: "fadd (148001 / 4) (148001 / 8) = 444003 / 8"
    unfolding fadd_def
    by (subst to_double_eq [of 15]) (simp_all add: round_half_even_def power_int_minus)
  have t3: "fdiv (444003 / 8) 3 = 148001 / 8"
    unfolding fdiv_def
    by (subst to_double_eq [of 14]) (simp_all add: round_half_even_def power_int_minus)
  have tm: "fdiv (fadd (fadd h h) h) 3 = 148001 / 8"
    by (simp only: h t1 t2 t3)
  have tr: "py_round (148001 / 8) 2 = to_double 18500.12"
    by (simp add: py_round_def round_half_even_def)
  have tv: "to_double 18500.12 = 5085274263812833 / 274877906944"
    by (subst to_double_eq [of 14]) (simp_all add: round_half_even_def power_int_minus)
  have k: "k = 1271311350408151 / 68719476736"
    unfolding k_def
    by (subst to_double_eq [of 14]) (simp_all add: round_half_even_def power_int_minus)
  have s1: "fadd 18510 18490 = 37000"
    by (simp add: fadd_def to_double_numeral)
  have s2: "fadd 37000 (1271311350408151 / 68719476736) = 3813931989640151 / 68719476736"
    unfolding fadd_def
    by (subst to_double_eq [of 15]) (simp_all add: round_half_even_def power_int_minus)
  have s3: "fdiv (3813931989640151 / 68719476736) 3 = 5085242652853535 / 274877906944"
    unfolding fdiv_def
    by (subst to_double_eq [of 14]) (simp_all add: round_half_even_def power_int_minus)
  have m: "fdiv (fadd (fadd 18510 18490) k) 3 = 5085242652853535 / 274877906944"
    by (simp only: k s1 s2 s3)
  have r: "py_round (5085242652853535 / 274877906944) 2 = to_double 18500.01"
    by (simp add: py_round_def round_half_even_def)
  have v: "to_double 18500.01 = 5085244027243069 / 274877906944"
    by (subst to_double_eq [of 14]) (simp_all add: round_half_even_def power_int_minus)
  note a = pivot_of_latest_completed_day [of "[?c0, ?c1, ?c2]" 20000]
  note b = pivot_of_latest_completed_day [of "[?c2]" 20000]
  note c = pivot_of_latest_completed_day [of "[?c3]" 20000]
  note e = pivot_of_latest_completed_day [of "[?c4]" 20000]
  have "fetch_and_calculate_pivot 20000 (Candles [?c0, ?c1, ?c2]) = Some 95"
    using a by (auto simp: d)
  moreover have "fetch_and_calculate_pivot 20000 (Candles [?c2]) = None"
    using b by (simp add: d)
  moreover have "fetch_and_calculate_pivot 20000 (Candles [?c3]) = Some (to_double 18500.01)"
    using c by (auto simp: d m r)
  moreover have "fetch_and_calculate_pivot 20000 (Candles [?c4]) = Some (to_double 18500.12)"
    using e by (auto simp: d tm tr)
  ultimately show ?thesis
    using m v tv unfolding k_def h_def by simp
qed

section \<open>Bias\<close>

text \<open>
  Claim C9. With the pivot computed and the clock at or past the end of the opening
  window: while the bias is unset, an opening candle that closes above the pivot sets
  BULLISH, below it BEARISH, exactly at it NEUTRAL; when the broker has no opening
  candle yet (an error or an empty list) the call changes nothing, so the bias stays
  unset. Once the bias is set to any value, a call changes nothing, whatever the clock
  and the broker say; in particular a second call after the bias was decided returns
  the state of the first.
\<close>

theorem determine_daily_bias_rule:
  assumes "daily_pivot_point w = Some pivot_point"
    and "BIAS_CANDLE_END \<le> now"
  shows "(daily_bias w = None \<longrightarrow>
            daily_bias (determine_daily_bias now today (Candles (c # rest)) w)
              = (if candle_close c > pivot_point then Some ''BULLISH''
                 else if candle_close c < pivot_point then Some ''BEARISH''
                 else Some ''NEUTRAL'')
            \<and> determine_daily_bias now' today' response'
                 (determine_daily_bias now today (Candles (c # rest)) w)
               = determine_daily_bias now today (Candles (c # rest)) w)
    \<and> (daily_bias w = None \<longrightarrow>
            determine_daily_bias now today (Candles []) w = w
            \<and> determine_daily_bias now today CandlesRaise w = w)
    \<and> (daily_bias w \<noteq> None \<longrightarrow> determine_daily_bias now' today' response' w = w)"
  using assms
  by (auto simp: determine_daily_bias_def get_first_5min_candle_def Let_def)

theorem determine_daily_bias_rule_witness:
  "daily_bias (determine_daily_bias (hhmm 9 21) 20000
      (Candles [\<lparr>candle_timestamp = 1728013500, candle_open = 94, candle_high = 97,
                  candle_low = 93, candle_close = 96, candle_volume = 0\<rparr>])
      (initial_world\<lparr>daily_pivot_point := Some 95\<rparr>)) = Some ''BULLISH''
   \<and> daily_bias (determine_daily_bias (hhmm 9 21) 20000
      (Candles [\<lparr>candle_timestamp = 1728013500, candle_open = 94, candle_high = 97,
                  candle_low = 93, candle_close = 94, candle_volume = 0\<rparr>])
      (initial_world\<lparr>daily_pivot_point := Some 95\<rparr>)) = Some ''BEARISH''
   \<and> daily_bias (determine_daily_bias (hhmm 9 21) 20000
      (Candles [\<lparr>candle_timestamp = 1728013500, candle_open = 94, candle_high = 97,
                  candle_low = 93, candle_close = 95, candle_volume = 0\<rparr>])
      (initial_world\<lparr>daily_pivot_point := Some 95\<rparr>)) = Some ''NEUTRAL''
   \<and> daily_bias (determine_daily_bias (hhmm 9 21) 20000 (Candles [])
      (initial_world\<lparr>daily_pivot_point := Some 95\<rparr>)) = None
   \<and> determine_daily_bias (hhmm 9 30) 20000
      (Candles [\<lparr>candle_timestamp = 1728013500, candle_open = 94, candle_high = 97,
                  candle_low = 93, candle_close = 96, candle_volume = 0\<rparr>])
      (initial_world\<lparr>daily_pivot_point := Some 95, daily_bias := Some ''NEUTRAL''\<rparr>)
     = initial_world\<lparr>daily_pivot_point := Some 95, daily_bias := Some ''NEUTRAL''\<rparr>"
proof -
  let ?w = "initial_world\<lparr>daily_pivot_point := Some 95\<rparr>"
  let ?n = "initial_world\<lparr>daily_pivot_point := Some 95, daily_bias := Some ''NEUTRAL''\<rparr>"
  let ?c = "\<lambda>x. \<lparr>candle_timestamp = 1728013500, candle_open = 94, candle_high = 97,
                  candle_low = 93, candle_close = x, candle_volume = 0\<rparr>"
  have p: "daily_pivot_point ?w = Some 95" "daily_pivot_point ?n = Some 95"
    by simp_all
  have t: "BIAS_CANDLE_END \<le> hhmm 9 21" "BIAS_CANDLE_END \<le> hhmm 9 30"
    by (simp_all add: BIAS_CANDLE_END_def hhmm_def)
  have u: "daily_bias ?w = None" "daily_bias ?n \<noteq> None"
    by (simp_all add: initial_world_def)
  note a = determine_daily_bias_rule [OF p(1) t(1), of 20000 "?c 96" "[]"]
  note b = determine_daily_bias_rule [OF p(1) t(1), of 20000 "?c 94" "[]"]
  note c = determine_daily_bias_rule [OF p(1) t(1), of 20000 "?c 95" "[]"]
  note d = determine_daily_bias_rule [OF p(2) t(2), of 20000 "?c 96" "[]" "hhmm 9 30" 20000
             "Candles [?c 96]"]
  have 1: "daily_bias (determine_daily_bias (hhmm 9 21) 20000 (Candles [?c 96]) ?w)
             = Some ''BULLISH''"
    using a u(1) by simp
  have 2: "daily_bias (determine_daily_bias (hhmm 9 21) 20000 (Candles [?c 94]) ?w)
             = Some ''BEARISH''"
    using b u(1) by simp
  have 3: "daily_bias (determine_daily_bias (hhmm 9 21) 20000 (Candles [?c 95]) ?w)
             = Some ''NEUTRAL''"
    using c u(1) by simp
  have 4: "daily_bias (determine_daily_bias (hhmm 9 21) 20000 (Candles []) ?w) = None"
    using a u(1) by simp
  have 5: "determine_daily_bias (hhmm 9 30) 20000 (Candles [?c 96]) ?n = ?n"
    using d u(2) by simp
  show ?thesis
    using 1 2 3 4 5 by simp
qed

section \<open>Price fetching\<close>

lemma is_open_true_unchanged: "fst (is_open now cb) \<Longrightarrow> snd (is_open now cb) = cb"
  by (auto simp: is_open_def Let_def split: option.splits if_splits)

lemma set_get_breaker: "set_breaker b (get_breaker b w) w = w"
  by (cases b) simp_all

lemma get_set_breaker: "get_breaker b (set_breaker b cb w) = cb"
  by (cases b) simp_all

lemma trace_set_breaker: "trace (set_breaker b cb w) = trace w"
  by (cases b) simp_all

lemma session_of_set_breaker: "session_of (set_breaker b cb w) = session_of w"
  by (cases b) (simp_all add: session_of_def)

lemma session_of_emit: "\<not> is_order e \<Longrightarrow> session_of (emit e w) = session_of w"
  by (simp add: session_of_def emit_def)

lemma session_of_breaker_success: "session_of (breaker_success b w) = session_of w"
  by (simp add: breaker_success_def session_of_emit session_of_set_breaker)

lemma session_of_breaker_failure: "session_of (breaker_failure b now w) = session_of w"
  by (simp add: breaker_failure_def session_of_emit session_of_set_breaker)

lemma fetch_attempts_session:
  "session_of (snd (fetch_attempts b tsym lo hi ob attempt w)) = session_of w"
proof (induction b tsym lo hi ob attempt w rule: fetch_attempts.induct)
  case (1 b tsym lo hi ob attempt w)
  show ?case
  proof (cases "attempt > MAX_RETRIES")
    case True
    then show ?thesis
      by (simp add: fetch_attempts.simps)
  next
    case False
    note IH = "1.IH" [OF False refl]
    show ?thesis
    proof (cases "answers ob attempt")
      case ApiRaises
      then show ?thesis
        using False IH(1) [OF ApiRaises]
        by (subst fetch_attempts.simps)
           (simp add: Let_def session_of_emit session_of_breaker_failure)
    next
      case NoQuote
      then show ?thesis
        using False IH(2) [OF NoQuote]
        by (subst fetch_attempts.simps)
           (simp add: Let_def session_of_emit session_of_breaker_failure)
    next
      case (Quote price)
      then show ?thesis
        using False IH(3) [OF Quote]
        by (subst fetch_attempts.simps)
           (simp add: Let_def session_of_emit session_of_breaker_failure
              session_of_breaker_success)
    qed
  qed
qed

lemma fetch_attempts_in_range:
  "fst (fetch_attempts b tsym lo hi ob attempt w) = Some p \<Longrightarrow> lo \<le> p \<and> p \<le> hi"
proof (induction b tsym lo hi ob attempt w rule: fetch_attempts.induct)
  case (1 b tsym lo hi ob attempt w)
  have le: "\<not> attempt > MAX_RETRIES"
    using "1.prems" by (subst (asm) fetch_attempts.simps) (simp split: if_splits)
  note IH = "1.IH" [OF le refl]
  show ?case
  proof (cases "answers ob attempt")
    case ApiRaises
    then show ?thesis
      using le IH(1) [OF ApiRaises] "1.prems"
      by (subst (asm) fetch_attempts.simps) (simp add: Let_def split: if_splits)
  next
    case NoQuote
    then show ?thesis
      using le IH(2) [OF NoQuote] "1.prems"
      by (subst (asm) fetch_attempts.simps) (simp add: Let_def split: if_splits)
  next
    case (Quote price)
    then show ?thesis
      using le IH(3) [OF Quote] "1.prems"
      by (subst (asm) fetch_attempts.simps) (simp add: Let_def split: if_splits)
  qed
qed

lemma fetch_attempts_fail_step:
  "attempt < MAX_RETRIES \<Longrightarrow> valid_quote lo hi (answers ob attempt) = None \<Longrightarrow>
   fetch_attempts b tsym lo hi ob attempt w
     = fetch_attempts b tsym lo hi ob (attempt + 1)
         (emit (Sleep RETRY_DELAY_SEC) (emit (GetLtp tsym) w))"
  by (subst fetch_attempts.simps)
     (auto simp: valid_quote_def Let_def split: ltp_response.splits if_splits)

lemma fetch_attempts_fail_last:
  "attempt = MAX_RETRIES \<Longrightarrow> valid_quote lo hi (answers ob attempt) = None \<Longrightarrow>
   fetch_attempts b tsym lo hi ob attempt w
     = (None, breaker_failure b (t_failure ob) (emit (GetLtp tsym) w))"
  by (subst fetch_attempts.simps)
     (auto simp: valid_quote_def Let_def split: ltp_response.splits if_splits)

lemma fetch_attempts_success_step:
  "attempt \<le> MAX_RETRIES \<Longrightarrow> valid_quote lo hi (answers ob attempt) = Some v \<Longrightarrow>
   fetch_attempts b tsym lo hi ob attempt w
     = (Some v, breaker_success b (emit (GetLtp tsym) w))"
  by (subst fetch_attempts.simps)
     (auto simp: valid_quote_def Let_def split: ltp_response.splits if_splits)

lemma retried_Suc:
  "retried tsym (Suc k) = GetLtp tsym # Sleep RETRY_DELAY_SEC # retried tsym k"
  by (simp add: retried_def)

lemma emit_twice_trace:
  "(emit e2 (emit e1 w))\<lparr>trace := trace (emit e2 (emit e1 w)) @ es\<rparr>
     = w\<lparr>trace := trace w @ e1 # e2 # es\<rparr>"
  by (simp add: emit_def)

lemma fetch_attempts_fail_then_success:
  assumes "attempt + k \<le> MAX_RETRIES"
    and "\<forall>i. attempt \<le> i \<and> i < attempt + k \<longrightarrow> valid_quote lo hi (answers ob i) = None"
    and "valid_quote lo hi (answers ob (attempt + k)) = Some v"
  shows "fetch_attempts b tsym lo hi ob attempt w
     = (Some v, breaker_success b (w\<lparr>trace := trace w @ retried tsym k @ [GetLtp tsym]\<rparr>))"
  using assms
proof (induction k arbitrary: attempt w)
  case 0
  then show ?case
    using fetch_attempts_success_step [of attempt lo hi ob v b tsym w]
    by (simp add: emit_def retried_def)
next
  case (Suc k)
  have lt: "attempt < MAX_RETRIES"
    using Suc.prems(1) by simp
  have bad: "valid_quote lo hi (answers ob attempt) = None"
    using Suc.prems(2) by simp
  have rest: "\<forall>i. attempt + 1 \<le> i \<and> i < attempt + 1 + k \<longrightarrow>
                 valid_quote lo hi (answers ob i) = None"
    using Suc.prems(2) by simp
  have "fetch_attempts b tsym lo hi ob (attempt + 1)
          (emit (Sleep RETRY_DELAY_SEC) (emit (GetLtp tsym) w))
        = (Some v, breaker_success b
             ((emit (Sleep RETRY_DELAY_SEC) (emit (GetLtp tsym) w))
                \<lparr>trace := trace (emit (Sleep RETRY_DELAY_SEC) (emit (GetLtp tsym) w))
                           @ retried tsym k @ [GetLtp tsym]\<rparr>))"
    using Suc.prems(1,3) rest by (intro Suc.IH) simp_all
  then show ?case
    by (simp add: fetch_attempts_fail_step [OF lt bad] emit_twice_trace retried_Suc)
qed

lemma fetch_attempts_exhausted:
  assumes "attempt + k = MAX_RETRIES"
    and "\<forall>i. attempt \<le> i \<and> i \<le> MAX_RETRIES \<longrightarrow> valid_quote lo hi (answers ob i) = None"
  shows "fetch_attempts b tsym lo hi ob attempt w
     = (None, breaker_failure b (t_failure ob)
                (w\<lparr>trace := trace w @ retried tsym k @ [GetLtp tsym]\<rparr>))"
  using assms
proof (induction k arbitrary: attempt w)
  case 0
  then show ?case
    using fetch_attempts_fail_last [of attempt lo hi ob b tsym w]
    by (simp add: emit_def retried_def)
next
  case (Suc k)
  have lt: "attempt < MAX_RETRIES"
    using Suc.prems(1) by simp
  have bad: "valid_quote lo hi (answers ob attempt) = None"
    using Suc.prems(2) lt by simp
  have rest: "\<forall>i. attempt + 1 \<le> i \<and> i \<le> MAX_RETRIES \<longrightarrow>
                 valid_quote lo hi (answers ob i) = None"
    using Suc.prems(2) by simp
  have "fetch_attempts b tsym lo hi ob (attempt + 1)
          (emit (Sleep RETRY_DELAY_SEC) (emit (GetLtp tsym) w))
        = (None, breaker_failure b (t_failure ob)
             ((emit (Sleep RETRY_DELAY_SEC) (emit (GetLtp tsym) w))
                \<lparr>trace := trace (emit (Sleep RETRY_DELAY_SEC) (emit (GetLtp tsym) w))
                           @ retried tsym k @ [GetLtp tsym]\<rparr>))"
    using Suc.prems(1) rest by (intro Suc.IH) simp_all
  then show ?case
    by (simp add: fetch_attempts_fail_step [OF lt bad] emit_twice_trace retried_Suc)
qed

lemma fetch_attempts_by_valid_quote:
  assumes same: "\<forall>i. valid_quote lo hi (answers ob' i) = valid_quote lo hi (answers ob i)"
    and tf: "t_failure ob' = t_failure ob"
  shows "fetch_attempts b tsym lo hi ob' attempt w = fetch_attempts b tsym lo hi ob attempt w"
proof (cases "attempt > MAX_RETRIES")
  case True
  then show ?thesis
    by (simp add: fetch_attempts.simps)
next
  case False
  let ?good = "\<lambda>i. attempt \<le> i \<and> i \<le> MAX_RETRIES \<and> valid_quote lo hi (answers ob i) \<noteq> None"
  show ?thesis
  proof (cases "\<exists>i. ?good i")
    case True
    define j where "j = (LEAST i. ?good i)"
    have j: "?good j"
      unfolding j_def using True by (rule LeastI_ex)
    have before: "\<forall>i. attempt \<le> i \<and> i < attempt + (j - attempt) \<longrightarrow>
                    valid_quote lo hi (answers ob i) = None"
    proof (intro allI impI)
      fix i assume i: "attempt \<le> i \<and> i < attempt + (j - attempt)"
      then have "i < j" using j by simp
      then have "\<not> ?good i"
        unfolding j_def by (rule not_less_Least)
      then show "valid_quote lo hi (answers ob i) = None"
        using i j by auto
    qed
    obtain v where v: "valid_quote lo hi (answers ob (attempt + (j - attempt))) = Some v"
      using j by auto
    have le: "attempt + (j - attempt) \<le> MAX_RETRIES"
      using j by simp
    have "fetch_attempts b tsym lo hi ob attempt w
        = (Some v, breaker_success b
             (w\<lparr>trace := trace w @ retried tsym (j - attempt) @ [GetLtp tsym]\<rparr>))"
      using le before v by (rule fetch_attempts_fail_then_success)
    moreover have "fetch_attempts b tsym lo hi ob' attempt w
        = (Some v, breaker_success b
             (w\<lparr>trace := trace w @ retried tsym (j - attempt) @ [GetLtp tsym]\<rparr>))"
      using le before v by (intro fetch_attempts_fail_then_success) (simp_all add: same)
    ultimately show ?thesis
      by simp
  next
    case none: False
    have k: "attempt + (MAX_RETRIES - attempt) = MAX_RETRIES"
      using False by simp
    have bad: "\<forall>i. attempt \<le> i \<and> i \<le> MAX_RETRIES \<longrightarrow>
                 valid_quote lo hi (answers ob i) = None"
      using none by auto
    have "fetch_attempts b tsym lo hi ob attempt w
        = (None, breaker_failure b (t_failure ob)
             (w\<lparr>trace := trace w @ retried tsym (MAX_RETRIES - attempt) @ [GetLtp tsym]\<rparr>))"
      using k bad by (rule fetch_attempts_exhausted)
    moreover have "fetch_attempts b tsym lo hi ob' attempt w
        = (None, breaker_failure b (t_failure ob')
             (w\<lparr>trace := trace w @ retried tsym (MAX_RETRIES - attempt) @ [GetLtp tsym]\<rparr>))"
      using k bad by (intro fetch_attempts_exhausted) (simp_all add: same)
    ultimately show ?thesis
      by (simp add: tf)
  qed
qed

text \<open>
  Claim C6. \<open>fetch_spot_price\<close> and \<open>fetch_option_price\<close> are \<open>fetch_price\<close> at their
  breaker, symbol and range. For \<open>fetch_price\<close>: when the breaker is open the result
  is \<open>None\<close> and the world is unchanged, so no \<^verbatim>\<open>get_ltp\<close> call was made. When the
  breaker is closed, the first \<open>k < MAX_RETRIES\<close> attempts yield no valid quote and
  attempt \<open>k + 1\<close> yields the in-range value \<open>v\<close>, the result is \<open>v\<close>, the effects are
  \<open>k\<close> calls each followed by a sleep, one more call and one \<^verbatim>\<open>record_success\<close>, and
  nothing after that. When all \<open>MAX_RETRIES\<close> attempts yield no valid quote the result
  is \<open>None\<close> and the effects are \<open>MAX_RETRIES\<close> calls with a sleep between them and one
  \<^verbatim>\<open>record_failure\<close>. The result and the world depend on the answers only through
  their valid quotes: an out-of-range quote acts as a raised exception does.
\<close>

theorem resilient_fetch_behaviour:
  "fetch_spot_price ob w
     = fetch_price SpotBreaker ''NSE_NIFTY'' MIN_SPOT_PRICE MAX_SPOT_PRICE ob w
   \<and> fetch_option_price ob osym oseg w
     = fetch_price OptionBreaker (''NSE_'' @ osym) MIN_OPTION_PRICE MAX_OPTION_PRICE ob w
   \<and> (fst (is_open (t_is_open ob) (get_breaker b w)) \<longrightarrow>
        fetch_price b tsym lo hi ob w = (None, w))
   \<and> (\<not> fst (is_open (t_is_open ob) (get_breaker b w)) \<longrightarrow> k < MAX_RETRIES \<longrightarrow>
        (\<forall>i. 1 \<le> i \<and> i \<le> k \<longrightarrow> valid_quote lo hi (answers ob i) = None) \<longrightarrow>
        valid_quote lo hi (answers ob (k + 1)) = Some v \<longrightarrow>
          fst (fetch_price b tsym lo hi ob w) = Some v
          \<and> trace (snd (fetch_price b tsym lo hi ob w))
              = trace w @ retried tsym k @ [GetLtp tsym, BreakerSuccess b]
          \<and> get_breaker b (snd (fetch_price b tsym lo hi ob w))
              = record_success (snd (is_open (t_is_open ob) (get_breaker b w))))
   \<and> (\<not> fst (is_open (t_is_open ob) (get_breaker b w)) \<longrightarrow>
        (\<forall>i. 1 \<le> i \<and> i \<le> MAX_RETRIES \<longrightarrow> valid_quote lo hi (answers ob i) = None) \<longrightarrow>
          fst (fetch_price b tsym lo hi ob w) = None
          \<and> trace (snd (fetch_price b tsym lo hi ob w))
              = trace w @ retried tsym (MAX_RETRIES - 1) @ [GetLtp tsym, BreakerFailure b]
          \<and> get_breaker b (snd (fetch_price b tsym lo hi ob w))
              = record_failure (t_failure ob) (snd (is_open (t_is_open ob) (get_breaker b w))))
   \<and> ((\<forall>i. valid_quote lo hi (answers ob' i) = valid_quote lo hi (answers ob i)) \<longrightarrow>
        t_is_open ob' = t_is_open ob \<longrightarrow> t_failure ob' = t_failure ob \<longrightarrow>
          fetch_price b tsym lo hi ob' w = fetch_price b tsym lo hi ob w)"
proof -
  obtain opened cb where io: "is_open (t_is_open ob) (get_breaker b w) = (opened, cb)"
    by (cases "is_open (t_is_open ob) (get_breaker b w)")
  let ?w0 = "set_breaker b cb w"
  have closed: "\<not> opened \<Longrightarrow> fetch_price b tsym lo hi ob w = fetch_attempts b tsym lo hi ob 1 ?w0"
    by (simp add: fetch_price_def io)
  have 1: "opened \<Longrightarrow> fetch_price b tsym lo hi ob w = (None, w)"
  proof -
    assume "opened"
    then have "cb = get_breaker b w"
      using is_open_true_unchanged [of "t_is_open ob" "get_breaker b w"] io by simp
    then show ?thesis
      using \<open>opened\<close> by (simp add: fetch_price_def io set_get_breaker)
  qed
  have 2: "fst (fetch_price b tsym lo hi ob w) = Some v
          \<and> trace (snd (fetch_price b tsym lo hi ob w))
              = trace w @ retried tsym k @ [GetLtp tsym, BreakerSuccess b]
          \<and> get_breaker b (snd (fetch_price b tsym lo hi ob w)) = record_success cb"
    if "\<not> opened" "k < MAX_RETRIES"
      "\<forall>i. 1 \<le> i \<and> i \<le> k \<longrightarrow> valid_quote lo hi (answers ob i) = None"
      "valid_quote lo hi (answers ob (k + 1)) = Some v"
  proof -
    have "fetch_attempts b tsym lo hi ob 1 ?w0
        = (Some v, breaker_success b (?w0\<lparr>trace := trace ?w0 @ retried tsym k @ [GetLtp tsym]\<rparr>))"
      using that by (intro fetch_attempts_fail_then_success) simp_all
    then show ?thesis
      using closed [OF that(1)]
      by (cases b) (simp_all add: breaker_success_def emit_def)
  qed
  have 3: "fst (fetch_price b tsym lo hi ob w) = None
          \<and> trace (snd (fetch_price b tsym lo hi ob w))
              = trace w @ retried tsym (MAX_RETRIES - 1) @ [GetLtp tsym, BreakerFailure b]
          \<and> get_breaker b (snd (fetch_price b tsym lo hi ob w))
              = record_failure (t_failure ob) cb"
    if "\<not> opened"
      "\<forall>i. 1 \<le> i \<and> i \<le> MAX_RETRIES \<longrightarrow> valid_quote lo hi (answers ob i) = None"
  proof -
    have "fetch_attempts b tsym lo hi ob 1 ?w0
        = (None, breaker_failure b (t_failure ob)
             (?w0\<lparr>trace := trace ?w0 @ retried tsym (MAX_RETRIES - 1) @ [GetLtp tsym]\<rparr>))"
      using that by (intro fetch_attempts_exhausted) (simp_all add: MAX_RETRIES_def)
    then show ?thesis
      using closed [OF that(1)]
      by (cases b) (simp_all add: breaker_failure_def emit_def)
  qed
  have 4: "fetch_price b tsym lo hi ob' w = fetch_price b tsym lo hi ob w"
    if "\<forall>i. valid_quote lo hi (answers ob' i) = valid_quote lo hi (answers ob i)"
      "t_is_open ob' = t_is_open ob" "t_failure ob' = t_failure ob"
    using fetch_attempts_by_valid_quote [OF that(1,3)] that(2)
    by (simp add: fetch_price_def Let_def split: prod.splits)
  show ?thesis
    using 1 2 3 4 io
    by (simp add: fetch_spot_price_def fetch_option_price_def)
qed

theorem resilient_fetch_behaviour_witness:
  "fst (fetch_price OptionBreaker ''NSE_X'' MIN_OPTION_PRICE MAX_OPTION_PRICE
          \<lparr>t_is_open = 1000,
           answers = (\<lambda>i. if i = 1 then ApiRaises else if i = 2 then Quote 0.5 else Quote 105),
           t_failure = 1010\<rparr> initial_world) = Some 105
   \<and> trace (snd (fetch_price OptionBreaker ''NSE_X'' MIN_OPTION_PRICE MAX_OPTION_PRICE
          \<lparr>t_is_open = 1000,
           answers = (\<lambda>i. if i = 1 then ApiRaises else if i = 2 then Quote 0.5 else Quote 105),
           t_failure = 1010\<rparr> initial_world))
       = [GetLtp ''NSE_X'', Sleep 2, GetLtp ''NSE_X'', Sleep 2, GetLtp ''NSE_X'',
          BreakerSuccess OptionBreaker]
   \<and> fst (fetch_price OptionBreaker ''NSE_X'' MIN_OPTION_PRICE MAX_OPTION_PRICE
          \<lparr>t_is_open = 1000, answers = (\<lambda>i. Quote 0), t_failure = 1010\<rparr> initial_world) = None
   \<and> trace (snd (fetch_price OptionBreaker ''NSE_X'' MIN_OPTION_PRICE MAX_OPTION_PRICE
          \<lparr>t_is_open = 1000, answers = (\<lambda>i. Quote 0), t_failure = 1010\<rparr> initial_world))
       = [GetLtp ''NSE_X'', Sleep 2, GetLtp ''NSE_X'', Sleep 2, GetLtp ''NSE_X'',
          BreakerFailure OptionBreaker]
   \<and> fetch_price OptionBreaker ''NSE_X'' MIN_OPTION_PRICE MAX_OPTION_PRICE
          \<lparr>t_is_open = 1000, answers = (\<lambda>i. Quote 0), t_failure = 1010\<rparr> initial_world
       = fetch_price OptionBreaker ''NSE_X'' MIN_OPTION_PRICE MAX_OPTION_PRICE
          \<lparr>t_is_open = 1000, answers = (\<lambda>i. ApiRaises), t_failure = 1010\<rparr> initial_world
   \<and> fetch_price OptionBreaker ''NSE_X'' MIN_OPTION_PRICE MAX_OPTION_PRICE
          \<lparr>t_is_open = 1000, answers = (\<lambda>i. Quote 105), t_failure = 1010\<rparr>
          (initial_world\<lparr>option_price_breaker :=
             \<lparr>failure_count = 5, threshold = 5, timeout = 300, opened_at = Some 900\<rparr>\<rparr>)
       = (None, initial_world\<lparr>option_price_breaker :=
             \<lparr>failure_count = 5, threshold = 5, timeout = 300, opened_at = Some 900\<rparr>\<rparr>)"
proof -
  let ?ok = "\<lparr>t_is_open = 1000,
           answers = (\<lambda>i. if i = 1 then ApiRaises else if i = 2 then Quote 0.5 else Quote 105),
           t_failure = 1010\<rparr>"
  let ?bad = "\<lparr>t_is_open = 1000, answers = (\<lambda>i::nat. Quote 0), t_failure = 1010\<rparr>"
  let ?err = "\<lparr>t_is_open = 1000, answers = (\<lambda>i::nat. ApiRaises), t_failure = 1010\<rparr>"
  let ?one = "\<lparr>t_is_open = 1000, answers = (\<lambda>i::nat. Quote 105), t_failure = 1010\<rparr>"
  let ?opened = "initial_world\<lparr>option_price_breaker :=
             \<lparr>failure_count = 5, threshold = 5, timeout = 300, opened_at = Some 900\<rparr>\<rparr>"
  have closed: "\<not> fst (is_open 1000 (get_breaker OptionBreaker initial_world))"
    by (simp add: initial_world_def CircuitBreaker_init_def is_open_def)
  have isopen: "fst (is_open 1000 (get_breaker OptionBreaker ?opened))"
    by (simp add: is_open_def)
  have r: "retried ''NSE_X'' 2 = [GetLtp ''NSE_X'', Sleep 2, GetLtp ''NSE_X'', Sleep 2]"
    by (simp add: retried_def RETRY_DELAY_SEC_def numeral_2_eq_2)
  have r': "retried ''NSE_X'' (MAX_RETRIES - Suc 0)
      = [GetLtp ''NSE_X'', Sleep 2, GetLtp ''NSE_X'', Sleep 2]"
    by (simp add: retried_def RETRY_DELAY_SEC_def MAX_RETRIES_def numeral_2_eq_2)
  have m: "(2::nat) < MAX_RETRIES"
    by (simp add: MAX_RETRIES_def)
  have f: "\<forall>i. 1 \<le> i \<and> i \<le> 2 \<longrightarrow>
             valid_quote MIN_OPTION_PRICE MAX_OPTION_PRICE (answers ?ok i) = None"
    by (auto simp: valid_quote_def MIN_OPTION_PRICE_def MAX_OPTION_PRICE_def)
  have s: "valid_quote MIN_OPTION_PRICE MAX_OPTION_PRICE (answers ?ok (2 + 1)) = Some 105"
    by (simp add: valid_quote_def MIN_OPTION_PRICE_def MAX_OPTION_PRICE_def)
  have g: "\<forall>i. 1 \<le> i \<and> i \<le> MAX_RETRIES \<longrightarrow>
             valid_quote MIN_OPTION_PRICE MAX_OPTION_PRICE (answers ?bad i) = None"
    by (simp add: valid_quote_def MIN_OPTION_PRICE_def MAX_OPTION_PRICE_def)
  have e: "\<forall>i. valid_quote MIN_OPTION_PRICE MAX_OPTION_PRICE (answers ?bad i)
             = valid_quote MIN_OPTION_PRICE MAX_OPTION_PRICE (answers ?err i)"
    by (simp add: valid_quote_def MIN_OPTION_PRICE_def MAX_OPTION_PRICE_def)
  note a = resilient_fetch_behaviour
    [of ?ok initial_world "''X''" "''FNO''" OptionBreaker "''NSE_X''"
        MIN_OPTION_PRICE MAX_OPTION_PRICE 2 105 ?ok]
  note b = resilient_fetch_behaviour
    [of ?err initial_world "''X''" "''FNO''" OptionBreaker "''NSE_X''"
        MIN_OPTION_PRICE MAX_OPTION_PRICE 2 105 ?bad]
  note b' = resilient_fetch_behaviour
    [of ?bad initial_world "''X''" "''FNO''" OptionBreaker "''NSE_X''"
        MIN_OPTION_PRICE MAX_OPTION_PRICE 2 105 ?bad]
  note c = resilient_fetch_behaviour
    [of ?one ?opened "''X''" "''FNO''" OptionBreaker "''NSE_X''"
        MIN_OPTION_PRICE MAX_OPTION_PRICE 2 105 ?one]
  have t0: "trace initial_world = []"
    by (simp add: initial_world_def)
  have 1: "fst (fetch_price OptionBreaker ''NSE_X'' MIN_OPTION_PRICE MAX_OPTION_PRICE ?ok
                  initial_world) = Some 105
     \<and> trace (snd (fetch_price OptionBreaker ''NSE_X'' MIN_OPTION_PRICE MAX_OPTION_PRICE ?ok
                  initial_world))
       = [GetLtp ''NSE_X'', Sleep 2, GetLtp ''NSE_X'', Sleep 2, GetLtp ''NSE_X'',
          BreakerSuccess OptionBreaker]"
    using a closed m f s by (simp add: r t0)
  have 2: "fst (fetch_price OptionBreaker ''NSE_X'' MIN_OPTION_PRICE MAX_OPTION_PRICE ?bad
                  initial_world) = None
     \<and> trace (snd (fetch_price OptionBreaker ''NSE_X'' MIN_OPTION_PRICE MAX_OPTION_PRICE ?bad
                  initial_world))
       = [GetLtp ''NSE_X'', Sleep 2, GetLtp ''NSE_X'', Sleep 2, GetLtp ''NSE_X'',
          BreakerFailure OptionBreaker]"
    using b' closed g by (simp add: r' t0)
  have 3: "fetch_price OptionBreaker ''NSE_X'' MIN_OPTION_PRICE MAX_OPTION_PRICE ?bad initial_world
       = fetch_price OptionBreaker ''NSE_X'' MIN_OPTION_PRICE MAX_OPTION_PRICE ?err initial_world"
    using b e by simp
  have 4: "fetch_price OptionBreaker ''NSE_X'' MIN_OPTION_PRICE MAX_OPTION_PRICE ?one ?opened
       = (None, ?opened)"
    using c isopen by simp
  show ?thesis
    using 1 2 3 4 by simp
qed

section \<open>The session part of the world\<close>

lemma session_of_fields:
  "executed_trades_count (session_of w) = executed_trades_count w"
  "current_position (session_of w) = current_position w"
  "last_trading_date (session_of w) = last_trading_date w"
  "daily_pivot_point (session_of w) = daily_pivot_point w"
  "daily_bias (session_of w) = daily_bias w"
  "bias_lock_date (session_of w) = bias_lock_date w"
  "bias_candle_data (session_of w) = bias_candle_data w"
  "in_trade (session_of w) = in_trade w"
  "current_trade (session_of w) = current_trade w"
  "trace (session_of w) = orders w"
  "last_heartbeat_timestamp (session_of w) = last_heartbeat_timestamp w"
  by (simp_all add: session_of_def orders_def)

lemma session_of_eqD:
  assumes "session_of a = session_of b"
  shows "executed_trades_count a = executed_trades_count b"
    and "current_position a = current_position b"
    and "last_trading_date a = last_trading_date b"
    and "daily_pivot_point a = daily_pivot_point b"
    and "daily_bias a = daily_bias b"
    and "bias_lock_date a = bias_lock_date b"
    and "bias_candle_data a = bias_candle_data b"
    and "in_trade a = in_trade b"
    and "current_trade a = current_trade b"
    and "orders a = orders b"
  using arg_cong [OF assms, of executed_trades_count]
    arg_cong [OF assms, of current_position]
    arg_cong [OF assms, of last_trading_date]
    arg_cong [OF assms, of daily_pivot_point]
    arg_cong [OF assms, of daily_bias]
    arg_cong [OF assms, of bias_lock_date]
    arg_cong [OF assms, of bias_candle_data]
    arg_cong [OF assms, of in_trade]
    arg_cong [OF assms, of current_trade]
    arg_cong [OF assms, of trace]
  by (simp_all add: session_of_fields)

lemma fetch_price_session: "session_of (snd (fetch_price b tsym lo hi ob w)) = session_of w"
  by (simp add: fetch_price_def Let_def fetch_attempts_session session_of_set_breaker
        split: prod.splits)

lemma fetch_price_in_range:
  "fst (fetch_price b tsym lo hi ob w) = Some p \<Longrightarrow> lo \<le> p \<and> p \<le> hi"
  by (auto simp: fetch_price_def Let_def split: prod.splits if_splits
        dest: fetch_attempts_in_range)

lemma fetch_option_price_session:
  "fetch_option_price ob tsym seg w = (r, w') \<Longrightarrow> session_of w' = session_of w"
  using fetch_price_session [of OptionBreaker "''NSE_'' @ tsym" MIN_OPTION_PRICE
          MAX_OPTION_PRICE ob w]
  by (simp add: fetch_option_price_def)

lemma fetch_option_price_in_range:
  "fetch_option_price ob tsym seg w = (Some p, w') \<Longrightarrow>
   MIN_OPTION_PRICE \<le> p \<and> p \<le> MAX_OPTION_PRICE"
  using fetch_price_in_range [of OptionBreaker "''NSE_'' @ tsym" MIN_OPTION_PRICE
          MAX_OPTION_PRICE ob w p]
  by (simp add: fetch_option_price_def)

lemma fetch_spot_price_session:
  "fetch_spot_price ob w = (r, w') \<Longrightarrow> session_of w' = session_of w"
  using fetch_price_session [of SpotBreaker "''NSE_NIFTY''" MIN_SPOT_PRICE MAX_SPOT_PRICE ob w]
  by (simp add: fetch_spot_price_def)

lemma fetch_spot_price_in_range:
  "fetch_spot_price ob w = (Some p, w') \<Longrightarrow> MIN_SPOT_PRICE \<le> p \<and> p \<le> MAX_SPOT_PRICE"
  using fetch_price_in_range [of SpotBreaker "''NSE_NIFTY''" MIN_SPOT_PRICE MAX_SPOT_PRICE ob w p]
  by (simp add: fetch_spot_price_def)

lemma session_of_update:
  "session_of (w\<lparr>executed_trades_count := n\<rparr>) = (session_of w)\<lparr>executed_trades_count := n\<rparr>"
  "session_of (w\<lparr>current_position := po\<rparr>) = (session_of w)\<lparr>current_position := po\<rparr>"
  "session_of (w\<lparr>last_trading_date := d\<rparr>) = (session_of w)\<lparr>last_trading_date := d\<rparr>"
  "session_of (w\<lparr>daily_pivot_point := pp\<rparr>) = (session_of w)\<lparr>daily_pivot_point := pp\<rparr>"
  "session_of (w\<lparr>daily_bias := bi\<rparr>) = (session_of w)\<lparr>daily_bias := bi\<rparr>"
  "session_of (w\<lparr>bias_lock_date := d\<rparr>) = (session_of w)\<lparr>bias_lock_date := d\<rparr>"
  "session_of (w\<lparr>bias_candle_data := cd\<rparr>) = (session_of w)\<lparr>bias_candle_data := cd\<rparr>"
  "session_of (w\<lparr>in_trade := it\<rparr>) = (session_of w)\<lparr>in_trade := it\<rparr>"
  "session_of (w\<lparr>current_trade := ct\<rparr>) = (session_of w)\<lparr>current_trade := ct\<rparr>"
  by (simp_all add: session_of_def)

lemma emit_fields:
  "executed_trades_count (emit e w) = executed_trades_count w"
  "current_position (emit e w) = current_position w"
  "last_trading_date (emit e w) = last_trading_date w"
  "daily_pivot_point (emit e w) = daily_pivot_point w"
  "daily_bias (emit e w) = daily_bias w"
  "bias_lock_date (emit e w) = bias_lock_date w"
  "bias_candle_data (emit e w) = bias_candle_data w"
  "spot_price_breaker (emit e w) = spot_price_breaker w"
  "option_price_breaker (emit e w) = option_price_breaker w"
  "in_trade (emit e w) = in_trade w"
  "current_trade (emit e w) = current_trade w"
  "trace (emit e w) = trace w @ [e]"
  "last_heartbeat_timestamp (emit e w) = last_heartbeat_timestamp w"
  by (simp_all add: emit_def)

lemma session_of_emit_order:
  "is_order e \<Longrightarrow> session_of (emit e w) = (session_of w)\<lparr>trace := orders w @ [e]\<rparr>"
  by (simp add: session_of_def emit_def orders_def)

lemma enter_position_cases:
  assumes "enter_position ob1 ob2 dir tsym seg pivot_point w = (r, w')"
  obtains
    (blocked) "\<not> can_enter_trade w" and "r = None" and "w' = w"
  | (aborted) "can_enter_trade w" and "r = None" and "session_of w' = session_of w"
  | (entered) pos where "can_enter_trade w" and "r = Some pos"
      and "MIN_OPTION_PRICE \<le> entry_price pos" and "entry_price pos \<le> MAX_OPTION_PRICE"
      and "direction pos = dir" and "symbol pos = tsym" and "segment pos = seg"
      and "quantity pos = NIFTY_LOT_SIZE * TRADE_LOTS" and "pivot pos = pivot_point"
      and "session_of w' =
             (session_of w)
               \<lparr>executed_trades_count := executed_trades_count w + 1,
                current_position := Some pos, in_trade := True,
                current_trade :=
                  Some \<lparr>dt_entry_price = entry_price pos,
                        dt_quantity = NIFTY_LOT_SIZE * TRADE_LOTS,
                        dt_current_price = entry_price pos\<rparr>,
                trace := orders w @ [PaperBuy tsym (NIFTY_LOT_SIZE * TRADE_LOTS) (entry_price pos)]\<rparr>"
proof (cases "can_enter_trade w")
  case False
  then have "r = None" "w' = w"
    using assms by (simp_all add: enter_position_def)
  then show ?thesis
    using False by (rule blocked [rotated])
next
  case True
  obtain o1 w1 where f1: "fetch_option_price ob1 tsym seg w = (o1, w1)"
    by fastforce
  obtain o2 w3 where f2: "fetch_option_price ob2 tsym seg (emit (Sleep (1 / 2)) w1) = (o2, w3)"
    by fastforce
  have s3: "session_of w3 = session_of w"
    using fetch_option_price_session [OF f1] fetch_option_price_session [OF f2]
    by (simp add: session_of_emit)
  show ?thesis
  proof (cases "entry_prices_invalid o1 o2")
    case invalid: True
    then have "r = None" "w' = w3"
      using assms True by (simp_all add: enter_position_def f1 f2)
    then show ?thesis
      using True s3 by (intro aborted) simp_all
  next
    case valid: False
    then obtain price where o2: "o2 = Some price" and pos: "0 < price"
      by (auto simp: entry_prices_invalid_def split: option.splits)
    have range: "MIN_OPTION_PRICE \<le> price \<and> price \<le> MAX_OPTION_PRICE"
      using fetch_option_price_in_range f2 o2 by simp
    have qty: "calculate_position_size price = NIFTY_LOT_SIZE * TRADE_LOTS"
      using pos by (simp add: calculate_position_size_def)
    have qpos: "\<not> NIFTY_LOT_SIZE * TRADE_LOTS \<le> 0"
      by (simp add: NIFTY_LOT_SIZE_def TRADE_LOTS_def)
    let ?pos = "\<lparr>symbol = tsym, segment = seg, direction = dir, entry_price = price,
        quantity = NIFTY_LOT_SIZE * TRADE_LOTS,
        invested = fmul price (of_int (NIFTY_LOT_SIZE * TRADE_LOTS)),
        profit_target = py_round (fmul price (fadd 1 PROFIT_TARGET_PERCENT)) 2,
        stop_loss = py_round (fmul price (fsub 1 STOP_LOSS_PERCENT)) 2, pivot = pivot_point\<rparr>"
    have res: "r = Some ?pos"
      "w' = enter_trade price (NIFTY_LOT_SIZE * TRADE_LOTS)
              ((paper_buy tsym (NIFTY_LOT_SIZE * TRADE_LOTS) price w3)
                 \<lparr>executed_trades_count :=
                    executed_trades_count
                      (paper_buy tsym (NIFTY_LOT_SIZE * TRADE_LOTS) price w3) + 1,
                  current_position := Some ?pos\<rparr>)"
      using assms True valid qpos
      by (auto simp: enter_position_def f1 f2 o2 qty Let_def)
    have cnt: "executed_trades_count w3 = executed_trades_count w" "orders w3 = orders w"
      using session_of_eqD [OF s3] by simp_all
    have "session_of w' =
             (session_of w)
               \<lparr>executed_trades_count := executed_trades_count w + 1,
                current_position := Some ?pos, in_trade := True,
                current_trade :=
                  Some \<lparr>dt_entry_price = price,
                        dt_quantity = NIFTY_LOT_SIZE * TRADE_LOTS,
                        dt_current_price = price\<rparr>,
                trace := orders w @ [PaperBuy tsym (NIFTY_LOT_SIZE * TRADE_LOTS) price]\<rparr>"
      unfolding res(2) enter_trade_def paper_buy_def
      by (simp add: session_of_update session_of_emit_order s3 cnt emit_fields)
    then show ?thesis
      using True res(1) range by (intro entered [of ?pos]) simp_all
  qed
qed

section \<open>Entry\<close>



lemma fetch_price_first_try:
  assumes "opened_at (get_breaker b w) = None"
    and "valid_quote lo hi (answers ob 1) = Some v"
  shows "fetch_price b tsym lo hi ob w = (Some v, breaker_success b (emit (GetLtp tsym) w))"
proof -
  have "is_open (t_is_open ob) (get_breaker b w) = (False, get_breaker b w)"
    using assms(1) by (simp add: is_open_def)
  moreover have "fetch_attempts b tsym lo hi ob 1 w
      = (Some v, breaker_success b (emit (GetLtp tsym) w))"
    using assms(2) by (intro fetch_attempts_success_step) (simp_all add: MAX_RETRIES_def)
  ultimately show ?thesis
    by (simp add: fetch_price_def set_get_breaker)
qed

lemma fetch_price_all_fail:
  assumes "opened_at (get_breaker b w) = None"
    and "\<forall>i. valid_quote lo hi (answers ob i) = None"
  shows "fst (fetch_price b tsym lo hi ob w) = None"
proof -
  have "is_open (t_is_open ob) (get_breaker b w) = (False, get_breaker b w)"
    using assms(1) by (simp add: is_open_def)
  moreover have "fst (fetch_attempts b tsym lo hi ob 1 w) = None"
    using fetch_attempts_exhausted [of 1 "MAX_RETRIES - 1" lo hi ob b tsym w] assms(2)
    by (simp add: MAX_RETRIES_def)
  ultimately show ?thesis
    by (simp add: fetch_price_def set_get_breaker)
qed

lemma option_breaker_after_success:
  "opened_at (option_price_breaker (breaker_success OptionBreaker w)) = None"
  by (simp add: breaker_success_def record_success_def emit_def)


section \<open>Exit\<close>

lemma world_inv_session: "session_of a = session_of b \<Longrightarrow> world_inv a = world_inv b"
  using session_of_eqD [of a b] by (simp add: world_inv_def split: option.splits)

lemma net_bought_session: "session_of a = session_of b \<Longrightarrow> net_bought a = net_bought b"
  using session_of_eqD(10) [of a b] by (simp add: net_bought_def)

lemma open_count_session: "session_of a = session_of b \<Longrightarrow> open_count a = open_count b"
  using session_of_eqD(2) [of a b] by (simp add: open_count_def)

lemma exit_position_done:
  assumes "current_position w = Some p" and "entry_price p \<noteq> 0" and "in_trade w"
    and "current_trade w = Some t" and "dt_entry_price t \<noteq> 0"
  shows "exit_position exit_price reason w =
     Inr ((emit (JournalRow (symbol p) (entry_price p) exit_price reason)
             (emit (PaperSell (symbol p) (quantity p) exit_price reason) w))
            \<lparr>in_trade := False, current_trade := None, current_position := None\<rparr>)"
  using assms
  by (simp add: exit_position_def paper_sell_def log_trade_to_journal_def exit_trade_def
        emit_fields Let_def)

lemma session_of_exit:
  "session_of ((emit (JournalRow s e x r) (emit (PaperSell s q x r) w))
            \<lparr>in_trade := False, current_trade := None, current_position := None\<rparr>)
   = (session_of w)\<lparr>in_trade := False, current_trade := None, current_position := None,
                    trace := orders w @ [PaperSell s q x r]\<rparr>"
  by (simp add: session_of_update session_of_emit session_of_emit_order)

lemma update_trade_price_done:
  assumes "in_trade w" and "current_trade w = Some t" and "dt_entry_price t \<noteq> 0"
  shows "update_trade_price price w
     = Inr (w\<lparr>current_trade := Some (t\<lparr>dt_current_price := price\<rparr>)\<rparr>)"
  using assms by (simp add: update_trade_price_def Let_def)

lemma session_ofD:
  assumes "session_of w' = S"
  shows "executed_trades_count w' = executed_trades_count S"
    and "current_position w' = current_position S"
    and "last_trading_date w' = last_trading_date S"
    and "daily_pivot_point w' = daily_pivot_point S"
    and "daily_bias w' = daily_bias S"
    and "in_trade w' = in_trade S"
    and "current_trade w' = current_trade S"
    and "orders w' = trace S"
  using assms session_of_fields [of w'] by auto

lemma kept_facts:
  assumes "session_of w' = session_of w"
  shows "world_inv w' = world_inv w" and "last_trading_date w' = last_trading_date w"
    and "balance w' = balance w" and "current_position w' = current_position w"
    and "orders w' = orders w" and "daily_pivot_point w' = daily_pivot_point w"
    and "daily_bias w' = daily_bias w" and "executed_trades_count w' = executed_trades_count w"
  using assms world_inv_session [OF assms] net_bought_session [OF assms]
    open_count_session [OF assms] session_of_eqD [OF assms]
  by (simp_all add: balance_def)

lemma sold_facts:
  assumes s: "session_of w' =
      (session_of w)\<lparr>in_trade := False, current_trade := None, current_position := None,
                     trace := orders w @ [PaperSell tsym q x r]\<rparr>"
    and inv: "world_inv w" and pos: "current_position w \<noteq> None"
  shows "world_inv w'" and "last_trading_date w' = last_trading_date w"
    and "balance w' = balance w" and "current_position w' = None"
    and "orders w' = orders w @ [PaperSell tsym q x r]"
    and "daily_pivot_point w' = daily_pivot_point w"
    and "daily_bias w' = daily_bias w" and "executed_trades_count w' = executed_trades_count w"
proof -
  note f = session_ofD [OF s]
  show "world_inv w'"
    using inv by (simp add: world_inv_def f session_of_fields)
  show "last_trading_date w' = last_trading_date w"
    by (simp add: f session_of_fields)
  show "current_position w' = None"
    by (simp add: f)
  show o: "orders w' = orders w @ [PaperSell tsym q x r]"
    by (simp add: f)
  show "balance w' = balance w"
    using pos by (simp add: balance_def net_bought_def open_count_def o f)
  show "daily_pivot_point w' = daily_pivot_point w"
    by (simp add: f session_of_fields)
  show "daily_bias w' = daily_bias w"
    by (simp add: f session_of_fields)
  show "executed_trades_count w' = executed_trades_count w"
    by (simp add: f session_of_fields)
qed

lemma repriced_facts:
  assumes s: "session_of w' =
      (session_of w)\<lparr>current_trade := Some (t\<lparr>dt_current_price := x\<rparr>)\<rparr>"
    and inv: "world_inv w" and ct: "current_trade w = Some t"
  shows "world_inv w'" and "last_trading_date w' = last_trading_date w"
    and "balance w' = balance w" and "current_position w' = current_position w"
    and "orders w' = orders w" and "daily_pivot_point w' = daily_pivot_point w"
    and "daily_bias w' = daily_bias w" and "executed_trades_count w' = executed_trades_count w"
    and "in_trade w' = in_trade w"
    and "current_trade w' = Some (t\<lparr>dt_current_price := x\<rparr>)"
proof -
  note f = session_ofD [OF s]
  show "world_inv w'"
    using inv ct by (simp add: world_inv_def f session_of_fields split: option.splits)
  show "last_trading_date w' = last_trading_date w"
    by (simp add: f session_of_fields)
  show p: "current_position w' = current_position w"
    by (simp add: f session_of_fields)
  show o: "orders w' = orders w"
    by (simp add: f session_of_fields)
  show "balance w' = balance w"
    by (simp add: balance_def net_bought_def open_count_def o p)
  show "daily_pivot_point w' = daily_pivot_point w"
    by (simp add: f session_of_fields)
  show "daily_bias w' = daily_bias w"
    by (simp add: f session_of_fields)
  show "executed_trades_count w' = executed_trades_count w"
    by (simp add: f session_of_fields)
  show "in_trade w' = in_trade w"
    by (simp add: f session_of_fields)
  show "current_trade w' = Some (t\<lparr>dt_current_price := x\<rparr>)"
    by (simp add: f)
qed

lemma day_step_refl: "world_inv w \<Longrightarrow> day_step w w"
  by (simp add: day_step_def)

lemma day_step_trans: "day_step a b \<Longrightarrow> day_step b c \<Longrightarrow> day_step a c"
  by (simp add: day_step_def)

lemma day_step_kept: "world_inv w \<Longrightarrow> session_of w' = session_of w \<Longrightarrow> day_step w w'"
  using kept_facts [of w' w] by (simp add: day_step_def)

lemma world_inv_open:
  assumes "world_inv w" and "current_position w = Some p"
  shows "entry_price p \<noteq> 0" and "in_trade w"
    and "\<exists>t. current_trade w = Some t \<and> dt_entry_price t \<noteq> 0"
  using assms by (auto simp: world_inv_def MIN_OPTION_PRICE_def split: option.splits)

lemma exit_position_inv:
  assumes inv: "world_inv w" and pos: "current_position w = Some p"
  shows "\<exists>w'. exit_position x r w = Inr w'
    \<and> session_of w' =
        (session_of w)\<lparr>in_trade := False, current_trade := None, current_position := None,
                       trace := orders w @ [PaperSell (symbol p) (quantity p) x r]\<rparr>"
proof -
  obtain t where t: "current_trade w = Some t" "dt_entry_price t \<noteq> 0"
    using world_inv_open(3) [OF inv pos] by auto
  show ?thesis
    using exit_position_done [OF pos world_inv_open(1) [OF inv pos]
            world_inv_open(2) [OF inv pos] t, of x r]
    by (simp add: session_of_exit)
qed

lemma exit_position_step:
  assumes inv: "world_inv w" and pos: "current_position w = Some p"
  shows "\<exists>w'. exit_position x r w = Inr w' \<and> day_step w w' \<and> current_position w' = None
    \<and> orders w' = orders w @ [PaperSell (symbol p) (quantity p) x r]"
proof -
  obtain w' where w': "exit_position x r w = Inr w'"
    "session_of w' =
        (session_of w)\<lparr>in_trade := False, current_trade := None, current_position := None,
                       trace := orders w @ [PaperSell (symbol p) (quantity p) x r]\<rparr>"
    using exit_position_inv [OF inv pos] by blast
  have ne: "current_position w \<noteq> None"
    using pos by simp
  note f = sold_facts [OF w'(2) inv ne]
  show ?thesis
    using w'(1) f by (simp add: day_step_def)
qed

lemma force_eod_exit_step:
  assumes inv: "world_inv w" and pos: "current_position w = Some p"
  shows "\<exists>w'. force_eod_exit ob w = Inr w' \<and> day_step w w' \<and> current_position w' = None
    \<and> orders w' = orders w @
        [PaperSell (symbol p) (quantity p)
           (case fst (fetch_option_price ob (symbol p) (segment p) w) of
              None \<Rightarrow> entry_price p | Some price \<Rightarrow> price)
           ''EOD_EXIT'']"
proof -
  obtain q w1 where f: "fetch_option_price ob (symbol p) (segment p) w = (q, w1)"
    by fastforce
  note k = kept_facts [OF fetch_option_price_session [OF f]]
  have inv1: "world_inv w1" and pos1: "current_position w1 = Some p"
    using k inv pos by simp_all
  let ?x = "case q of None \<Rightarrow> entry_price p | Some price \<Rightarrow> price"
  have x: "(case q of None \<Rightarrow> entry_price p
            | Some price \<Rightarrow> if price = 0 then entry_price p else price) = ?x"
    using fetch_option_price_in_range [of ob "symbol p" "segment p" w _ w1] f
    by (auto simp: MIN_OPTION_PRICE_def split: option.splits)
  obtain w' where w': "exit_position ?x ''EOD_EXIT'' w1 = Inr w'" "day_step w1 w'"
    "current_position w' = None"
    "orders w' = orders w1 @ [PaperSell (symbol p) (quantity p) ?x ''EOD_EXIT'']"
    using exit_position_step [OF inv1 pos1] by blast
  have "force_eod_exit ob w = Inr w'"
    using w'(1) by (simp add: force_eod_exit_def pos f x)
  moreover have "day_step w w'"
    using day_step_trans [OF day_step_kept [OF inv fetch_option_price_session [OF f]] w'(2)] .
  ultimately show ?thesis
    using w'(3,4) k(5) by (simp add: f)
qed

lemma check_stop_loss_step:
  assumes inv: "world_inv w"
  shows "\<exists>w'. check_stop_loss ob w = Inr w' \<and> day_step w w'
    \<and> (current_position w' = current_position w \<or> current_position w' = None)"
proof (cases "current_position w")
  case None
  then show ?thesis
    using inv by (simp add: check_stop_loss_def day_step_refl)
next
  case (Some p)
  obtain q w1 where f: "fetch_option_price ob (symbol p) (segment p) w = (q, w1)"
    by fastforce
  note k = kept_facts [OF fetch_option_price_session [OF f]]
  have inv1: "world_inv w1" and pos1: "current_position w1 = Some p"
    using k inv Some by simp_all
  have s1: "day_step w w1"
    using day_step_kept [OF inv fetch_option_price_session [OF f]] .
  show ?thesis
  proof (cases q)
    case None
    then show ?thesis
      using s1 k(4) by (simp add: check_stop_loss_def Some f)
  next
    case (Some price)
    obtain t where t: "current_trade w1 = Some t" "dt_entry_price t \<noteq> 0"
      using world_inv_open(3) [OF inv1 pos1] by auto
    let ?w2 = "w1\<lparr>current_trade := Some (t\<lparr>dt_current_price := price\<rparr>)\<rparr>"
    have u: "update_trade_price price w1 = Inr ?w2"
      using update_trade_price_done [OF world_inv_open(2) [OF inv1 pos1] t] .
    have s2: "session_of ?w2
        = (session_of w1)\<lparr>current_trade := Some (t\<lparr>dt_current_price := price\<rparr>)\<rparr>"
      by (simp add: session_of_update)
    note r = repriced_facts [OF s2 inv1 t(1)]
    have step2: "day_step w ?w2"
      using s1 r(1,2,3,6) by (simp add: day_step_def)
    show ?thesis
    proof (cases "price \<le> stop_loss p")
      case True
      obtain w' where w': "exit_position price ''STOP_LOSS'' ?w2 = Inr w'" "day_step ?w2 w'"
        "current_position w' = None"
        using exit_position_step [OF r(1), of p price "''STOP_LOSS''"] pos1 by auto
      have "check_stop_loss ob w = Inr w'"
        using True w'(1) by (simp add: check_stop_loss_def \<open>current_position w = Some p\<close> f Some u)
      then show ?thesis
        using day_step_trans [OF step2 w'(2)] w'(3) by simp
    next
      case False
      have "check_stop_loss ob w = Inr ?w2"
        using False by (simp add: check_stop_loss_def \<open>current_position w = Some p\<close> f Some u)
      then show ?thesis
        using step2 k(4) by simp
    qed
  qed
qed

lemma check_profit_target_step:
  assumes inv: "world_inv w"
  shows "\<exists>w'. check_profit_target ob w = Inr w' \<and> day_step w w'"
proof (cases "current_position w")
  case None
  then show ?thesis
    using inv by (simp add: check_profit_target_def day_step_refl)
next
  case (Some p)
  obtain q w1 where f: "fetch_option_price ob (symbol p) (segment p) w = (q, w1)"
    by fastforce
  note k = kept_facts [OF fetch_option_price_session [OF f]]
  have inv1: "world_inv w1" and pos1: "current_position w1 = Some p"
    using k inv Some by simp_all
  have s1: "day_step w w1"
    using day_step_kept [OF inv fetch_option_price_session [OF f]] .
  show ?thesis
  proof (cases q)
    case None
    then show ?thesis
      using s1 by (simp add: check_profit_target_def Some f)
  next
    case (Some price)
    obtain t where t: "current_trade w1 = Some t" "dt_entry_price t \<noteq> 0"
      using world_inv_open(3) [OF inv1 pos1] by auto
    let ?w2 = "w1\<lparr>current_trade := Some (t\<lparr>dt_current_price := price\<rparr>)\<rparr>"
    have u: "update_trade_price price w1 = Inr ?w2"
      using update_trade_price_done [OF world_inv_open(2) [OF inv1 pos1] t] .
    have s2: "session_of ?w2
        = (session_of w1)\<lparr>current_trade := Some (t\<lparr>dt_current_price := price\<rparr>)\<rparr>"
      by (simp add: session_of_update)
    note r = repriced_facts [OF s2 inv1 t(1)]
    have step2: "day_step w ?w2"
      using s1 r(1,2,3,6) by (simp add: day_step_def)
    show ?thesis
    proof (cases "price \<ge> profit_target p")
      case True
      obtain w' where w': "exit_position price ''PROFIT_TARGET'' ?w2 = Inr w'"
        "day_step ?w2 w'"
        using exit_position_step [OF r(1), of p price "''PROFIT_TARGET''"] pos1 by auto
      have "check_profit_target ob w = Inr w'"
        using True w'(1)
        by (simp add: check_profit_target_def \<open>current_position w = Some p\<close> f Some u)
      then show ?thesis
        using day_step_trans [OF step2 w'(2)] by simp
    next
      case False
      have "check_profit_target ob w = Inr ?w2"
        using False
        by (simp add: check_profit_target_def \<open>current_position w = Some p\<close> f Some u)
      then show ?thesis
        using step2 by simp
    qed
  qed
qed

lemma manage_position_step:
  assumes inv: "world_inv w" and pos: "current_position w = Some p"
  shows "day_step w (manage_position ob w)"
proof (cases "ob_time ob \<ge> EOD_EXIT")
  case True
  then show ?thesis
    using force_eod_exit_step [OF inv pos, of "ob_eod_quote ob"]
    by (auto simp: manage_position_def caught_def)
next
  case False
  obtain w1 where w1: "check_stop_loss (ob_stop_quote ob) w = Inr w1" "day_step w w1"
    using check_stop_loss_step [OF inv] by blast
  show ?thesis
  proof (cases "current_position w1 = None")
    case True
    then show ?thesis
      using False w1 by (simp add: manage_position_def)
  next
    case still: False
    have inv1: "world_inv w1"
      using w1(2) by (simp add: day_step_def)
    obtain w2 where w2: "check_profit_target (ob_target_quote ob) w1 = Inr w2" "day_step w1 w2"
      using check_profit_target_step [OF inv1] by blast
    show ?thesis
      using False still w1(1) w2(1) day_step_trans [OF w1(2) w2(2)]
      by (auto simp: manage_position_def caught_def)
  qed
qed

lemma determine_daily_bias_step:
  assumes inv: "world_inv w" and pos: "current_position w = None"
  shows "day_step w (determine_daily_bias now today response w)"
    and "current_position (determine_daily_bias now today response w) = None"
    and "executed_trades_count (determine_daily_bias now today response w)
           = executed_trades_count w"
    and "orders (determine_daily_bias now today response w) = orders w"
  using assms
  by (auto simp: determine_daily_bias_def day_step_def world_inv_def balance_def
        net_bought_def orders_def open_count_def Let_def split: option.splits)

section \<open>Entry, reset and the loop\<close>

lemma enter_position_step:
  assumes inv: "world_inv w" and piv: "daily_pivot_point w \<noteq> None"
    and bull: "daily_bias w = Some ''BULLISH'' \<longrightarrow> dir = ''CALL''"
    and bear: "daily_bias w = Some ''BEARISH'' \<longrightarrow> dir = ''PUT''"
  shows "day_step w (snd (enter_position ob1 ob2 dir tsym seg pivot_point w))"
proof -
  obtain r w' where e: "enter_position ob1 ob2 dir tsym seg pivot_point w = (r, w')"
    by fastforce
  have "day_step w w'"
    using e
  proof (cases rule: enter_position_cases)
    case blocked
    then show ?thesis
      using inv by (simp add: day_step_refl)
  next
    case aborted
    then show ?thesis
      using inv by (simp add: day_step_kept)
  next
    case (entered pos)
    note f = session_ofD [OF entered(10)]
    have can: "executed_trades_count w < MAX_DAILY_TRADES" "current_position w = None"
      using entered(1) by (auto simp: can_enter_trade_def split: if_splits)
    have "world_inv w'"
      using inv can piv bull bear entered(3,5)
      by (simp add: world_inv_def f session_of_fields)
    moreover have "balance w' = balance w"
      using can(2) by (simp add: balance_def net_bought_def open_count_def f)
    ultimately show ?thesis
      by (simp add: day_step_def f session_of_fields)
  qed
  then show ?thesis
    by (simp add: e)
qed

lemma entry_logic_step:
  assumes inv: "world_inv w" and pos: "current_position w = None"
    and piv: "daily_pivot_point w = Some pivot_point"
  shows "day_step w (entry_logic ob pivot_point w)"
proof -
  let ?w1 = "determine_daily_bias (ob_time ob) (ob_today ob) (ob_first_candles ob) w"
  have s1: "day_step w ?w1"
    using determine_daily_bias_step(1) [OF inv pos] .
  obtain s w2 where f: "fetch_spot_price (ob_spot_quote ob) ?w1 = (s, w2)"
    by fastforce
  have inv1: "world_inv ?w1"
    using s1 by (simp add: day_step_def)
  have s2: "day_step ?w1 w2"
    using day_step_kept [OF inv1 fetch_spot_price_session [OF f]] .
  have s12: "day_step w w2"
    using day_step_trans [OF s1 s2] .
  have inv2: "world_inv w2" and piv2: "daily_pivot_point w2 \<noteq> None"
    using s12 piv by (simp_all add: day_step_def)
  let ?dir = "if daily_bias w2 = Some ''BULLISH'' then ''CALL'' else ''PUT''"
  have enter: "day_step w
      (snd (enter_position (ob_entry_quote ob) (ob_confirm_quote ob) ?dir tsym seg pivot_point w2))"
    for tsym seg
    using day_step_trans [OF s12 enter_position_step [OF inv2 piv2, of ?dir]] by simp
  show ?thesis
    using inv s1 s12 enter
    by (auto simp: entry_logic_def Let_def f day_step_refl split: option.splits)
qed

lemma reset_daily_state_inv:
  assumes "world_inv w"
  shows "world_inv (caught (reset_daily_state ob w))"
proof (cases "last_trading_date w = Some (ob_today ob)")
  case True
  then show ?thesis
    using assms by (simp add: reset_daily_state_def caught_def)
next
  case False
  then show ?thesis
    using assms
    by (simp add: reset_daily_state_def caught_def Let_def world_inv_def breaker_success_def
          emit_fields MAX_DAILY_TRADES_def)
qed

lemma after_heartbeat_inv:
  assumes inv: "world_inv w"
  shows "world_inv (caught (after_heartbeat ob w))"
proof (cases "ob_trading_day ob")
  case False
  then show ?thesis
    using inv by (simp add: after_heartbeat_def caught_def)
next
  case True
  note r = reset_daily_state_inv [OF inv, of ob]
  show ?thesis
  proof (cases "reset_daily_state ob w")
    case (Inl e)
    then show ?thesis
      using True r by (simp add: after_heartbeat_def caught_def)
  next
    case (Inr w1)
    then have inv1: "world_inv w1"
      using r by (simp add: caught_def)
    show ?thesis
    proof (cases "daily_pivot_point w1")
      case None
      then show ?thesis
        using True Inr inv1 by (simp add: after_heartbeat_def caught_def)
    next
      case (Some pivot_point)
      show ?thesis
      proof (cases "current_position w1")
        case None
        then show ?thesis
          using True Inr Some entry_logic_step [OF inv1 None Some, of ob]
          by (simp add: after_heartbeat_def caught_def day_step_def)
      next
        case (Some p)
        then show ?thesis
          using True Inr \<open>daily_pivot_point w1 = Some pivot_point\<close>
            manage_position_step [OF inv1 Some, of ob]
          by (simp add: after_heartbeat_def caught_def day_step_def)
      qed
    qed
  qed
qed

lemma after_heartbeat_same_day:
  assumes inv: "world_inv w" and day: "last_trading_date w = Some (ob_today ob)"
  shows "\<exists>w'. after_heartbeat ob w = Inr w' \<and> day_step w w'"
proof -
  have r: "reset_daily_state ob w = Inr w"
    using day by (simp add: reset_daily_state_def)
  show ?thesis
  proof (cases "ob_trading_day ob")
    case False
    then show ?thesis
      using inv by (simp add: after_heartbeat_def day_step_refl)
  next
    case True
    show ?thesis
    proof (cases "daily_pivot_point w")
      case None
      then show ?thesis
        using True r inv by (simp add: after_heartbeat_def day_step_refl)
    next
      case (Some pivot_point)
      show ?thesis
      proof (cases "current_position w")
        case None
        then show ?thesis
          using True r Some entry_logic_step [OF inv None Some, of ob]
          by (simp add: after_heartbeat_def)
      next
        case (Some p)
        then show ?thesis
          using True r \<open>daily_pivot_point w = Some pivot_point\<close>
            manage_position_step [OF inv Some, of ob]
          by (simp add: after_heartbeat_def)
      qed
    qed
  qed
qed

lemma heartbeat_cases:
  obtains (raised) "heartbeat ob w = Inl (TypeError, w)" and "last_heartbeat_timestamp w = None"
  | (beaten) w1 where "heartbeat ob w = Inr w1"
      and "session_of w1 = (session_of w)\<lparr>last_heartbeat_timestamp := last_heartbeat_timestamp w1\<rparr>"
      and "last_heartbeat_timestamp w \<noteq> None"
proof (cases "last_heartbeat_timestamp w")
  case None
  then have "heartbeat ob w = Inl (TypeError, w)"
    by (simp add: heartbeat_def)
  then show ?thesis
    using None by (rule raised)
next
  case (Some t)
  let ?w1 = "if ob_datetime ob - t \<ge> HEARTBEAT_INTERVAL_SEC
             then w\<lparr>last_heartbeat_timestamp := Some (ob_datetime ob)\<rparr> else w"
  have 1: "heartbeat ob w = Inr ?w1"
    using Some by (simp add: heartbeat_def)
  have 2: "session_of ?w1
      = (session_of w)\<lparr>last_heartbeat_timestamp := last_heartbeat_timestamp ?w1\<rparr>"
    using Some by (simp add: session_of_def)
  have 3: "last_heartbeat_timestamp w \<noteq> None"
    using Some by simp
  show ?thesis
    using 1 2 3 by (rule beaten)
qed

lemma beaten_facts:
  assumes s: "session_of w1 = (session_of w)\<lparr>last_heartbeat_timestamp := h\<rparr>"
  shows "world_inv w1 = world_inv w" and "last_trading_date w1 = last_trading_date w"
    and "balance w1 = balance w" and "current_position w1 = current_position w"
    and "orders w1 = orders w" and "daily_pivot_point w1 = daily_pivot_point w"
    and "daily_bias w1 = daily_bias w" and "executed_trades_count w1 = executed_trades_count w"
proof -
  note f = session_ofD [OF s]
  show "world_inv w1 = world_inv w"
    by (simp add: world_inv_def f session_of_fields split: option.splits)
  show "last_trading_date w1 = last_trading_date w"
    by (simp add: f session_of_fields)
  show p: "current_position w1 = current_position w"
    by (simp add: f session_of_fields)
  show o: "orders w1 = orders w"
    by (simp add: f session_of_fields)
  show "balance w1 = balance w"
    by (simp add: balance_def net_bought_def open_count_def o p)
  show "daily_pivot_point w1 = daily_pivot_point w"
    by (simp add: f session_of_fields)
  show "daily_bias w1 = daily_bias w"
    by (simp add: f session_of_fields)
  show "executed_trades_count w1 = executed_trades_count w"
    by (simp add: f session_of_fields)
qed

lemma tick_inv:
  assumes inv: "world_inv w"
  shows "world_inv (caught (tick ob w))"
proof (cases rule: heartbeat_cases [of ob w])
  case raised
  then show ?thesis
    using inv by (simp add: tick_def caught_def)
next
  case (beaten w1)
  have "world_inv w1"
    using beaten_facts(1) [OF beaten(2)] inv by simp
  then show ?thesis
    using after_heartbeat_inv [of w1 ob] beaten(1) by (simp add: tick_def)
qed

lemma tick_same_day:
  assumes inv: "world_inv w" and day: "last_trading_date w = Some (ob_today ob)"
  shows "\<exists>w'. tick ob w = Inr w' \<and> day_step w w'"
proof (cases rule: heartbeat_cases [of ob w])
  case raised
  then show ?thesis
    using inv by (simp add: tick_def day_step_refl)
next
  case (beaten w1)
  note f = beaten_facts [OF beaten(2)]
  have s: "day_step w w1"
    using f inv by (simp add: day_step_def)
  have "world_inv w1" "last_trading_date w1 = Some (ob_today ob)"
    using f inv day by simp_all
  then obtain w' where "after_heartbeat ob w1 = Inr w'" "day_step w1 w'"
    using after_heartbeat_same_day by blast
  then show ?thesis
    using beaten(1) day_step_trans [OF s] by (simp add: tick_def)
qed

lemma iterations_inv: "world_inv w \<Longrightarrow> world_inv (caught (iterations obs w))"
proof (induction obs arbitrary: w)
  case Nil
  then show ?case
    by (simp add: caught_def)
next
  case (Cons ob obs)
  show ?case
  proof (cases "tick ob w")
    case (Inl e)
    then show ?thesis
      using tick_inv [OF Cons.prems, of ob] by (simp add: caught_def)
  next
    case (Inr w1)
    then have "world_inv w1"
      using tick_inv [OF Cons.prems, of ob] by (simp add: caught_def)
    then show ?thesis
      using Inr Cons.IH by simp
  qed
qed

lemma iterations_same_day:
  assumes "world_inv w" and "last_trading_date w = Some d" and "\<forall>ob \<in> set obs. ob_today ob = d"
  shows "\<exists>w'. iterations obs w = Inr w' \<and> day_step w w'"
  using assms
proof (induction obs arbitrary: w)
  case Nil
  then show ?case
    by (simp add: day_step_refl)
next
  case (Cons ob obs)
  obtain w1 where w1: "tick ob w = Inr w1" "day_step w w1"
    using tick_same_day [OF Cons.prems(1), of ob] Cons.prems(2,3) by auto
  have "world_inv w1" "last_trading_date w1 = Some d"
    using w1(2) Cons.prems(2) by (simp_all add: day_step_def)
  then obtain w' where "iterations obs w1 = Inr w'" "day_step w1 w'"
    using Cons.IH Cons.prems(3) by auto
  then show ?case
    using w1 day_step_trans by auto
qed

lemma world_inv_initial: "world_inv initial_world"
  by (simp add: world_inv_def initial_world_def MAX_DAILY_TRADES_def)

lemma world_inv_heartbeat:
  "world_inv (w\<lparr>last_heartbeat_timestamp := h\<rparr>) = world_inv w"
  by (simp add: world_inv_def split: option.splits)

lemma main_inv: "world_inv (caught (main ob0 start obs))"
proof (cases "reset_daily_state ob0 initial_world")
  case (Inl e)
  then show ?thesis
    using reset_daily_state_inv [OF world_inv_initial, of ob0] by (simp add: main_def caught_def)
next
  case (Inr w)
  then have "world_inv w"
    using reset_daily_state_inv [OF world_inv_initial, of ob0] by (simp add: caught_def)
  then show ?thesis
    using Inr iterations_inv [of "w\<lparr>last_heartbeat_timestamp := Some start\<rparr>" obs]
    by (simp add: main_def run_trading_loop_def world_inv_heartbeat)
qed

lemma world_inv_session_invariants: "world_inv w \<Longrightarrow> session_invariants w"
  by (auto simp: world_inv_def session_invariants_def split: option.splits)

section \<open>Pivot retry\<close>

lemma after_heartbeat_pivot_unavailable:
  "last_trading_date w = Some (ob_today ob) \<Longrightarrow> daily_pivot_point w = None \<Longrightarrow>
   after_heartbeat ob w = Inr w"
  by (simp add: after_heartbeat_def reset_daily_state_def)

lemma tick_pivot_stays_unavailable:
  assumes "last_trading_date w = Some (ob_today ob)" and "daily_pivot_point w = None"
  shows "\<exists>w'. tick ob w = Inr w' \<and> daily_pivot_point w' = None
    \<and> last_trading_date w' = last_trading_date w"
proof (cases rule: heartbeat_cases [of ob w])
  case raised
  then show ?thesis
    using assms by (simp add: tick_def)
next
  case (beaten w1)
  note f = beaten_facts [OF beaten(2)]
  have "after_heartbeat ob w1 = Inr w1"
    using assms f by (intro after_heartbeat_pivot_unavailable) simp_all
  then show ?thesis
    using beaten(1) f assms by (simp add: tick_def)
qed

lemma iterations_pivot_stays_unavailable:
  "\<forall>ob \<in> set obs. ob_today ob = d \<Longrightarrow> last_trading_date w = Some d \<Longrightarrow>
   daily_pivot_point w = None \<Longrightarrow>
   \<exists>w'. iterations obs w = Inr w' \<and> daily_pivot_point w' = None"
proof (induction obs arbitrary: w)
  case Nil
  then show ?case
    by simp
next
  case (Cons ob obs)
  obtain w1 where w1: "tick ob w = Inr w1" "daily_pivot_point w1 = None"
    "last_trading_date w1 = last_trading_date w"
    using tick_pivot_stays_unavailable [of w ob] Cons.prems by auto
  then show ?case
    using Cons.IH [of w1] Cons.prems by simp
qed

lemma tick_pivot_unavailable_quiet:
  assumes "last_trading_date w = Some (ob_today ob)" and "daily_pivot_point w = None"
    and "last_heartbeat_timestamp w = Some t" and "ob_datetime ob - t < HEARTBEAT_INTERVAL_SEC"
  shows "tick ob w = Inr w"
  using assms
  by (simp add: tick_def heartbeat_def after_heartbeat_pivot_unavailable)

lemma reset_without_completed_day:
  assumes "last_trading_date w \<noteq> Some (ob_today ob)" and "ob_instruments_loaded ob"
    and "fetch_and_calculate_pivot (ob_today ob) (ob_daily_candles ob) = None"
  shows "\<exists>w'. reset_daily_state ob w = Inr w' \<and> daily_pivot_point w' = None
    \<and> last_trading_date w' = Some (ob_today ob)"
  using assms by (simp add: reset_daily_state_def Let_def)

text \<open>
  Claim C5. On day 20000 the reset sees only today's candle, so the pivot is
  unavailable. The two later iterations of the loop on the same day, at 10:00 and 10:05,
  are offered the previous day's candle, from which the pivot would be 18500, but they
  leave the world as it was when the loop started: \<^verbatim>\<open>reset_daily_state\<close> returns at
  once because the date is already recorded, and nothing else computes a pivot.
\<close>

theorem pivot_not_retried_same_day:
  "main (example_obs\<lparr>ob_daily_candles := Candles [candle_of 1728000000 18700 18450 18600]\<rparr>)
        example_start [example_obs, example_obs_monitor]
     = main (example_obs\<lparr>ob_daily_candles := Candles [candle_of 1728000000 18700 18450 18600]\<rparr>)
        example_start []
   \<and> daily_pivot_point
       (caught (main (example_obs\<lparr>ob_daily_candles :=
                                     Candles [candle_of 1728000000 18700 18450 18600]\<rparr>)
                  example_start [example_obs, example_obs_monitor])) = None
   \<and> fetch_and_calculate_pivot (ob_today example_obs) (ob_daily_candles example_obs)
       = Some 18500
   \<and> fetch_and_calculate_pivot (ob_today example_obs_monitor)
        (ob_daily_candles example_obs_monitor) = Some 18500"
proof -
  let ?a = "example_obs\<lparr>ob_daily_candles := Candles [candle_of 1728000000 18700 18450 18600]\<rparr>"
  have none: "fetch_and_calculate_pivot (ob_today ?a) (ob_daily_candles ?a) = None"
    by (simp add: example_obs_def fetch_and_calculate_pivot_def candle_of_def candle_date_def)
  have "last_trading_date initial_world \<noteq> Some (ob_today ?a)" "ob_instruments_loaded ?a"
    by (simp_all add: initial_world_def example_obs_def)
  then obtain w where w: "reset_daily_state ?a initial_world = Inr w"
    "daily_pivot_point w = None" "last_trading_date w = Some (ob_today ?a)"
    using reset_without_completed_day [OF _ _ none] by blast
  let ?w0 = "w\<lparr>last_heartbeat_timestamp := Some example_start\<rparr>"
  have t1: "tick example_obs ?w0 = Inr ?w0"
    using w(2,3)
    by (intro tick_pivot_unavailable_quiet [of _ _ example_start])
       (simp_all add: example_obs_def example_start_def HEARTBEAT_INTERVAL_SEC_def)
  have t2: "tick example_obs_monitor ?w0 = Inr ?w0"
    using w(2,3)
    by (intro tick_pivot_unavailable_quiet [of _ _ example_start])
       (simp_all add: example_obs_monitor_def example_obs_def example_start_def
          HEARTBEAT_INTERVAL_SEC_def)
  have run: "iterations [example_obs, example_obs_monitor] ?w0 = Inr ?w0"
    by (simp add: t1 t2)
  have some: "fetch_and_calculate_pivot (ob_today example_obs) (ob_daily_candles example_obs)
      = Some 18500"
    by (simp add: example_obs_def fetch_and_calculate_pivot_def candle_of_def candle_date_def
          py_round_def fdiv_def fadd_def to_double_numeral round_half_even_numeral)
  then have some': "fetch_and_calculate_pivot (ob_today example_obs_monitor)
      (ob_daily_candles example_obs_monitor) = Some 18500"
    by (simp add: example_obs_monitor_def)
  show ?thesis
    using w run some some' by (simp add: main_def run_trading_loop_def caught_def)
qed

section \<open>The example day\<close>

lemma fetch_price_first_try_eval:
  assumes "opened_at (get_breaker b w) = None"
    and "valid_quote lo hi (answers ob 1) \<noteq> None"
  shows "fetch_price b tsym lo hi ob w
     = (valid_quote lo hi (answers ob 1), breaker_success b (emit (GetLtp tsym) w))"
  using assms fetch_price_first_try [of b w lo hi ob _ tsym] by auto

lemma example_reset:
  "reset_daily_state example_obs initial_world = Inr w \<Longrightarrow>
   daily_pivot_point w = Some 18500 \<and> last_trading_date w = Some 20000
   \<and> current_position w = None \<and> executed_trades_count w = 0 \<and> daily_bias w = None
   \<and> orders w = [] \<and> opened_at (spot_price_breaker w) = None
   \<and> opened_at (option_price_breaker w) = None"
  by (auto simp: reset_daily_state_def example_obs_def initial_world_def Let_def
        fetch_and_calculate_pivot_def candle_of_def candle_date_def py_round_def
        fdiv_def fadd_def to_double_numeral round_half_even_numeral breaker_success_def record_success_def emit_def orders_def)

lemma example_reset_ok: "\<exists>w. reset_daily_state example_obs initial_world = Inr w"
  by (simp add: reset_daily_state_def example_obs_def initial_world_def Let_def)

lemma example_entry:
  assumes "daily_pivot_point w = Some 18500" and "last_trading_date w = Some 20000"
    and "current_position w = None" and "executed_trades_count w = 0"
    and "daily_bias w = None" and "orders w = []"
    and "opened_at (spot_price_breaker w) = None"
    and "opened_at (option_price_breaker w) = None"
  shows "current_position (entry_logic example_obs 18500 w) = Some example_position
    \<and> executed_trades_count (entry_logic example_obs 18500 w) = 1
    \<and> daily_bias (entry_logic example_obs 18500 w) = Some ''BULLISH''
    \<and> orders (entry_logic example_obs 18500 w) = [PaperBuy ''NIFTY18500CE'' 65 100]
    \<and> current_trade (entry_logic example_obs 18500 w)
        = Some \<lparr>dt_entry_price = 100, dt_quantity = 65, dt_current_price = 100\<rparr>
    \<and> opened_at (option_price_breaker (entry_logic example_obs 18500 w)) = None
    \<and> last_trading_date (entry_logic example_obs 18500 w) = Some 20000
    \<and> daily_pivot_point (entry_logic example_obs 18500 w) = Some 18500
    \<and> in_trade (entry_logic example_obs 18500 w)
    \<and> last_heartbeat_timestamp (entry_logic example_obs 18500 w) = last_heartbeat_timestamp w"
proof -
  have t: "\<not> ob_time example_obs \<ge> ENTRY_CUTOFF" "\<not> ob_time example_obs < BIAS_CANDLE_END"
    by (simp_all add: example_obs_def ENTRY_CUTOFF_def BIAS_CANDLE_END_def hhmm_def)
  let ?w1 = "determine_daily_bias (ob_time example_obs) (ob_today example_obs)
               (ob_first_candles example_obs) w"
  have w1: "?w1 = w\<lparr>daily_bias := Some ''BULLISH'', bias_lock_date := Some 20000,
      bias_candle_data := Some \<lparr>cd_open = 18510, cd_high = 18520, cd_low = 18480,
                                cd_close = 18510\<rparr>\<rparr>"
    using assms(1,5) t(2)
    by (simp add: determine_daily_bias_def get_first_5min_candle_def example_obs_def
          candle_of_def Let_def)
  have v: "valid_quote MIN_SPOT_PRICE MAX_SPOT_PRICE (answers (ob_spot_quote example_obs) 1)
      = Some 18505"
    by (simp add: valid_quote_def example_obs_def quotes_def MIN_SPOT_PRICE_def
          MAX_SPOT_PRICE_def)
  have c1: "opened_at (get_breaker SpotBreaker ?w1) = None"
    using assms(7) by (simp add: w1)
  let ?w2 = "breaker_success SpotBreaker (emit (GetLtp ''NSE_NIFTY'') ?w1)"
  have f: "fetch_spot_price (ob_spot_quote example_obs) ?w1 = (Some 18505, ?w2)"
    using fetch_price_first_try [OF c1 v, of "''NSE_NIFTY''"]
    by (simp add: fetch_spot_price_def)
  have zone: "is_in_pivot_zone 18505 18500"
    by (simp add: is_in_pivot_zone_def PIVOT_BUFFER_POINTS_def)
  have b2: "daily_bias ?w2 = Some ''BULLISH''"
    by (simp add: w1 breaker_success_def emit_def)
  have b1: "daily_bias ?w1 = Some ''BULLISH''"
    by (simp add: w1)
  have o: "ob_nearest_expiry example_obs = Some 20006"
    "\<And>e s ty. ob_find_instrument example_obs e s ty
       = Some \<lparr>inst_symbol = ''NIFTY18500CE'', inst_segment = ''FNO''\<rparr>"
    "ob_entry_quote example_obs = quotes (Quote 100)"
    "ob_confirm_quote example_obs = quotes (Quote 100)"
    by (simp_all add: example_obs_def)
  have step: "entry_logic example_obs 18500 w
      = snd (enter_position (quotes (Quote 100)) (quotes (Quote 100)) ''CALL''
               ''NIFTY18500CE'' ''FNO'' 18500 ?w2)"
    using t zone b1 b2 by (simp add: entry_logic_def Let_def f o)
  have vq: "valid_quote MIN_OPTION_PRICE MAX_OPTION_PRICE (answers (quotes (Quote 100)) 1)
      = Some 100"
    by (simp add: valid_quote_def quotes_def MIN_OPTION_PRICE_def MAX_OPTION_PRICE_def)
  let ?w3 = "breaker_success OptionBreaker (emit (GetLtp ''NSE_NIFTY18500CE'') ?w2)"
  let ?w4 = "breaker_success OptionBreaker
               (emit (GetLtp ''NSE_NIFTY18500CE'') (emit (Sleep (1 / 2)) ?w3))"
  have c2: "opened_at (get_breaker OptionBreaker ?w2) = None"
    using assms(8) by (simp add: w1 breaker_success_def emit_def)
  have f1: "fetch_option_price (quotes (Quote 100)) ''NIFTY18500CE'' ''FNO'' ?w2
      = (Some 100, ?w3)"
    using fetch_price_first_try [OF c2 vq, of "''NSE_NIFTY18500CE''"]
    by (simp add: fetch_option_price_def)
  have c3: "opened_at (get_breaker OptionBreaker (emit (Sleep (1 / 2)) ?w3)) = None"
    by (simp add: emit_fields option_breaker_after_success)
  have f2: "fetch_option_price (quotes (Quote 100)) ''NIFTY18500CE'' ''FNO''
      (emit (Sleep (1 / 2)) ?w3) = (Some 100, ?w4)"
    using fetch_price_first_try [OF c3 vq, of "''NSE_NIFTY18500CE''"]
    by (simp add: fetch_option_price_def)
  have can: "can_enter_trade ?w2"
    using assms(3,4)
    by (simp add: can_enter_trade_def w1 breaker_success_def emit_def MAX_DAILY_TRADES_def)
  have ok: "\<not> entry_prices_invalid (Some 100) (Some 100)"
    by (simp add: entry_prices_invalid_def)
  note r = entry_at_100
  have e: "snd (enter_position (quotes (Quote 100)) (quotes (Quote 100)) ''CALL''
               ''NIFTY18500CE'' ''FNO'' 18500 ?w2)
      = enter_trade 100 65
          ((paper_buy ''NIFTY18500CE'' 65 100 ?w4)
             \<lparr>executed_trades_count :=
                executed_trades_count (paper_buy ''NIFTY18500CE'' 65 100 ?w4) + 1,
              current_position := Some example_position\<rparr>)"
    using can ok
    by (simp add: enter_position_def f1 f2 Let_def calculate_position_size_def r
          NIFTY_LOT_SIZE_def TRADE_LOTS_def example_position_def)
  have cnt: "executed_trades_count ?w4 = 0"
    using assms(4) by (simp add: w1 breaker_success_def emit_def)
  have ord: "orders ?w4 = []"
    using assms(6) by (simp add: w1 breaker_success_def emit_def orders_def)
  have b4: "daily_bias ?w4 = Some ''BULLISH''" "last_trading_date ?w4 = Some 20000"
    "daily_pivot_point ?w4 = Some 18500"
    "last_heartbeat_timestamp ?w4 = last_heartbeat_timestamp w"
    using assms(1,2) by (simp_all add: w1 breaker_success_def emit_def)
  show ?thesis
    unfolding step e
    using cnt ord b4
    by (simp add: enter_trade_def paper_buy_def emit_fields orders_def
          option_breaker_after_success)
qed

lemma example_open_world_facts:
  "main example_obs example_start [example_obs] = Inr example_open_world"
  "current_position example_open_world = Some example_position"
  "executed_trades_count example_open_world = 1"
  "daily_bias example_open_world = Some ''BULLISH''"
  "orders example_open_world = [PaperBuy ''NIFTY18500CE'' 65 100]"
  "current_trade example_open_world
     = Some \<lparr>dt_entry_price = 100, dt_quantity = 65, dt_current_price = 100\<rparr>"
  "opened_at (option_price_breaker example_open_world) = None"
  "last_trading_date example_open_world = Some 20000"
  "daily_pivot_point example_open_world = Some 18500"
  "in_trade example_open_world"
  "world_inv example_open_world"
  "last_heartbeat_timestamp example_open_world = Some example_start"
proof -
  obtain r where r: "reset_daily_state example_obs initial_world = Inr r"
    using example_reset_ok by blast
  let ?r = "r\<lparr>last_heartbeat_timestamp := Some example_start\<rparr>"
  note f = example_reset [OF r]
  have g: "daily_pivot_point ?r = Some 18500" "last_trading_date ?r = Some 20000"
    "current_position ?r = None" "executed_trades_count ?r = 0" "daily_bias ?r = None"
    "orders ?r = []" "opened_at (spot_price_breaker ?r) = None"
    "opened_at (option_price_breaker ?r) = None"
    using f by (simp_all add: orders_def)
  have h: "heartbeat example_obs ?r = Inr ?r"
    by (simp add: heartbeat_def example_obs_def example_start_def HEARTBEAT_INTERVAL_SEC_def)
  have a: "after_heartbeat example_obs ?r = Inr (entry_logic example_obs 18500 ?r)"
    using g(1,2,3)
    by (simp add: after_heartbeat_def reset_daily_state_def) (simp add: example_obs_def)
  have t: "tick example_obs ?r = Inr (entry_logic example_obs 18500 ?r)"
    by (simp add: tick_def h a)
  have m: "main example_obs example_start [example_obs]
      = Inr (entry_logic example_obs 18500 ?r)"
    by (simp add: main_def run_trading_loop_def r t)
  then have w: "example_open_world = entry_logic example_obs 18500 ?r"
    by (simp add: example_open_world_def caught_def)
  note e = example_entry [OF g]
  show "main example_obs example_start [example_obs] = Inr example_open_world"
    using m w by simp
  show "current_position example_open_world = Some example_position"
    using e by (simp add: w)
  show "executed_trades_count example_open_world = 1"
    using e by (simp add: w)
  show "daily_bias example_open_world = Some ''BULLISH''"
    using e by (simp add: w)
  show "orders example_open_world = [PaperBuy ''NIFTY18500CE'' 65 100]"
    using e by (simp add: w)
  show "current_trade example_open_world
     = Some \<lparr>dt_entry_price = 100, dt_quantity = 65, dt_current_price = 100\<rparr>"
    using e by (simp add: w)
  show "opened_at (option_price_breaker example_open_world) = None"
    using e by (simp add: w)
  show "last_trading_date example_open_world = Some 20000"
    using e by (simp add: w)
  show "daily_pivot_point example_open_world = Some 18500"
    using e by (simp add: w)
  show "in_trade example_open_world"
    using e by (simp add: w)
  show "world_inv example_open_world"
    unfolding example_open_world_def by (rule main_inv)
  show "last_heartbeat_timestamp example_open_world = Some example_start"
    using e by (simp add: w)
qed

lemma example_monitoring_read:
  assumes "current_position w = Some example_position"
    and "opened_at (option_price_breaker w) = None"
  shows "fetch_option_price (quotes (Quote 105)) (symbol example_position)
           (segment example_position) w
     = (Some 105, breaker_success OptionBreaker (emit (GetLtp ''NSE_NIFTY18500CE'') w))"
proof -
  have v: "valid_quote MIN_OPTION_PRICE MAX_OPTION_PRICE (answers (quotes (Quote 105)) 1)
      = Some 105"
    by (simp add: valid_quote_def quotes_def MIN_OPTION_PRICE_def MAX_OPTION_PRICE_def)
  have c: "opened_at (get_breaker OptionBreaker w) = None"
    using assms(2) by simp
  show ?thesis
    using fetch_price_first_try [OF c v, of "''NSE_NIFTY18500CE''"]
    by (simp add: fetch_option_price_def example_position_def)
qed

lemma example_monitored_world_facts:
  "tick example_obs_monitor example_open_world = Inr example_monitored_world"
  "current_position example_monitored_world = Some example_position"
  "current_trade example_monitored_world
     = Some \<lparr>dt_entry_price = 100, dt_quantity = 65, dt_current_price = 105\<rparr>"
  "orders example_monitored_world = [PaperBuy ''NIFTY18500CE'' 65 100]"
  "opened_at (option_price_breaker example_monitored_world) = None"
  "last_trading_date example_monitored_world = Some 20000"
  "world_inv example_monitored_world"
  "last_heartbeat_timestamp example_monitored_world = Some example_start"
proof -
  let ?W = "example_open_world"
  let ?ob = "example_obs_monitor"
  note W = example_open_world_facts
  let ?w1 = "breaker_success OptionBreaker (emit (GetLtp ''NSE_NIFTY18500CE'') ?W)"
  let ?w2 = "?w1\<lparr>current_trade :=
                 Some \<lparr>dt_entry_price = 100, dt_quantity = 65, dt_current_price = 105\<rparr>\<rparr>"
  let ?w3 = "breaker_success OptionBreaker (emit (GetLtp ''NSE_NIFTY18500CE'') ?w2)"
  let ?w4 = "?w3\<lparr>current_trade :=
                 Some \<lparr>dt_entry_price = 100, dt_quantity = 65, dt_current_price = 105\<rparr>\<rparr>"
  have f1: "fetch_option_price (quotes (Quote 105)) (symbol example_position)
      (segment example_position) ?W = (Some 105, ?w1)"
    using example_monitoring_read [OF W(2) W(7)] .
  have u1: "update_trade_price 105 ?w1 = Inr ?w2"
    using W(6,10)
    by (simp add: update_trade_price_def breaker_success_def emit_def Let_def)
  have sl: "check_stop_loss (quotes (Quote 105)) ?W = Inr ?w2"
    using W(2) by (simp add: check_stop_loss_def f1 u1) (simp add: example_position_def)
  have p2: "current_position ?w2 = Some example_position"
    using W(2) by (simp add: breaker_success_def emit_def)
  have c2: "opened_at (option_price_breaker ?w2) = None"
    by (simp add: breaker_success_def emit_def record_success_def)
  have f2: "fetch_option_price (quotes (Quote 105)) (symbol example_position)
      (segment example_position) ?w2 = (Some 105, ?w3)"
    using example_monitoring_read [OF p2 c2] .
  have u2: "update_trade_price 105 ?w3 = Inr ?w4"
    using W(10)
    by (simp add: update_trade_price_def breaker_success_def emit_def Let_def)
  have pt: "check_profit_target (quotes (Quote 105)) ?w2 = Inr ?w4"
    using p2 by (simp add: check_profit_target_def f2 u2) (simp add: example_position_def)
  have t: "\<not> ob_time ?ob \<ge> EOD_EXIT"
    by (simp add: example_obs_monitor_def example_obs_def EOD_EXIT_def hhmm_def)
  have q: "ob_stop_quote ?ob = quotes (Quote 105)" "ob_target_quote ?ob = quotes (Quote 105)"
    "ob_trading_day ?ob" "ob_today ?ob = 20000"
    by (simp_all add: example_obs_monitor_def example_obs_def)
  have h: "heartbeat ?ob ?W = Inr ?W"
    using W(12)
    by (simp add: heartbeat_def example_obs_monitor_def example_obs_def example_start_def
          HEARTBEAT_INTERVAL_SEC_def)
  have m: "manage_position ?ob ?W = ?w4"
    using t p2 by (simp add: manage_position_def q sl pt caught_def)
  have tk: "tick ?ob ?W = Inr ?w4"
    using W(2,8,9) by (simp add: tick_def h after_heartbeat_def reset_daily_state_def q m)
  then have eq: "example_monitored_world = ?w4"
    by (simp add: example_monitored_world_def caught_def)
  show "tick ?ob ?W = Inr example_monitored_world"
    using tk eq by simp
  show "current_position example_monitored_world = Some example_position"
    using W(2) by (simp add: eq breaker_success_def emit_def)
  show "current_trade example_monitored_world
     = Some \<lparr>dt_entry_price = 100, dt_quantity = 65, dt_current_price = 105\<rparr>"
    by (simp add: eq)
  show "orders example_monitored_world = [PaperBuy ''NIFTY18500CE'' 65 100]"
    using W(5) by (simp add: eq orders_def breaker_success_def emit_def)
  show "opened_at (option_price_breaker example_monitored_world) = None"
    by (simp add: eq breaker_success_def emit_def record_success_def)
  show "last_trading_date example_monitored_world = Some 20000"
    using W(8) by (simp add: eq breaker_success_def emit_def)
  show "world_inv example_monitored_world"
    unfolding example_monitored_world_def using W(11) by (rule tick_inv)
  show "last_heartbeat_timestamp example_monitored_world = Some example_start"
    using W(12) by (simp add: eq breaker_success_def emit_def)
qed

section \<open>Forced exit at the end of the day\<close>

lemma eod_quote_unavailable:
  assumes "opened_at (option_price_breaker w) = None"
  shows "fst (fetch_option_price (quotes ApiRaises) tsym seg w) = None"
proof -
  have "\<forall>i. valid_quote MIN_OPTION_PRICE MAX_OPTION_PRICE (answers (quotes ApiRaises) i) = None"
    by (simp add: valid_quote_def quotes_def)
  moreover have "opened_at (get_breaker OptionBreaker w) = None"
    using assms by simp
  ultimately show ?thesis
    using fetch_price_all_fail [of OptionBreaker w MIN_OPTION_PRICE MAX_OPTION_PRICE
            "quotes ApiRaises" "''NSE_'' @ tsym"]
    by (simp add: fetch_option_price_def)
qed

text \<open>
  Once the heartbeat timestamp is \<^verbatim>\<open>None\<close>, every iteration raises at line 327, is
  caught by the loop's handler, and leaves the globals as they are.
\<close>

lemma tick_without_heartbeat: "last_heartbeat_timestamp w = None \<Longrightarrow> tick ob w = Inr w"
  by (simp add: tick_def heartbeat_def)

lemma iterations_without_heartbeat:
  "last_heartbeat_timestamp w = None \<Longrightarrow> iterations obs w = Inr w"
  by (induction obs) (simp_all add: tick_without_heartbeat)

text \<open>A daily reset that finds a new date leaves the heartbeat timestamp \<^verbatim>\<open>None\<close>.\<close>

lemma reset_clears_heartbeat:
  assumes "reset_daily_state ob w = Inr r" and "last_trading_date w \<noteq> Some (ob_today ob)"
  shows "last_heartbeat_timestamp r = None"
  using assms
  by (auto simp: reset_daily_state_def Let_def breaker_success_def emit_def
        split: if_splits option.splits)

lemma tick_at_eod:
  assumes inv: "world_inv w" and pos: "current_position w = Some p"
    and td: "ob_trading_day ob" and day: "last_trading_date w = Some (ob_today ob)"
    and eod: "EOD_EXIT \<le> ob_time ob" and hb: "last_heartbeat_timestamp w \<noteq> None"
  shows "\<exists>w'. tick ob w = Inr w' \<and> current_position w' = None
    \<and> orders w' = orders w @
        [PaperSell (symbol p) (quantity p)
           (case fst (fetch_option_price (ob_eod_quote ob) (symbol p) (segment p)
                        (caught (heartbeat ob w))) of
              None \<Rightarrow> entry_price p | Some price \<Rightarrow> price)
           ''EOD_EXIT'']"
proof (cases rule: heartbeat_cases [of ob w])
  case raised
  then show ?thesis
    using hb by simp
next
  case (beaten w1)
  note f = beaten_facts [OF beaten(2)]
  have inv1: "world_inv w1" and pos1: "current_position w1 = Some p"
    using f inv pos by simp_all
  obtain pp where pp: "daily_pivot_point w1 = Some pp"
    using inv1 pos1 by (auto simp: world_inv_def)
  have "after_heartbeat ob w1 = Inr (caught (force_eod_exit (ob_eod_quote ob) w1))"
    using td day eod pos1 pp f(2)
    by (simp add: after_heartbeat_def reset_daily_state_def manage_position_def)
  then have "tick ob w = Inr (caught (force_eod_exit (ob_eod_quote ob) w1))"
    by (simp add: tick_def beaten(1))
  then show ?thesis
    using force_eod_exit_step [OF inv1 pos1, of "ob_eod_quote ob"] f(5) beaten(1)
    by (auto simp: caught_def)
qed

text \<open>
  While the heartbeat timestamp is set, an iteration of a trading day whose date is the
  one the last reset recorded and whose clock has reached the end-of-day cutoff ends
  with the position cleared and exactly one new order, the sale of the whole position
  with reason EOD_EXIT, at the fresh quote when there is one and at the position's entry
  price when there is none. What the stop-loss and profit-target reads would have seen
  does not matter: those checks are not made on that iteration.
\<close>

lemma eod_exit_before_other_checks:
  assumes "main ob0 start obs = Inr w"
    and "current_position w = Some p"
    and "last_heartbeat_timestamp w \<noteq> None"
    and "ob_trading_day ob"
    and "last_trading_date w = Some (ob_today ob)"
    and "EOD_EXIT \<le> ob_time ob"
  shows "\<exists>w'. tick ob w = Inr w' \<and> current_position w' = None
    \<and> orders w' = orders w @
        [PaperSell (symbol p) (quantity p)
           (case fst (fetch_option_price (ob_eod_quote ob) (symbol p) (segment p)
                        (caught (heartbeat ob w))) of
              None \<Rightarrow> entry_price p | Some price \<Rightarrow> price)
           ''EOD_EXIT'']
    \<and> tick (ob\<lparr>ob_stop_quote := q1, ob_target_quote := q2\<rparr>) w = tick ob w"
proof -
  have inv: "world_inv w"
    using main_inv [of ob0 start obs] assms(1) by (simp add: caught_def)
  have h: "heartbeat (ob\<lparr>ob_stop_quote := q1, ob_target_quote := q2\<rparr>) w = heartbeat ob w"
    by (simp add: heartbeat_def split: option.splits)
  have same: "tick (ob\<lparr>ob_stop_quote := q1, ob_target_quote := q2\<rparr>) w = tick ob w"
  proof (cases rule: heartbeat_cases [of ob w])
    case raised
    then show ?thesis
      by (simp add: tick_def h)
  next
    case (beaten w1)
    note f = beaten_facts [OF beaten(2)]
    have "current_position w1 = Some p" "last_trading_date w1 = Some (ob_today ob)"
      using f assms(2,5) by simp_all
    then have "after_heartbeat (ob\<lparr>ob_stop_quote := q1, ob_target_quote := q2\<rparr>) w1
        = after_heartbeat ob w1"
      using assms(4,6)
      by (simp add: after_heartbeat_def reset_daily_state_def manage_position_def
            split: option.splits)
    then show ?thesis
      by (simp add: tick_def h beaten(1))
  qed
  show ?thesis
    using tick_at_eod [OF inv assms(2,4,5,6,3)] same by auto
qed

lemma example_eod_tick:
  assumes "world_inv w" and "current_position w = Some example_position"
    and "last_trading_date w = Some 20000"
    and "last_heartbeat_timestamp w = Some example_start"
    and "opened_at (option_price_breaker w) = None"
  shows "ob_trading_day example_obs_eod" and "last_trading_date w = Some (ob_today example_obs_eod)"
    and "EOD_EXIT \<le> ob_time example_obs_eod"
    and "fst (fetch_option_price (ob_eod_quote example_obs_eod) tsym seg
                (caught (heartbeat example_obs_eod w))) = None"
proof -
  show "ob_trading_day example_obs_eod"
    by (simp add: example_obs_eod_def example_obs_def)
  show "last_trading_date w = Some (ob_today example_obs_eod)"
    using assms(3) by (simp add: example_obs_eod_def example_obs_def)
  show "EOD_EXIT \<le> ob_time example_obs_eod"
    by (simp add: example_obs_eod_def EOD_EXIT_def)
  have "opened_at (option_price_breaker (caught (heartbeat example_obs_eod w))) = None"
    using assms(4,5) by (simp add: heartbeat_def caught_def)
  then show "fst (fetch_option_price (ob_eod_quote example_obs_eod) tsym seg
                (caught (heartbeat example_obs_eod w))) = None"
    using eod_quote_unavailable by (simp add: example_obs_eod_def example_obs_def)
qed

lemma example_eod_exit:
  "main example_obs example_start [example_obs] = Inr example_open_world
   \<and> current_position example_open_world = Some example_position
   \<and> last_heartbeat_timestamp example_open_world \<noteq> None
   \<and> ob_trading_day example_obs_eod
   \<and> last_trading_date example_open_world = Some (ob_today example_obs_eod)
   \<and> EOD_EXIT \<le> ob_time example_obs_eod
   \<and> (\<exists>w'. tick example_obs_eod example_open_world = Inr w'
         \<and> current_position w' = None
         \<and> orders w' = [PaperBuy ''NIFTY18500CE'' 65 100,
                         PaperSell ''NIFTY18500CE'' 65 100 ''EOD_EXIT''])"
proof -
  note W = example_open_world_facts
  note e = example_eod_tick [OF W(11) W(2) W(8) W(12) W(7)]
  have hb: "last_heartbeat_timestamp example_open_world \<noteq> None"
    using W(12) by simp
  have p: "symbol example_position = ''NIFTY18500CE''" "quantity example_position = 65"
    "entry_price example_position = 100"
    by (simp_all add: example_position_def)
  obtain w' where w': "tick example_obs_eod example_open_world = Inr w'"
    "current_position w' = None"
    "orders w' = [PaperBuy ''NIFTY18500CE'' 65 100,
                  PaperSell ''NIFTY18500CE'' 65 100 ''EOD_EXIT'']"
    using eod_exit_before_other_checks [OF W(1) W(2) hb e(1) e(2) e(3),
            of "quotes (Quote 105)" "quotes (Quote 105)"] W(5)
    by (auto simp: e(4) p)
  show ?thesis
    using w' W(1,2) hb e(1,2,3) by blast
qed

lemma example_reset_in_loop:
  assumes "last_trading_date w \<noteq> Some 20000" and "orders w = []"
  shows "\<exists>r. reset_daily_state example_obs w = Inr r
    \<and> daily_pivot_point r = Some 18500 \<and> last_trading_date r = Some 20000
    \<and> current_position r = None \<and> executed_trades_count r = 0 \<and> daily_bias r = None
    \<and> orders r = [] \<and> opened_at (spot_price_breaker r) = None
    \<and> opened_at (option_price_breaker r) = None \<and> last_heartbeat_timestamp r = None"
  using assms
  by (auto simp: reset_daily_state_def example_obs_def Let_def
        fetch_and_calculate_pivot_def candle_of_def candle_date_def py_round_def
        fdiv_def fadd_def to_double_numeral round_half_even_numeral breaker_success_def record_success_def emit_def orders_def)

lemma example_overnight_world_facts:
  "main example_obs_eve example_start_eve [example_obs] = Inr example_overnight_world"
  "tick example_obs_eod example_overnight_world = Inr example_overnight_world"
  "current_position example_overnight_world = Some example_position"
  "orders example_overnight_world = [PaperBuy ''NIFTY18500CE'' 65 100]"
  "last_trading_date example_overnight_world = Some 20000"
  "last_heartbeat_timestamp example_overnight_world = None"
proof -
  obtain r0 where r0: "reset_daily_state example_obs_eve initial_world = Inr r0"
    "last_trading_date r0 = Some 19999" "orders r0 = []"
    by (simp add: reset_daily_state_def example_obs_eve_def example_obs_def initial_world_def
          Let_def breaker_success_def emit_def orders_def)
  let ?w0 = "r0\<lparr>last_heartbeat_timestamp := Some example_start_eve\<rparr>"
  let ?w1 = "r0\<lparr>last_heartbeat_timestamp := Some (ob_datetime example_obs)\<rparr>"
  have h: "heartbeat example_obs ?w0 = Inr ?w1"
    by (simp add: heartbeat_def example_obs_def example_start_eve_def
          HEARTBEAT_INTERVAL_SEC_def)
  have "last_trading_date ?w1 \<noteq> Some 20000" "orders ?w1 = []"
    using r0(2,3) by (simp_all add: orders_def)
  then obtain r where r: "reset_daily_state example_obs ?w1 = Inr r"
    "daily_pivot_point r = Some 18500" "last_trading_date r = Some 20000"
    "current_position r = None" "executed_trades_count r = 0" "daily_bias r = None"
    "orders r = []" "opened_at (spot_price_breaker r) = None"
    "opened_at (option_price_breaker r) = None" "last_heartbeat_timestamp r = None"
    using example_reset_in_loop [of ?w1] by blast
  let ?W = "entry_logic example_obs 18500 r"
  note e = example_entry [OF r(2-9)]
  have a: "after_heartbeat example_obs ?w1 = Inr ?W"
    using r(1,2,4) by (simp add: after_heartbeat_def) (simp add: example_obs_def)
  have t1: "tick example_obs ?w0 = Inr ?W"
    by (simp add: tick_def h a)
  have hb: "last_heartbeat_timestamp ?W = None"
    using e r(10) by simp
  have t2: "tick example_obs_eod ?W = Inr ?W"
    using hb by (rule tick_without_heartbeat)
  have m1: "main example_obs_eve example_start_eve [example_obs] = Inr ?W"
    by (simp add: main_def run_trading_loop_def r0(1) t1)
  have w: "example_overnight_world = ?W"
    using m1 by (simp add: example_overnight_world_def caught_def)
  show "main example_obs_eve example_start_eve [example_obs] = Inr example_overnight_world"
    using m1 w by simp
  show "tick example_obs_eod example_overnight_world = Inr example_overnight_world"
    using t2 w by simp
  show "current_position example_overnight_world = Some example_position"
    using e by (simp add: w)
  show "orders example_overnight_world = [PaperBuy ''NIFTY18500CE'' 65 100]"
    using e by (simp add: w)
  show "last_trading_date example_overnight_world = Some 20000"
    using e by (simp add: w)
  show "last_heartbeat_timestamp example_overnight_world = None"
    using hb by (simp add: w)
qed

text \<open>
  Where the forced exit runs and no fresh quote is available, the exit price is the
  position's entry price, as line 283 says. On the example day the position is entered
  at 100, the monitoring reads at 10:05 obtain 105 (which the dashboard records as the
  current price of the trade), and at 15:20 the position is sold at 100.
\<close>

lemma eod_exit_at_entry_price:
  "main example_obs example_start [example_obs, example_obs_monitor]
     = Inr example_monitored_world
   \<and> current_position example_monitored_world = Some example_position
   \<and> current_trade example_monitored_world
       = Some \<lparr>dt_entry_price = 100, dt_quantity = 65, dt_current_price = 105\<rparr>
   \<and> fst (fetch_option_price (ob_eod_quote example_obs_eod)
            (symbol example_position) (segment example_position)
            (caught (heartbeat example_obs_eod example_monitored_world)))
       = None
   \<and> orders (caught (tick example_obs_eod example_monitored_world))
       = [PaperBuy ''NIFTY18500CE'' 65 100, PaperSell ''NIFTY18500CE'' 65 100 ''EOD_EXIT'']"
proof -
  note W = example_open_world_facts
  note M = example_monitored_world_facts
  have run: "main example_obs example_start [example_obs, example_obs_monitor]
     = Inr example_monitored_world"
    using W(1) M(1) by (auto simp: main_def run_trading_loop_def split: sum.splits)
  note e = example_eod_tick [OF M(7) M(2) M(6) M(8) M(5)]
  have hb: "last_heartbeat_timestamp example_monitored_world \<noteq> None"
    using M(8) by simp
  have p: "symbol example_position = ''NIFTY18500CE''" "quantity example_position = 65"
    "entry_price example_position = 100"
    by (simp_all add: example_position_def)
  obtain w' where w': "tick example_obs_eod example_monitored_world = Inr w'"
    "orders w'
       = [PaperBuy ''NIFTY18500CE'' 65 100, PaperSell ''NIFTY18500CE'' 65 100 ''EOD_EXIT'']"
    using tick_at_eod [OF M(7) M(2) e(1) e(2) e(3) hb] M(4)
    by (auto simp: e(4) p)
  have o: "orders (caught (tick example_obs_eod example_monitored_world))
       = [PaperBuy ''NIFTY18500CE'' 65 100, PaperSell ''NIFTY18500CE'' 65 100 ''EOD_EXIT'']"
    using w' by (simp add: caught_def)
  show ?thesis
    using run M(2,3) e(4) o by simp
qed

text \<open>
  A position that is still open when the date changes is not sold either: the daily
  reset of the next trading day sets \<^verbatim>\<open>current_position = None\<close> (part2, line 50). From
  the world with the position of day 20000 open, an iteration at 15:20 of day 20001
  ends with no position and with no order but the purchase.
\<close>

lemma carried_position_dropped:
  "current_position example_open_world = Some example_position
   \<and> EOD_EXIT \<le> ob_time example_obs_next_eod
   \<and> (\<exists>w'. tick example_obs_next_eod example_open_world = Inr w'
         \<and> current_position w' = None
         \<and> orders w' = [PaperBuy ''NIFTY18500CE'' 65 100]
         \<and> last_heartbeat_timestamp w' = None)"
proof -
  note W = example_open_world_facts
  let ?w1 = "example_open_world\<lparr>last_heartbeat_timestamp := Some 1728121800\<rparr>"
  have h: "heartbeat example_obs_next_eod example_open_world = Inr ?w1"
    using W(12)
    by (simp add: heartbeat_def example_obs_next_eod_def example_obs_eod_def example_start_def
          HEARTBEAT_INTERVAL_SEC_def)
  have o1: "orders ?w1 = [PaperBuy ''NIFTY18500CE'' 65 100]"
    using W(5) by (simp add: orders_def)
  have d1: "last_trading_date ?w1 \<noteq> Some (ob_today example_obs_next_eod)"
    using W(8) by (simp add: example_obs_next_eod_def)
  obtain r where r: "reset_daily_state example_obs_next_eod ?w1 = Inr r"
    "daily_pivot_point r = Some 18500" "current_position r = None"
    "orders r = [PaperBuy ''NIFTY18500CE'' 65 100]"
    using o1 d1
    by (auto simp: reset_daily_state_def example_obs_next_eod_def example_obs_eod_def
          example_obs_def Let_def fetch_and_calculate_pivot_def candle_of_def candle_date_def
          py_round_def fdiv_def fadd_def to_double_numeral round_half_even_numeral
          breaker_success_def record_success_def emit_def orders_def)
  have hb: "last_heartbeat_timestamp r = None"
    using reset_clears_heartbeat [OF r(1) d1] .
  have late: "ENTRY_CUTOFF \<le> ob_time example_obs_next_eod"
    by (simp add: example_obs_next_eod_def example_obs_eod_def ENTRY_CUTOFF_def)
  have td: "ob_trading_day example_obs_next_eod"
    by (simp add: example_obs_next_eod_def example_obs_eod_def example_obs_def)
  have "after_heartbeat example_obs_next_eod ?w1 = Inr r"
    using r(1,2,3) late td by (simp add: after_heartbeat_def entry_logic_def)
  then have t: "tick example_obs_next_eod example_open_world = Inr r"
    by (simp add: tick_def h)
  have eod: "EOD_EXIT \<le> ob_time example_obs_next_eod"
    by (simp add: example_obs_next_eod_def example_obs_eod_def EOD_EXIT_def)
  show ?thesis
    using W(2) eod t r(3,4) hb by simp
qed

text \<open>
  Claim C3. The process is started at 16:00 of day 19999 and runs next at 10:00 of day
  20000, a trading day: that iteration performs the daily reset, which sets the
  heartbeat timestamp to \<^verbatim>\<open>None\<close>, and enters a position. At the iteration of 15:20
  of the same day the position is open and the clock has reached the end-of-day cutoff,
  but the iteration raises \<^verbatim>\<open>TypeError\<close> in the heartbeat lines, which the loop's
  handler catches: the globals are unchanged, the position is still open, and no order
  has been placed but the purchase. Whatever the later iterations see, they end in the
  same way.
\<close>

theorem forced_eod_exit_missed:
  "main example_obs_eve example_start_eve [example_obs] = Inr example_overnight_world
   \<and> current_position example_overnight_world = Some example_position
   \<and> ob_trading_day example_obs_eod
   \<and> last_trading_date example_overnight_world = Some (ob_today example_obs_eod)
   \<and> EOD_EXIT \<le> ob_time example_obs_eod
   \<and> heartbeat example_obs_eod example_overnight_world
       = Inl (TypeError, example_overnight_world)
   \<and> tick example_obs_eod example_overnight_world = Inr example_overnight_world
   \<and> main example_obs_eve example_start_eve [example_obs, example_obs_eod]
       = Inr example_overnight_world
   \<and> orders example_overnight_world = [PaperBuy ''NIFTY18500CE'' 65 100]
   \<and> (\<forall>obs. iterations obs example_overnight_world = Inr example_overnight_world)"
proof -
  note N = example_overnight_world_facts
  have later: "\<forall>obs. iterations obs example_overnight_world = Inr example_overnight_world"
    using iterations_without_heartbeat [OF N(6)] by simp
  have d: "last_trading_date example_overnight_world = Some (ob_today example_obs_eod)"
    using N(5) by (simp add: example_obs_eod_def example_obs_def)
  have td: "ob_trading_day example_obs_eod"
    by (simp add: example_obs_eod_def example_obs_def)
  have eod: "EOD_EXIT \<le> ob_time example_obs_eod"
    by (simp add: example_obs_eod_def EOD_EXIT_def)
  have h: "heartbeat example_obs_eod example_overnight_world
      = Inl (TypeError, example_overnight_world)"
    using N(6) by (simp add: heartbeat_def)
  have m: "main example_obs_eve example_start_eve [example_obs, example_obs_eod]
      = Inr example_overnight_world"
    using N(1,2) by (auto simp: main_def run_trading_loop_def split: sum.splits)
  show ?thesis
    using N(1,3,4) d td eod h N(2) m later by simp
qed
section \<open>Session invariants\<close>

text \<open>
  Claim C1. In every world that \<^verbatim>\<open>main\<close> reaches after any number of iterations
  (also the world in which the process ends), the number of executed trades is at most
  \<open>MAX_DAILY_TRADES\<close>, an open position implies at least one executed trade, and the
  direction of the open position is CALL when the bias is BULLISH and PUT when it is
  BEARISH. From such a world, any further iterations on the date of the last reset run
  to the end, keep these invariants, and change the number of buy orders minus sell
  orders by exactly the change of the number of open positions, which is 0 or 1: no
  position is opened while one is open.
\<close>

theorem session_invariants_hold:
  "session_invariants (caught (main ob0 start obs))
   \<and> (last_trading_date (caught (main ob0 start obs)) = Some d \<longrightarrow>
      (\<forall>ob \<in> set later. ob_today ob = d) \<longrightarrow>
        (\<exists>w'. iterations later (caught (main ob0 start obs)) = Inr w'
           \<and> session_invariants w'
           \<and> net_bought w' - net_bought (caught (main ob0 start obs))
               = open_count w' - open_count (caught (main ob0 start obs))
           \<and> 0 \<le> open_count w' \<and> open_count w' \<le> 1))"
proof -
  let ?W = "caught (main ob0 start obs)"
  have inv: "world_inv ?W"
    by (rule main_inv)
  have "\<exists>w'. iterations later ?W = Inr w' \<and> session_invariants w'
           \<and> net_bought w' - net_bought ?W = open_count w' - open_count ?W
           \<and> 0 \<le> open_count w' \<and> open_count w' \<le> 1"
    if day: "last_trading_date ?W = Some d" and same: "\<forall>ob \<in> set later. ob_today ob = d"
  proof -
    obtain w' where w': "iterations later ?W = Inr w'" "day_step ?W w'"
      using iterations_same_day [OF inv day same] by blast
    have "session_invariants w'"
      using w'(2) by (simp add: day_step_def world_inv_session_invariants)
    moreover have "net_bought w' - net_bought ?W = open_count w' - open_count ?W"
      using w'(2) by (simp add: day_step_def balance_def)
    moreover have "0 \<le> open_count w' \<and> open_count w' \<le> 1"
      by (simp add: open_count_def)
    ultimately show ?thesis
      using w'(1) by blast
  qed
  then show ?thesis
    using world_inv_session_invariants [OF inv] by blast
qed

theorem session_invariants_hold_witness:
  "session_invariants example_open_world
   \<and> current_position example_open_world = Some example_position
   \<and> executed_trades_count example_open_world = 1
   \<and> daily_bias example_open_world = Some ''BULLISH''
   \<and> direction example_position = ''CALL''
   \<and> last_trading_date example_open_world = Some 20000
   \<and> (\<exists>w'. iterations [example_obs_monitor] example_open_world = Inr w'
         \<and> session_invariants w'
         \<and> net_bought w' - net_bought example_open_world = 0
         \<and> open_count w' = 1)"
proof -
  note W = example_open_world_facts
  note M = example_monitored_world_facts
  have d: "\<forall>ob \<in> set [example_obs_monitor]. ob_today ob = 20000"
    by (simp add: example_obs_monitor_def example_obs_def)
  have w: "caught (main example_obs example_start [example_obs]) = example_open_world"
    by (simp add: example_open_world_def)
  note t = session_invariants_hold
    [of example_obs example_start "[example_obs]" 20000 "[example_obs_monitor]"]
  have o: "open_count example_open_world = 1" "open_count example_monitored_world = 1"
    using W(2) M(2) by (simp_all add: open_count_def)
  have run: "iterations [example_obs_monitor] example_open_world
      = Inr example_monitored_world"
    using M(1) by simp
  have 1: "session_invariants example_open_world"
    using t by (simp add: w)
  have 2: "session_invariants example_monitored_world
         \<and> net_bought example_monitored_world - net_bought example_open_world = 0"
    using t W(8) d by (auto simp: w M(1) o)
  have "direction example_position = ''CALL''"
    by (simp add: example_position_def)
  then show ?thesis
    using 1 2 W(2,3,4,8) run o(2) by simp
qed

section \<open>Price ranges\<close>

text \<open>
  Claim C10. A price that \<open>fetch_spot_price\<close> returns lies in
  \<open>[MIN_SPOT_PRICE, MAX_SPOT_PRICE]\<close>, one that \<open>fetch_option_price\<close> returns in
  \<open>[MIN_OPTION_PRICE, MAX_OPTION_PRICE]\<close>. The entry price of a position that
  \<open>enter_position\<close> returns is at least \<open>MIN_OPTION_PRICE = 1\<close>. In every world the
  program reaches, the entry price of the open position is at least 1, and neither
  \<open>exit_position\<close> nor the dashboard's price update raises: the divisions by the entry
  price never divide by zero.
\<close>

theorem fetched_prices_in_range:
  "(fetch_spot_price ob w = (Some price, w') \<longrightarrow>
      MIN_SPOT_PRICE \<le> price \<and> price \<le> MAX_SPOT_PRICE)
   \<and> (fetch_option_price ob tsym seg w = (Some price, w') \<longrightarrow>
      MIN_OPTION_PRICE \<le> price \<and> price \<le> MAX_OPTION_PRICE)
   \<and> (enter_position ob1 ob2 dir tsym seg pivot_point w = (Some pos, w') \<longrightarrow>
      MIN_OPTION_PRICE \<le> entry_price pos \<and> 0 < entry_price pos)
   \<and> MIN_OPTION_PRICE = 1
   \<and> (current_position (caught (main ob0 start obs)) = Some p \<longrightarrow>
      1 \<le> entry_price p
      \<and> (\<exists>w''. exit_position x reason (caught (main ob0 start obs)) = Inr w'')
      \<and> (\<exists>w''. update_trade_price x (caught (main ob0 start obs)) = Inr w''))"
proof -
  have 1: "MIN_SPOT_PRICE \<le> price \<and> price \<le> MAX_SPOT_PRICE"
    if "fetch_spot_price ob w = (Some price, w')"
    using that by (rule fetch_spot_price_in_range)
  have 2: "MIN_OPTION_PRICE \<le> price \<and> price \<le> MAX_OPTION_PRICE"
    if "fetch_option_price ob tsym seg w = (Some price, w')"
    using that by (rule fetch_option_price_in_range)
  have 3: "MIN_OPTION_PRICE \<le> entry_price pos \<and> 0 < entry_price pos"
    if "enter_position ob1 ob2 dir tsym seg pivot_point w = (Some pos, w')"
    using that by (cases rule: enter_position_cases) (auto simp: MIN_OPTION_PRICE_def)
  let ?W = "caught (main ob0 start obs)"
  have inv: "world_inv ?W"
    by (rule main_inv)
  have 4: "1 \<le> entry_price p
      \<and> (\<exists>w''. exit_position x reason ?W = Inr w'')
      \<and> (\<exists>w''. update_trade_price x ?W = Inr w'')"
    if pos: "current_position ?W = Some p"
  proof -
    have "1 \<le> entry_price p"
      using inv pos by (simp add: world_inv_def MIN_OPTION_PRICE_def)
    moreover have "\<exists>w''. exit_position x reason ?W = Inr w''"
      using exit_position_step [OF inv pos, of x reason] by blast
    moreover have "\<exists>w''. update_trade_price x ?W = Inr w''"
      using world_inv_open(3) [OF inv pos] world_inv_open(2) [OF inv pos]
        update_trade_price_done [of ?W _ x]
      by blast
    ultimately show ?thesis
      by simp
  qed
  show ?thesis
    using 1 2 3 4 by (simp add: MIN_OPTION_PRICE_def)
qed

lemma example_enter_position:
  "fst (enter_position (quotes (Quote 100)) (quotes (Quote 100)) ''CALL'' ''NIFTY18500CE''
          ''FNO'' 18500 initial_world) = Some example_position"
proof -
  let ?w = "initial_world"
  have vq: "valid_quote MIN_OPTION_PRICE MAX_OPTION_PRICE (answers (quotes (Quote 100)) 1)
      = Some 100"
    by (simp add: valid_quote_def quotes_def MIN_OPTION_PRICE_def MAX_OPTION_PRICE_def)
  let ?w3 = "breaker_success OptionBreaker (emit (GetLtp ''NSE_NIFTY18500CE'') ?w)"
  let ?w4 = "breaker_success OptionBreaker
               (emit (GetLtp ''NSE_NIFTY18500CE'') (emit (Sleep (1 / 2)) ?w3))"
  have c2: "opened_at (get_breaker OptionBreaker ?w) = None"
    by (simp add: initial_world_def CircuitBreaker_init_def)
  have f1: "fetch_option_price (quotes (Quote 100)) ''NIFTY18500CE'' ''FNO'' ?w
      = (Some 100, ?w3)"
    using fetch_price_first_try [OF c2 vq, of "''NSE_NIFTY18500CE''"]
    by (simp add: fetch_option_price_def)
  have c3: "opened_at (get_breaker OptionBreaker (emit (Sleep (1 / 2)) ?w3)) = None"
    by (simp add: emit_fields option_breaker_after_success)
  have f2: "fetch_option_price (quotes (Quote 100)) ''NIFTY18500CE'' ''FNO''
      (emit (Sleep (1 / 2)) ?w3) = (Some 100, ?w4)"
    using fetch_price_first_try [OF c3 vq, of "''NSE_NIFTY18500CE''"]
    by (simp add: fetch_option_price_def)
  have can: "can_enter_trade ?w"
    by (simp add: can_enter_trade_def initial_world_def MAX_DAILY_TRADES_def)
  have ok: "\<not> entry_prices_invalid (Some 100) (Some 100)"
    by (simp add: entry_prices_invalid_def)
  note r = entry_at_100
  show ?thesis
    using can ok
    by (simp add: enter_position_def f1 f2 Let_def calculate_position_size_def r
          NIFTY_LOT_SIZE_def TRADE_LOTS_def example_position_def)
qed

theorem fetched_prices_in_range_witness:
  "fst (fetch_spot_price (quotes (Quote 18505)) initial_world) = Some 18505
   \<and> MIN_SPOT_PRICE \<le> 18505 \<and> 18505 \<le> MAX_SPOT_PRICE
   \<and> fst (fetch_option_price (quotes (Quote 100)) ''NIFTY18500CE'' ''FNO'' initial_world)
       = Some 100
   \<and> MIN_OPTION_PRICE \<le> 100 \<and> 100 \<le> MAX_OPTION_PRICE
   \<and> fst (enter_position (quotes (Quote 100)) (quotes (Quote 100)) ''CALL'' ''NIFTY18500CE''
            ''FNO'' 18500 initial_world) = Some example_position
   \<and> 0 < entry_price example_position
   \<and> current_position (caught (main example_obs example_start [example_obs])) = Some example_position
   \<and> 1 \<le> entry_price example_position
   \<and> (\<exists>w''. exit_position 105 ''PROFIT_TARGET'' (caught (main example_obs example_start [example_obs]))
               = Inr w'')"
proof -
  let ?s = "fetch_spot_price (quotes (Quote 18505)) initial_world"
  let ?o = "fetch_option_price (quotes (Quote 100)) ''NIFTY18500CE'' ''FNO'' initial_world"
  let ?e = "enter_position (quotes (Quote 100)) (quotes (Quote 100)) ''CALL'' ''NIFTY18500CE''
              ''FNO'' 18500 initial_world"
  have c: "opened_at (get_breaker SpotBreaker initial_world) = None"
    "opened_at (get_breaker OptionBreaker initial_world) = None"
    by (simp_all add: initial_world_def CircuitBreaker_init_def)
  have v: "valid_quote MIN_SPOT_PRICE MAX_SPOT_PRICE (answers (quotes (Quote 18505)) 1)
      = Some 18505"
    "valid_quote MIN_OPTION_PRICE MAX_OPTION_PRICE (answers (quotes (Quote 100)) 1) = Some 100"
    by (simp_all add: valid_quote_def quotes_def MIN_SPOT_PRICE_def MAX_SPOT_PRICE_def
          MIN_OPTION_PRICE_def MAX_OPTION_PRICE_def)
  have s: "?s = (Some 18505, snd ?s)"
    using fetch_price_first_try [OF c(1) v(1), of "''NSE_NIFTY''"]
    by (simp add: fetch_spot_price_def)
  have o: "?o = (Some 100, snd ?o)"
    using fetch_price_first_try [OF c(2) v(2), of "''NSE_NIFTY18500CE''"]
    by (simp add: fetch_option_price_def)
  have e: "?e = (Some example_position, snd ?e)"
    using example_enter_position by (metis prod.collapse)
  have p: "current_position (caught (main example_obs example_start [example_obs])) = Some example_position"
    using example_open_world_facts(2) by (simp add: example_open_world_def)
  note t1 = fetched_prices_in_range
    [of "quotes (Quote 18505)" initial_world 18505 "snd ?s" "''NIFTY18500CE''" "''FNO''"
        "quotes (Quote 100)" "quotes (Quote 100)" "''CALL''" 18500 example_position
        example_obs example_start "[example_obs]" example_position 105 "''PROFIT_TARGET''"]
  note t2 = fetched_prices_in_range
    [of "quotes (Quote 100)" initial_world 100 "snd ?o" "''NIFTY18500CE''" "''FNO''"
        "quotes (Quote 100)" "quotes (Quote 100)" "''CALL''" 18500 example_position
        example_obs example_start "[example_obs]" example_position 105 "''PROFIT_TARGET''"]
  note t3 = fetched_prices_in_range
    [of "quotes (Quote 100)" initial_world 100 "snd ?e" "''NIFTY18500CE''" "''FNO''"
        "quotes (Quote 100)" "quotes (Quote 100)" "''CALL''" 18500 example_position
        example_obs example_start "[example_obs]" example_position 105 "''PROFIT_TARGET''"]
  have 1: "MIN_SPOT_PRICE \<le> 18505 \<and> 18505 \<le> MAX_SPOT_PRICE"
    using t1 s by blast
  have 2: "MIN_OPTION_PRICE \<le> 100 \<and> 100 \<le> MAX_OPTION_PRICE"
    using t2 o by blast
  have 3: "0 < entry_price example_position"
    using t3 e by blast
  have 4: "1 \<le> entry_price example_position
     \<and> (\<exists>w''. exit_position 105 ''PROFIT_TARGET'' (caught (main example_obs example_start [example_obs]))
               = Inr w'')"
    using t1 p by blast
  show ?thesis
    using 1 2 3 4 s o e p by (metis fst_conv)
qed

end
